(* ===== verification/Kernel_Prelude.thy ===== *)
theory Kernel_Prelude
  imports Main "HOL-Library.Word"
begin

text \<open>
  Shared vocabulary of the development: the C integer types as words, the outcome type of
  kernel code (a value, a panic, or no return at all), the counting loop
  \<^verbatim>\<open>for (i = lo; i < hi; ++i)\<close>, linked lists as paths through a store of records,
  and the word lemmas that the components use. Nothing here models a particular file.
\<close>

unbundle bit_operations_syntax

section \<open>Types\<close>

type_synonym u8 = "8 word"
type_synonym u16 = "16 word"
type_synonym u32 = "32 word"
type_synonym u64 = "64 word"

text \<open>
  Byte-addressed memory, and the typed stores that hold the objects of one C struct type by
  their address. A store is total: an address that was never written holds whatever was there
  before, as uninitialised memory does.
\<close>

type_synonym mem = "u32 \<Rightarrow> u8"
type_synonym 'a store = "u32 \<Rightarrow> 'a"

abbreviation NULL :: u32 where
  "NULL \<equiv> 0"

named_theorems c_const \<open>values of the preprocessor constants\<close>
named_theorems unat_simps \<open>word operations read as operations on natural numbers\<close>
named_theorems comp_simps \<open>evaluation rules of kernel computations\<close>

section \<open>Outcomes of kernel code\<close>

text \<open>
  \<open>Panic\<close> is a call of \<^verbatim>\<open>PANIC\<close> or a failed \<^verbatim>\<open>ASSERT\<close> (with its format string), after which
  the machine halts; \<open>Null_deref\<close> is an access through a null pointer. A computation that
  never returns is \<open>None\<close>.
\<close>

datatype kerror = Panic string | Null_deref

type_synonym 'a comp = "(kerror + 'a) option"

definition ret :: "'a \<Rightarrow> 'a comp" where
  "ret x = Some (Inr x)"

definition fail :: "kerror \<Rightarrow> 'a comp" where
  "fail e = Some (Inl e)"

definition bindK :: "'a comp \<Rightarrow> ('a \<Rightarrow> 'b comp) \<Rightarrow> 'b comp" where
  "bindK c f = (case c of None \<Rightarrow> None | Some (Inl e) \<Rightarrow> Some (Inl e) | Some (Inr x) \<Rightarrow> f x)"

definition assertK :: "bool \<Rightarrow> kerror \<Rightarrow> 'a comp \<Rightarrow> 'a comp" where
  "assertK b e c = (if b then c else fail e)"

lemma bindK_simps [simp, comp_simps]:
  "bindK None f = None"
  "bindK (fail e) f = fail e"
  "bindK (ret x) f = f x"
  by (simp_all add: bindK_def fail_def ret_def)

lemma assertK_simps [simp, comp_simps]:
  "assertK True e c = c"
  "assertK False e c = fail e"
  by (simp_all add: assertK_def)

lemma ret_inject [simp]: "ret x = ret y \<longleftrightarrow> x = y"
  by (simp add: ret_def)

lemma ret_neq_fail [simp]: "ret x \<noteq> fail e" "fail e \<noteq> ret x" "ret x \<noteq> None" "None \<noteq> ret x"
  "fail e \<noteq> None" "None \<noteq> fail e" "(fail e = fail e') = (e = e')"
  by (simp_all add: ret_def fail_def)

lemma bindK_eq_ret: "bindK c f = ret y \<longleftrightarrow> (\<exists>x. c = ret x \<and> f x = ret y)"
  by (auto simp: bindK_def ret_def split: option.splits sum.splits)

lemma bindK_assoc: "bindK (bindK c f) g = bindK c (\<lambda>x. bindK (f x) g)"
  by (simp add: bindK_def split: option.splits sum.splits)

lemma assertK_eq_ret: "assertK b e c = ret y \<longleftrightarrow> b \<and> c = ret y"
  by (simp add: assertK_def)

lemma bindK_mono [partial_function_mono]:
  assumes "mono_option B" and "\<And>y. mono_option (\<lambda>f. C y f)"
  shows "mono_option (\<lambda>f. bindK (B f) (\<lambda>y. C y f))"
proof -
  have eq: "bindK c g = Option.bind c (\<lambda>x. case x of Inl e \<Rightarrow> Some (Inl e) | Inr y \<Rightarrow> g y)" for c :: "'x comp" and g :: "'x \<Rightarrow> 'y comp"
    by (simp add: bindK_def split: option.splits sum.splits)
  have "mono_option (\<lambda>f. case x of Inl e \<Rightarrow> Some (Inl e) | Inr y \<Rightarrow> C y f)" for x
    using assms(2) by (cases x) (simp_all add: option.const_mono)
  then show ?thesis unfolding eq by (rule bind_mono [OF assms(1)])
qed

lemma assertK_mono [partial_function_mono]:
  "mono_option C \<Longrightarrow> mono_option (\<lambda>f. assertK b e (C f))"
  by (cases b) (simp_all add: option.const_mono)

section \<open>The counting loop\<close>

text \<open>
  \<^verbatim>\<open>for (i = lo; i < hi; ++i) s = body(i, s)\<close> on an unsigned counter. The counter is below
  \<open>hi\<close> whenever it is incremented, so it never wraps and the loop always ends.
\<close>

lemma unat_Suc_less:
  assumes "(i :: 'a::len word) < j" shows "unat (i + 1) = Suc (unat i)"
proof -
  from assms have "unat i < unat j" by (simp add: word_less_nat_alt)
  moreover have "unat j < 2 ^ LENGTH('a)" by (rule unsigned_less)
  ultimately have "Suc (unat i) < 2 ^ LENGTH('a)" by linarith
  then show ?thesis by (simp add: unat_word_ariths)
qed

function for_range :: "'a::len word \<Rightarrow> 'a word \<Rightarrow> ('a word \<Rightarrow> 's \<Rightarrow> 's) \<Rightarrow> 's \<Rightarrow> 's" where
  "for_range i hi body s = (if i < hi then for_range (i + 1) hi body (body i s) else s)"
  by pat_completeness auto
termination
  by (relation "measure (\<lambda>(i, hi, body, s). unat hi - unat i)")
    (auto simp: unat_Suc_less word_less_nat_alt diff_less_mono2)

declare for_range.simps [simp del]

lemma for_range_fold:
  "for_range i hi body s = fold body (map of_nat [unat i..<unat hi]) s"
proof (induction i hi body s rule: for_range.induct)
  case (1 i hi body s)
  show ?case
  proof (cases "i < hi")
    case True
    then have "[unat i..<unat hi] = unat i # [unat (i + 1)..<unat hi]"
      by (simp add: unat_Suc_less word_less_nat_alt upt_conv_Cons)
    with True 1 show ?thesis
      by (simp add: for_range.simps [of i])
  next
    case False
    then show ?thesis
      by (simp add: for_range.simps [of i] word_less_nat_alt)
  qed
qed

lemma fold_keeps: "(\<And>i s. g (f i s) = g s) \<Longrightarrow> g (fold f xs s) = g s"
  by (induction xs arbitrary: s) simp_all

lemma for_range_keeps: "(\<And>i s. g (f i s) = g s) \<Longrightarrow> g (for_range i hi f s) = g s"
  by (simp add: for_range_fold fold_keeps)

text \<open>The same loop when its body may fail.\<close>

primrec foldK :: "('i \<Rightarrow> 's \<Rightarrow> 's comp) \<Rightarrow> 'i list \<Rightarrow> 's \<Rightarrow> 's comp" where
  "foldK body [] s = ret s"
| "foldK body (i # is) s = bindK (body i s) (foldK body is)"

definition for_rangeK :: "'a::len word \<Rightarrow> 'a word \<Rightarrow> ('a word \<Rightarrow> 's \<Rightarrow> 's comp) \<Rightarrow> 's \<Rightarrow> 's comp" where
  "for_rangeK i hi body s = foldK body (map of_nat [unat i..<unat hi]) s"

lemma for_rangeK_step:
  "for_rangeK i hi body s = (if i < hi then bindK (body i s) (for_rangeK (i + 1) hi body) else ret s)"
proof (cases "i < hi")
  case True
  then have "[unat i..<unat hi] = unat i # [unat (i + 1)..<unat hi]"
    by (simp add: unat_Suc_less word_less_nat_alt upt_conv_Cons)
  moreover have "for_rangeK (i + 1) hi body = foldK body (map of_nat [unat (i + 1)..<unat hi])"
    by (rule ext) (simp add: for_rangeK_def)
  ultimately show ?thesis using True by (simp add: for_rangeK_def)
next
  case False
  then show ?thesis by (simp add: for_rangeK_def word_less_nat_alt)
qed

lemma foldK_invariant:
  assumes "P s" and "\<And>i s. i \<in> set is \<Longrightarrow> P s \<Longrightarrow> \<exists>s'. body i s = ret s' \<and> P s'"
  shows "\<exists>s'. foldK body is s = ret s' \<and> P s'"
  using assms
proof (induction "is" arbitrary: s)
  case (Cons i "is")
  from Cons.prems(2) [of i s] Cons.prems(1) obtain s1 where "body i s = ret s1" "P s1" by auto
  moreover from Cons.IH [OF this(2)] Cons.prems(2) obtain s' where "foldK body is s1 = ret s'" "P s'" by auto
  ultimately show ?case by auto
qed simp

text \<open>The invariant rule of the loop, the index read as a natural number.\<close>

lemma for_range_invariant:
  assumes "unat i \<le> unat hi" and "P (unat i) s"
    and step: "\<And>n s. unat i \<le> n \<Longrightarrow> n < unat hi \<Longrightarrow> P n s \<Longrightarrow> P (Suc n) (body (of_nat n) s)"
  shows "P (unat hi) (for_range i hi body s)"
proof -
  have "P (unat i + k) (fold body (map of_nat [unat i..<unat i + k]) s)" if "unat i + k \<le> unat hi" for k
    using that
  proof (induction k)
    case 0
    with assms(2) show ?case by simp
  next
    case (Suc k)
    then have "P (unat i + k) (fold body (map of_nat [unat i..<unat i + k]) s)" by simp
    from step [OF _ _ this] Suc.prems show ?case by simp
  qed
  from this [of "unat hi - unat i"] show ?thesis
    using assms(1) by (simp add: for_range_fold)
qed

section \<open>Words as natural numbers\<close>

lemma unat_u32_less [simp]: "unat (x :: u32) < 4294967296"
  using unsigned_less [of x] by simp

lemma unat_add_u32 [unat_simps]:
  "unat (x :: u32) + unat y < 4294967296 \<Longrightarrow> unat (x + y) = unat x + unat y"
  by (simp add: unat_word_ariths)

lemma unat_mult_u32 [unat_simps]:
  "unat (x :: u32) * unat y < 4294967296 \<Longrightarrow> unat (x * y) = unat x * unat y"
  by (simp add: unat_word_ariths)

lemma unat_sub_u32 [unat_simps]:
  "unat (y :: u32) \<le> unat x \<Longrightarrow> unat (x - y) = unat x - unat y"
  by (simp add: unat_sub word_le_nat_alt)

lemma unat_ucast_u64 [simp]: "unat (ucast (b :: u32) :: u64) = unat b"
proof -
  have "unat b < 2 ^ 64" by (rule less_trans [OF unat_u32_less]) simp
  then show ?thesis by (simp add: unsigned_ucast_eq take_bit_nat_eq_self)
qed

lemma unat_ucast_u32: "unat (ucast (x :: u64) :: u32) = unat x mod 4294967296"
  by (simp add: unsigned_ucast_eq unsigned_take_bit_eq take_bit_eq_mod)

lemma u32_eqI: "unat (x :: u32) = unat y \<Longrightarrow> x = y"
  by (simp add: word_unat_eq_iff)

text \<open>Truncating a 64-bit value to 32 bits commutes with the ring operations.\<close>

lemma ucast_u32_add: "(ucast (x + y :: u64) :: u32) = ucast x + ucast y"
  by (rule u32_eqI)
    (simp add: unat_ucast_u32 unat_word_ariths mod_mod_cancel mod_add_eq)

lemma ucast_u32_mult: "(ucast (x * y :: u64) :: u32) = ucast x * ucast y"
  by (rule u32_eqI)
    (simp add: unat_ucast_u32 unat_word_ariths mod_mod_cancel mod_mult_eq)

lemma ucast_u32_of_nat: "(ucast (of_nat n :: u64) :: u32) = of_nat n"
  by (rule u32_eqI) (simp add: unat_ucast_u32 unat_of_nat mod_mod_cancel)

lemma ucast_u32_u64 [simp]: "(ucast (ucast (a :: u32) :: u64) :: u32) = a"
  by (rule u32_eqI) (simp add: unat_ucast_u32)

lemmas ucast_u32_simps = ucast_u32_add ucast_u32_mult ucast_u32_of_nat

section \<open>Linked lists in a store\<close>

text \<open>
  \<open>list_at nxt p xs\<close>: following the \<^verbatim>\<open>next\<close> pointers from \<open>p\<close> visits exactly the addresses
  \<open>xs\<close> and ends at NULL.
\<close>

primrec list_at :: "(u32 \<Rightarrow> u32) \<Rightarrow> u32 \<Rightarrow> u32 list \<Rightarrow> bool" where
  "list_at nxt p [] \<longleftrightarrow> p = NULL"
| "list_at nxt p (x # xs) \<longleftrightarrow> p = x \<and> x \<noteq> NULL \<and> list_at nxt (nxt x) xs"

primrec path_at :: "(u32 \<Rightarrow> u32) \<Rightarrow> u32 \<Rightarrow> u32 list \<Rightarrow> u32 \<Rightarrow> bool" where
  "path_at nxt p [] q \<longleftrightarrow> p = q"
| "path_at nxt p (x # xs) q \<longleftrightarrow> p = x \<and> x \<noteq> NULL \<and> path_at nxt (nxt x) xs q"

lemma list_at_NULL [simp]: "list_at nxt NULL xs \<longleftrightarrow> xs = []"
  by (cases xs) auto

lemma list_at_nonnull:
  "p \<noteq> NULL \<Longrightarrow> list_at nxt p xs \<longleftrightarrow> (\<exists>ys. xs = p # ys \<and> list_at nxt (nxt p) ys)"
  by (cases xs) auto

lemma list_at_append: "list_at nxt p (xs @ ys) \<longleftrightarrow> (\<exists>q. path_at nxt p xs q \<and> list_at nxt q ys)"
  by (induction xs arbitrary: p) auto

lemma path_at_append: "path_at nxt p (xs @ ys) q \<longleftrightarrow> (\<exists>r. path_at nxt p xs r \<and> path_at nxt r ys q)"
  by (induction xs arbitrary: p) auto

lemma list_at_unique: "list_at nxt p xs \<Longrightarrow> list_at nxt p ys \<Longrightarrow> xs = ys"
proof (induction xs arbitrary: p ys)
  case (Cons x xs)
  then show ?case by (cases ys) auto
qed simp

lemma list_at_tail_notin:
  assumes "list_at nxt (nxt x) xs" shows "x \<notin> set xs"
proof
  assume "x \<in> set xs"
  then obtain ys zs where xs: "xs = ys @ x # zs" by (auto simp: in_set_conv_decomp)
  with assms have "list_at nxt (nxt x) zs" by (auto simp: list_at_append)
  with assms have "zs = xs" by (rule list_at_unique [rotated])
  with xs show False by simp
qed

lemma list_at_distinct: "list_at nxt p xs \<Longrightarrow> distinct xs"
  by (induction xs arbitrary: p) (auto dest: list_at_tail_notin)

lemma list_at_nonnull_mem: "list_at nxt p xs \<Longrightarrow> NULL \<notin> set xs"
  by (induction xs arbitrary: p) auto

lemma list_at_upd [simp]: "x \<notin> set xs \<Longrightarrow> list_at (nxt(x := v)) p xs = list_at nxt p xs"
  by (induction xs arbitrary: p) auto

lemma path_at_upd [simp]: "x \<notin> set xs \<Longrightarrow> path_at (nxt(x := v)) p xs q = path_at nxt p xs q"
  by (induction xs arbitrary: p) auto

lemma list_at_cong:
  "(\<And>x. x \<in> set xs \<Longrightarrow> nxt x = nxt' x) \<Longrightarrow> list_at nxt p xs = list_at nxt' p xs"
  by (induction xs arbitrary: p) auto

lemma path_at_cong:
  "(\<And>x. x \<in> set xs \<Longrightarrow> nxt x = nxt' x) \<Longrightarrow> path_at nxt p xs q = path_at nxt' p xs q"
  by (induction xs arbitrary: p) auto

text \<open>Redirecting the pointer of the last node before a suffix: unlinking and inserting.\<close>

lemma list_at_relink:
  assumes "list_at nxt p (xs @ x # ys)" and "list_at (nxt(x := q)) q zs"
  shows "list_at (nxt(x := q)) p (xs @ x # zs)"
proof -
  from list_at_distinct [OF assms(1)] have "x \<notin> set xs" by simp
  with assms show ?thesis by (auto simp: list_at_append)
qed

text \<open>Unlinking the node \<open>x\<close> or replacing it: the pointer before it is redirected.\<close>

lemma list_at_redirect:
  assumes "list_at nxt p0 (pre @ x # post)" and "list_at nxt q zs" and "set pre \<inter> set zs = {}"
  shows "pre = [] \<Longrightarrow> list_at nxt q (pre @ zs)"
    and "pre \<noteq> [] \<Longrightarrow> list_at (nxt(last pre := q)) p0 (pre @ zs)"
proof -
  show "pre = [] \<Longrightarrow> list_at nxt q (pre @ zs)" using assms(2) by simp
next
  assume "pre \<noteq> []"
  then obtain ys l where pre: "pre = ys @ [l]" by (metis append_butlast_last_id)
  from assms(2,3) have "list_at (nxt(l := q)) q zs" by (simp add: pre)
  with assms(1) have "list_at (nxt(l := q)) p0 (ys @ l # zs)"
    by (intro list_at_relink [where ys = "x # post"]) (simp_all add: pre)
  then show "list_at (nxt(last pre := q)) p0 (pre @ zs)" by (simp add: pre)
qed

lemma list_at_parts:
  assumes "list_at nxt p0 (pre @ x # post)"
  shows "pre = [] \<Longrightarrow> p0 = x" and "x \<noteq> NULL" and "list_at nxt (nxt x) post"
    and "x \<notin> set pre" and "x \<notin> set post" and "set pre \<inter> set post = {}" and "NULL \<notin> set pre"
  using assms list_at_distinct [OF assms] list_at_nonnull_mem [OF assms]
  by (auto simp: list_at_append)

end
