(* ===== verification/Allocator_Spec.thy ===== *)
theory Allocator_Spec
  imports Kernel_Prelude
begin

text \<open>
  What the rest of the kernel relies on when it calls the heap: an allocator over an abstract
  state, with the set of live pointers as a ghost argument of its invariant. The lemmas of the
  locale are what a client that holds several objects needs: new objects are different from and
  do not overlap the ones it holds, and the ones it holds stay where they are.
\<close>

locale region_allocator =
  fixes alloc :: "u32 \<Rightarrow> 's \<Rightarrow> (u32 \<times> 's) option"
    and release :: "u32 \<Rightarrow> 's \<Rightarrow> 's"
    and inv :: "'s \<Rightarrow> u32 set \<Rightarrow> bool"
    and region :: "'s \<Rightarrow> u32 \<Rightarrow> nat set"
    and size_ok :: "u32 \<Rightarrow> bool"
  assumes alloc_returns: "inv s L \<Longrightarrow> \<exists>p s'. alloc n s = Some (p, s')"
    and alloc_null: "inv s L \<Longrightarrow> alloc n s = Some (NULL, s') \<Longrightarrow> s' = s"
    and alloc_inv: "inv s L \<Longrightarrow> size_ok n \<Longrightarrow> alloc n s = Some (p, s') \<Longrightarrow> p \<noteq> NULL \<Longrightarrow>
          inv s' (insert p L)"
    and alloc_fresh: "inv s L \<Longrightarrow> size_ok n \<Longrightarrow> alloc n s = Some (p, s') \<Longrightarrow> p \<noteq> NULL \<Longrightarrow> p \<notin> L"
    and alloc_region: "inv s L \<Longrightarrow> size_ok n \<Longrightarrow> alloc n s = Some (p, s') \<Longrightarrow> p \<noteq> NULL \<Longrightarrow>
          region s' p = {unat p ..< unat p + unat n}"
    and alloc_frame: "inv s L \<Longrightarrow> size_ok n \<Longrightarrow> alloc n s = Some (p, s') \<Longrightarrow> p \<noteq> NULL \<Longrightarrow> q \<in> L \<Longrightarrow>
          region s' q = region s q"
    and release_inv: "inv s L \<Longrightarrow> p \<in> L \<Longrightarrow> inv (release p s) (L - {p})"
    and release_frame: "inv s L \<Longrightarrow> p \<in> L \<Longrightarrow> region (release p s) q = region s q"
    and region_disjoint: "inv s L \<Longrightarrow> p \<in> L \<Longrightarrow> q \<in> L \<Longrightarrow> p \<noteq> q \<Longrightarrow> region s p \<inter> region s q = {}"
    and live_nonnull: "inv s L \<Longrightarrow> NULL \<notin> L"
begin

lemma alloc_keeps_inv:
  assumes "inv s L" and "size_ok n" and "alloc n s = Some (p, s')"
  shows "inv s' (if p = NULL then L else insert p L)"
  using assms alloc_null alloc_inv by (auto split: if_splits)

text \<open>A new region overlaps no region that was live before.\<close>

lemma alloc_disjoint:
  assumes "inv s L" and "size_ok n" and "alloc n s = Some (p, s')" and "p \<noteq> NULL" and "q \<in> L"
  shows "region s' p \<inter> region s q = {}"
proof -
  from assms have "region s' p \<inter> region s' q = {}"
    by (intro region_disjoint [of s' "insert p L"]) (auto dest: alloc_inv alloc_fresh)
  with assms alloc_frame show ?thesis by simp
qed

text \<open>Two objects allocated one after the other are different and do not overlap.\<close>

lemma alloc_twice:
  assumes "inv s L" and "size_ok m" and "size_ok n"
    and "alloc m s = Some (p, s')" and "p \<noteq> NULL"
    and "alloc n s' = Some (q, s'')" and "q \<noteq> NULL"
  shows "p \<noteq> q" and "region s'' p \<inter> region s'' q = {}" and "inv s'' (insert q (insert p L))"
proof -
  from assms(1,2,4,5) have inv': "inv s' (insert p L)" by (rule alloc_inv)
  from alloc_fresh [OF inv' assms(3,6,7)] show ne: "p \<noteq> q" by auto
  from alloc_inv [OF inv' assms(3,6,7)] have inv'': "inv s'' (insert q (insert p L))" .
  then show "region s'' p \<inter> region s'' q = {}"
    by (rule region_disjoint) (auto simp: ne)
  from inv'' show "inv s'' (insert q (insert p L))" .
qed

lemma alloc_release:
  assumes "inv s L" and "size_ok n" and "alloc n s = Some (p, s')" and "p \<noteq> NULL"
  shows "inv (release p s') L"
proof -
  from assms have "inv (release p s') (insert p L - {p})"
    by (intro release_inv) (auto intro: alloc_inv)
  with alloc_fresh [OF assms] show ?thesis by simp
qed

end

end
