(* ===== verification/Kmalloc.thy ===== *)
theory Kmalloc
  imports Allocator_Spec
begin

text \<open>
  The kernel heap, \<^verbatim>\<open>src/kernel/kmalloc.c\<close>: a first-fit allocator over an explicit free list
  whose headers live in the heap itself. The store \<open>headers\<close> holds the
  \<^verbatim>\<open>kmalloc_header_t\<close> at each address. The invariant \<open>heap_inv\<close> says that the free and the
  allocated blocks together tile the heap exactly; every operation keeps it, so blocks handed
  out never overlap and no byte of the heap is lost.
\<close>

section \<open>Data and operations\<close>

definition KERNEL_HEAP_VIRT_START :: u32 where [c_const]: "KERNEL_HEAP_VIRT_START = 0xE0000000"
definition KERNEL_HEAP_PHYS_START :: u32 where [c_const]: "KERNEL_HEAP_PHYS_START = 0x00800000"
definition KERNEL_HEAP_SIZE :: u32 where [c_const]: "KERNEL_HEAP_SIZE = 0x03000000"

text \<open>\<^verbatim>\<open>sizeof(kmalloc_header_t)\<close> on i386: two 32-bit words.\<close>

definition sizeof_header :: u32 where [c_const]: "sizeof_header = 8"

record kmalloc_header =
  hdr_size :: u32
  hdr_next :: u32

record kmalloc_state =
  headers :: "kmalloc_header store"
  KMALLOC_HEAD :: u32

definition kmalloc_init :: "'a kmalloc_state_scheme \<Rightarrow> 'a kmalloc_state_scheme" where
  "kmalloc_init s = s\<lparr>KMALLOC_HEAD := KERNEL_HEAP_VIRT_START,
     headers := (headers s)(KERNEL_HEAP_VIRT_START :=
       \<lparr>hdr_size = KERNEL_HEAP_SIZE - sizeof_header, hdr_next = NULL\<rparr>)\<rparr>"

text \<open>The branch that returns the entire block.\<close>

definition kmalloc_whole ::
  "u32 \<Rightarrow> u32 \<Rightarrow> 'a kmalloc_state_scheme \<Rightarrow> u32 \<times> 'a kmalloc_state_scheme" where
  "kmalloc_whole free_region prev_region s =
     (free_region + sizeof_header,
      if prev_region = NULL
      then s\<lparr>KMALLOC_HEAD := hdr_next (headers s (KMALLOC_HEAD s))\<rparr>
      else s\<lparr>headers := (headers s)(prev_region :=
             (headers s prev_region)\<lparr>hdr_next := hdr_next (headers s free_region)\<rparr>)\<rparr>)"

text \<open>The branch that splits the block; the four assignments in the order of the code.\<close>

definition kmalloc_split ::
  "u32 \<Rightarrow> u32 \<Rightarrow> u32 \<Rightarrow> 'a kmalloc_state_scheme \<Rightarrow> u32 \<times> 'a kmalloc_state_scheme" where
  "kmalloc_split sz free_region prev_region s =
     (let remaining = hdr_size (headers s free_region) - sz;
          new_region = free_region + sizeof_header + sz;
          s1 = s\<lparr>headers := (headers s)(new_region :=
                 \<lparr>hdr_size = remaining - sizeof_header,
                  hdr_next = hdr_next (headers s free_region)\<rparr>)\<rparr>;
          s2 = (if prev_region = NULL
                then s1\<lparr>KMALLOC_HEAD := new_region\<rparr>
                else s1\<lparr>headers := (headers s1)(prev_region :=
                       (headers s1 prev_region)\<lparr>hdr_next := new_region\<rparr>)\<rparr>);
          s3 = s2\<lparr>headers := (headers s2)(free_region :=
                 (headers s2 free_region)\<lparr>hdr_size := sz\<rparr>)\<rparr>
      in (free_region + sizeof_header, s3))"

partial_function (option) kmalloc_loop ::
  "u32 \<Rightarrow> u32 \<Rightarrow> u32 \<Rightarrow> 'a kmalloc_state_scheme \<Rightarrow> (u32 \<times> 'a kmalloc_state_scheme) option" where [code]:
  "kmalloc_loop sz free_region prev_region s =
     (if free_region = NULL then Some (NULL, s)
      else if hdr_size (headers s free_region) = sz
        then Some (kmalloc_whole free_region prev_region s)
      else if hdr_size (headers s free_region) > sz + sizeof_header
        then Some (kmalloc_split sz free_region prev_region s)
      else kmalloc_loop sz (hdr_next (headers s free_region)) free_region s)"

definition kmalloc ::
  "u32 \<Rightarrow> 'a kmalloc_state_scheme \<Rightarrow> (u32 \<times> 'a kmalloc_state_scheme) option" where
  "kmalloc sz s = kmalloc_loop sz (KMALLOC_HEAD s) NULL s"

definition kfree :: "u32 \<Rightarrow> 'a kmalloc_state_scheme \<Rightarrow> 'a kmalloc_state_scheme" where
  "kfree addr s =
     (let region = addr - sizeof_header
      in s\<lparr>headers := (headers s)(region := (headers s region)\<lparr>hdr_next := KMALLOC_HEAD s\<rparr>),
           KMALLOC_HEAD := region\<rparr>)"

section \<open>The heap invariant\<close>

text \<open>The bytes of a block: its header and its payload.\<close>

definition block_of :: "kmalloc_header store \<Rightarrow> u32 \<Rightarrow> nat set" where
  "block_of h p = {unat p ..< unat p + 8 + unat (hdr_size (h p))}"

text \<open>The payload bytes behind a pointer that \<open>kmalloc\<close> returned.\<close>

definition payload :: "'a kmalloc_state_scheme \<Rightarrow> u32 \<Rightarrow> nat set" where
  "payload s p = {unat p ..< unat p + unat (hdr_size (headers s (p - sizeof_header)))}"

definition heap_range :: "nat set" where
  "heap_range = {0xE0000000 ..< 0xE3000000}"

definition heap_wf :: "kmalloc_header store \<Rightarrow> u32 set \<Rightarrow> bool" where
  "heap_wf h B \<longleftrightarrow>
     (\<forall>p\<in>B. \<forall>q\<in>B. p \<noteq> q \<longrightarrow> block_of h p \<inter> block_of h q = {}) \<and>
     (\<Union>p\<in>B. block_of h p) = heap_range"

abbreviation hdrs :: "u32 set \<Rightarrow> u32 set" where
  "hdrs L \<equiv> (\<lambda>p. p - sizeof_header) ` L"

definition heap_inv :: "'a kmalloc_state_scheme \<Rightarrow> u32 list \<Rightarrow> u32 set \<Rightarrow> bool" where
  "heap_inv s free L \<longleftrightarrow>
     list_at (hdr_next \<circ> headers s) (KMALLOC_HEAD s) free \<and>
     set free \<inter> hdrs L = {} \<and>
     heap_wf (headers s) (set free \<union> hdrs L)"

definition kmalloc_inv :: "'a kmalloc_state_scheme \<Rightarrow> u32 set \<Rightarrow> bool" where
  "kmalloc_inv s L \<longleftrightarrow> (\<exists>free. heap_inv s free L)"

lemma block_of_mem [simp]: "unat p \<in> block_of h p"
  by (simp add: block_of_def)

lemma heap_wf_bounds:
  assumes "heap_wf h B" and "p \<in> B"
  shows "0xE0000000 \<le> unat p" and "unat p + 8 + unat (hdr_size (h p)) \<le> 0xE3000000"
proof -
  from assms have sub: "block_of h p \<subseteq> heap_range" by (auto simp: heap_wf_def)
  have "unat p \<in> block_of h p" "unat p + 7 + unat (hdr_size (h p)) \<in> block_of h p"
    by (auto simp: block_of_def)
  with sub have "unat p \<in> heap_range" "unat p + 7 + unat (hdr_size (h p)) \<in> heap_range" by auto
  then show "0xE0000000 \<le> unat p" "unat p + 8 + unat (hdr_size (h p)) \<le> 0xE3000000"
    by (simp_all add: heap_range_def)
qed

lemma heap_wf_cong:
  assumes "\<And>p. p \<in> B \<Longrightarrow> hdr_size (h p) = hdr_size (h' p)"
  shows "heap_wf h B \<longleftrightarrow> heap_wf h' B"
proof -
  have "block_of h p = block_of h' p" if "p \<in> B" for p
    using assms [OF that] by (simp add: block_of_def)
  then show ?thesis by (simp add: heap_wf_def)
qed

text \<open>No block starts inside the payload of another one.\<close>

lemma heap_wf_inner:
  assumes wf: "heap_wf h B" and p: "p \<in> B" and "unat n < unat (hdr_size (h p))"
  shows "unat (p + 8 + n) = unat p + 8 + unat n" and "p + 8 + n \<notin> B"
proof -
  show eq: "unat (p + 8 + n) = unat p + 8 + unat n"
    using heap_wf_bounds [OF wf p] assms(3) by (simp add: unat_simps)
  with assms(3) have "unat (p + 8 + n) \<in> block_of h p" by (simp add: block_of_def)
  moreover have "p + 8 + n \<noteq> p"
  proof
    assume e: "p + 8 + n = p"
    from eq show False unfolding e by simp
  qed
  ultimately show "p + 8 + n \<notin> B"
    using wf p block_of_mem [of "p + 8 + n" h] by (metis disjoint_iff heap_wf_def)
qed

text \<open>Splitting a block keeps the tiling.\<close>

lemma heap_wf_split:
  assumes wf: "heap_wf h B" and p: "p \<in> B"
    and big: "unat n + 8 < unat (hdr_size (h p))"
    and q: "q = p + 8 + n"
    and hp: "hdr_size (h' p) = n"
    and hq: "hdr_size (h' q) = hdr_size (h p) - n - 8"
    and others: "\<And>x. x \<in> B \<Longrightarrow> x \<noteq> p \<Longrightarrow> hdr_size (h' x) = hdr_size (h x)"
  shows "heap_wf h' (insert q B)"
proof -
  have uq: "unat q = unat p + 8 + unat n"
    using heap_wf_inner(1) [OF wf p, of n] big by (simp add: q)
  have usz: "unat (hdr_size (h' q)) = unat (hdr_size (h p)) - unat n - 8"
    using big by (simp add: hq unat_simps)
  have split: "block_of h p = block_of h' p \<union> block_of h' q" "block_of h' p \<inter> block_of h' q = {}"
    using big by (auto simp: block_of_def uq usz hp)
  have same: "block_of h' x = block_of h x" if "x \<in> B" "x \<noteq> p" for x
    using others [OF that] by (simp add: block_of_def)
  have cover: "(\<Union>x\<in>insert q B. block_of h' x) = (\<Union>x\<in>B. block_of h x)"
  proof -
    have B: "B = insert p (B - {p})" using p by auto
    have "(\<Union>x\<in>B - {p}. block_of h' x) = (\<Union>x\<in>B - {p}. block_of h x)"
      by (rule SUP_cong) (auto simp: same)
    then show ?thesis
      by (subst (1 2) B) (use split(1) in auto)
  qed
  have disj: "block_of h' x \<inter> block_of h' y = {}"
    if "x \<in> insert q B" "y \<in> insert q B" "x \<noteq> y" for x y
  proof -
    have old: "block_of h x \<inter> block_of h y = {}" if "x \<in> B" "y \<in> B" "x \<noteq> y" for x y
      using wf that by (simp add: heap_wf_def)
    have sub: "block_of h' q \<subseteq> block_of h p" "block_of h' p \<subseteq> block_of h p"
      using split(1) by auto
    have qx: "block_of h' q \<inter> block_of h' x = {}" if "x \<in> B" for x
      using split(2) sub(1) same [OF that] old [OF p that] by (cases "x = p") auto
    have px: "block_of h' p \<inter> block_of h' x = {}" if "x \<in> B" "x \<noteq> p" for x
      using sub(2) same [OF that] old [OF p that(1)] that by auto
    have bb: "block_of h' x \<inter> block_of h' y = {}" if "x \<in> B" "y \<in> B" "x \<noteq> y" for x y
      using that by (metis px same old Int_commute)
    from that show ?thesis by (metis bb qx Int_commute insert_iff)
  qed
  from cover disj wf show "heap_wf h' (insert q B)" by (simp add: heap_wf_def)
qed

section \<open>What the search does\<close>

definition fits :: "'a kmalloc_state_scheme \<Rightarrow> u32 \<Rightarrow> u32 \<Rightarrow> bool" where
  "fits s n x \<longleftrightarrow> hdr_size (headers s x) = n \<or> hdr_size (headers s x) > n + sizeof_header"

definition kmalloc_take ::
  "u32 \<Rightarrow> u32 \<Rightarrow> u32 \<Rightarrow> 'a kmalloc_state_scheme \<Rightarrow> u32 \<times> 'a kmalloc_state_scheme" where
  "kmalloc_take n x prev s =
     (if hdr_size (headers s x) = n then kmalloc_whole x prev s else kmalloc_split n x prev s)"

text \<open>The loop stops at the first block that fits, remembering the node before it.\<close>

lemma kmalloc_loop_search:
  assumes "list_at (hdr_next \<circ> headers s) fr suf"
  shows "kmalloc_loop n fr prev s =
    (case dropWhile (\<lambda>x. \<not> fits s n x) suf of
       [] \<Rightarrow> Some (NULL, s)
     | x # _ \<Rightarrow> Some (kmalloc_take n x (last (prev # takeWhile (\<lambda>x. \<not> fits s n x) suf)) s))"
  using assms
proof (induction suf arbitrary: fr prev)
  case Nil
  then show ?case by (simp add: kmalloc_loop.simps)
next
  case (Cons x xs)
  then have x: "fr = x" "x \<noteq> NULL" and rest: "list_at (hdr_next \<circ> headers s) (hdr_next (headers s x)) xs"
    by (simp_all add: comp_def)
  show ?case
  proof (cases "fits s n x")
    case True
    with x show ?thesis by (subst kmalloc_loop.simps) (auto simp: fits_def kmalloc_take_def)
  next
    case False
    with x Cons.IH [OF rest, of x] show ?thesis
      by (subst kmalloc_loop.simps, cases "dropWhile (\<lambda>x. \<not> fits s n x) xs")
        (simp_all add: fits_def [of s n x] del: dropWhile_eq_Nil_conv)
  qed
qed

lemma hdrs_insert [simp]: "hdrs (insert (x + sizeof_header) L) = insert x (hdrs L)"
  by simp

lemma kmalloc_whole_inv:
  assumes inv: "heap_inv s (pre @ x # post) L"
    and step: "kmalloc_whole x (last (NULL # pre)) s = (p, s')"
  shows "p = x + sizeof_header" and "heap_inv s' (pre @ post) (insert p L)"
    and "\<And>y. hdr_size (headers s' y) = hdr_size (headers s y)"
proof -
  let ?nxt = "hdr_next \<circ> headers s"
  from inv have path: "list_at ?nxt (KMALLOC_HEAD s) (pre @ x # post)"
    and disj: "set (pre @ x # post) \<inter> hdrs L = {}"
    and wf: "heap_wf (headers s) (set (pre @ x # post) \<union> hdrs L)"
    by (simp_all add: heap_inv_def)
  note parts = list_at_parts [OF path]
  show p: "p = x + sizeof_header" using step by (auto simp: kmalloc_whole_def fun_upd_comp)
  show sizes: "hdr_size (headers s' y) = hdr_size (headers s y)" for y
    using step by (auto simp: kmalloc_whole_def fun_upd_comp)
  note redirect = list_at_redirect [OF path parts(3) parts(6)]
  have "list_at (hdr_next \<circ> headers s') (KMALLOC_HEAD s') (pre @ post)"
  proof (cases "pre = []")
    case True
    with step redirect(1) parts(1) show ?thesis by (auto simp: kmalloc_whole_def fun_upd_comp)
  next
    case False
    then have "last pre \<noteq> NULL" using parts(7) by (metis last_in_set)
    with False step redirect(2) show ?thesis by (auto simp: kmalloc_whole_def fun_upd_comp)
  qed
  moreover have "set (pre @ post) \<union> hdrs (insert p L) = set (pre @ x # post) \<union> hdrs L"
    by (auto simp: p)
  moreover from disj parts have "set (pre @ post) \<inter> hdrs (insert p L) = {}" by (auto simp: p)
  ultimately show "heap_inv s' (pre @ post) (insert p L)"
    using wf heap_wf_cong [of _ "headers s'" "headers s"] sizes by (simp add: heap_inv_def)
qed

lemma kmalloc_split_inv:
  assumes inv: "heap_inv s (pre @ x # post) L"
    and big: "unat n + 8 < unat (hdr_size (headers s x))"
    and step: "kmalloc_split n x (last (NULL # pre)) s = (p, s')"
  shows "p = x + sizeof_header"
    and "heap_inv s' (pre @ (x + sizeof_header + n) # post) (insert p L)"
    and "hdr_size (headers s' x) = n"
    and "\<And>y. y \<in> set (pre @ post) \<union> hdrs L \<Longrightarrow> hdr_size (headers s' y) = hdr_size (headers s y)"
proof -
  let ?new = "x + sizeof_header + n"
  let ?B = "set (pre @ x # post) \<union> hdrs L"
  let ?nxt = "hdr_next \<circ> headers s"
  from inv have path: "list_at ?nxt (KMALLOC_HEAD s) (pre @ x # post)"
    and disj: "set (pre @ x # post) \<inter> hdrs L = {}"
    and wf: "heap_wf (headers s) ?B"
    by (simp_all add: heap_inv_def)
  note parts = list_at_parts [OF path]
  show p: "p = x + sizeof_header" using step by (auto simp: kmalloc_split_def Let_def)
  have notin: "?new \<notin> ?B"
    using heap_wf_inner(2) [OF wf, of x n] big by (simp add: c_const)
  then have new_ne: "?new \<noteq> x" "?new \<notin> set pre" "?new \<notin> set post" by auto
  have prev: "pre \<noteq> [] \<Longrightarrow> last pre \<in> set pre" "pre \<noteq> [] \<Longrightarrow> last pre \<noteq> NULL"
    using parts(7) by (auto, metis last_in_set)
  have sz: "hdr_size (headers s' y) = (if y = x then n else if y = ?new
      then hdr_size (headers s x) - n - sizeof_header else hdr_size (headers s y))" for y
    using step by (auto simp: kmalloc_split_def Let_def split: if_splits)
  show "hdr_size (headers s' x) = n" by (simp add: sz)
  show same: "hdr_size (headers s' y) = hdr_size (headers s y)" if "y \<in> set (pre @ post) \<union> hdrs L" for y
    using that notin parts(4,5) disj by (auto simp: sz)
  have wf': "heap_wf (headers s') (insert ?new ?B)"
    using notin by (intro heap_wf_split [OF wf _ big]) (auto simp: sz c_const)
  let ?nxt1 = "?nxt(?new := ?nxt x)"
  have path1: "list_at ?nxt1 (KMALLOC_HEAD s) (pre @ x # post)"
    using path new_ne by simp
  have tail: "list_at ?nxt1 ?new (?new # post)"
  proof -
    have "0 < unat ?new" using heap_wf_inner(1) [OF wf, of x n] big by (simp add: c_const)
    with parts(3) new_ne show ?thesis by (auto simp: unat_gt_0)
  qed
  note redirect = list_at_redirect [OF path1 tail]
  have nxt': "hdr_next \<circ> headers s' = (if pre = [] then ?nxt1 else ?nxt1(last pre := ?new))"
  proof (cases "pre = []")
    case True
    with step new_ne parts(4) show ?thesis by (auto simp: kmalloc_split_def Let_def fun_eq_iff)
  next
    case False
    with prev new_ne(2) have "last pre \<noteq> NULL" "last pre \<noteq> ?new" by (auto, metis last_in_set)
    with step False new_ne(1) show ?thesis by (auto simp: kmalloc_split_def Let_def fun_eq_iff)
  qed
  have "list_at (hdr_next \<circ> headers s') (KMALLOC_HEAD s') (pre @ ?new # post)"
  proof (cases "pre = []")
    case True
    with step redirect(1) show ?thesis by (auto simp: nxt' kmalloc_split_def Let_def)
  next
    case False
    with step redirect(2) prev new_ne parts(6) show ?thesis by (auto simp: nxt' kmalloc_split_def Let_def)
  qed
  moreover have "set (pre @ ?new # post) \<union> hdrs (insert p L) = insert ?new ?B"
    by (auto simp: p)
  moreover have "set (pre @ ?new # post) \<inter> hdrs (insert p L) = {}"
    using notin disj parts by (auto simp: p)
  ultimately show "heap_inv s' (pre @ ?new # post) (insert p L)"
    using wf' by (simp add: heap_inv_def)
qed

section \<open>Correctness of the operations\<close>

lemma kmalloc_init_inv: "heap_inv (kmalloc_init s) [KERNEL_HEAP_VIRT_START] {}"
  by (simp add: heap_inv_def kmalloc_init_def heap_wf_def block_of_def heap_range_def c_const)

text \<open>The search over the whole free list: first fit, or nothing fits.\<close>

lemma kmalloc_first_fit:
  assumes "heap_inv s free L"
  obtains (none) "\<forall>x\<in>set free. \<not> fits s n x" and "kmalloc n s = Some (NULL, s)"
  | (found) pre x post where "free = pre @ x # post" and "\<forall>y\<in>set pre. \<not> fits s n y" and "fits s n x"
      and "kmalloc n s = Some (kmalloc_take n x (last (NULL # pre)) s)"
proof -
  let ?P = "\<lambda>x. \<not> fits s n x"
  from assms have path: "list_at (hdr_next \<circ> headers s) (KMALLOC_HEAD s) free"
    by (simp add: heap_inv_def)
  note search = kmalloc_loop_search [OF path, of n NULL, folded kmalloc_def]
  show thesis
  proof (cases "dropWhile ?P free")
    case Nil
    with search show thesis by (intro none) (simp_all only: list.case dropWhile_eq_Nil_conv)
  next
    case (Cons x post)
    then have "\<not> ?P x" by (metis hd_dropWhile list.distinct(1) list.sel(1))
    moreover have "free = takeWhile ?P free @ x # post"
      using takeWhile_dropWhile_id [of ?P free] Cons by simp
    ultimately show thesis
      using search Cons by (intro found [of "takeWhile ?P free" x post]) (auto dest: set_takeWhileD)
  qed
qed

lemma fits_not_exact:
  assumes "fits s n x" and "hdr_size (headers s x) \<noteq> n" and "unat n + 8 < 2 ^ 32"
  shows "unat n + 8 < unat (hdr_size (headers s x))"
proof -
  from assms have "n + 8 < hdr_size (headers s x)" by (simp add: fits_def c_const)
  moreover from assms(3) have "unat (n + 8) = unat n + 8" by (simp add: unat_simps)
  ultimately show ?thesis by (simp add: word_less_nat_alt)
qed

lemma heap_inv_live:
  assumes "heap_inv s free L" and "p \<in> L"
  shows "unat p = unat (p - sizeof_header) + 8" and "p \<noteq> NULL"
    and "payload s p \<subseteq> block_of (headers s) (p - sizeof_header)" and "payload s p \<subseteq> heap_range"
proof -
  let ?x = "p - sizeof_header"
  from assms have wf: "heap_wf (headers s) (set free \<union> hdrs L)" and x: "?x \<in> set free \<union> hdrs L"
    by (auto simp: heap_inv_def)
  have p: "p = ?x + 8" by (simp add: c_const)
  show up: "unat p = unat ?x + 8"
    using heap_wf_bounds [OF wf x] by (subst p) (simp add: unat_simps)
  then show "p \<noteq> NULL" by auto
  show sub: "payload s p \<subseteq> block_of (headers s) ?x"
    by (auto simp: payload_def block_of_def up)
  also have "\<dots> \<subseteq> heap_range" using wf x by (auto simp: heap_wf_def)
  finally show "payload s p \<subseteq> heap_range" .
qed

lemma heap_inv_disjoint:
  assumes inv: "heap_inv s free L" and "p \<in> L" and "q \<in> L" and "p \<noteq> q"
  shows "payload s p \<inter> payload s q = {}"
proof -
  from inv assms(2-4) have "block_of (headers s) (p - sizeof_header) \<inter> block_of (headers s) (q - sizeof_header) = {}"
    by (auto simp: heap_inv_def heap_wf_def)
  with heap_inv_live(3) [OF inv assms(2)] heap_inv_live(3) [OF inv assms(3)] show ?thesis by blast
qed

lemma kmalloc_found:
  assumes inv: "heap_inv s free L" and bound: "unat n + 8 < 2 ^ 32"
    and alloc: "kmalloc n s = Some (p, s')" and "p \<noteq> NULL"
  obtains free' where "heap_inv s' free' (insert p L)" and "p \<notin> L"
    and "hdr_size (headers s' (p - sizeof_header)) = n"
    and "\<And>q. q \<in> L \<Longrightarrow> hdr_size (headers s' (q - sizeof_header)) = hdr_size (headers s (q - sizeof_header))"
  using inv
proof (cases rule: kmalloc_first_fit [where n = n])
  case none
  with alloc \<open>p \<noteq> NULL\<close> show thesis by simp
next
  case (found pre x post)
  note inv' = inv [unfolded found(1)]
  have take: "kmalloc_take n x (last (NULL # pre)) s = (p, s')"
    using found(4) alloc by simp
  have notin: "x + sizeof_header \<notin> L"
    using inv' by (force simp: heap_inv_def)
  show thesis
  proof (cases "hdr_size (headers s x) = n")
    case True
    with take have "kmalloc_whole x (last (NULL # pre)) s = (p, s')" by (simp add: kmalloc_take_def)
    note whole = kmalloc_whole_inv [OF inv' this]
    show thesis by (rule that [OF whole(2)]) (use whole(1,3) True notin in auto)
  next
    case False
    with take have "kmalloc_split n x (last (NULL # pre)) s = (p, s')" by (simp add: kmalloc_take_def)
    note split = kmalloc_split_inv [OF inv' fits_not_exact [OF found(3) False bound] this]
    show thesis by (rule that [OF split(2)]) (use split(1,3,4) notin in auto)
  qed
qed

lemma kfree_inv:
  assumes inv: "heap_inv s free L" and p: "p \<in> L"
  shows "heap_inv (kfree p s) ((p - sizeof_header) # free) (L - {p})"
    and "hdr_size (headers (kfree p s) y) = hdr_size (headers s y)"
proof -
  let ?x = "p - sizeof_header"
  from inv have path: "list_at (hdr_next \<circ> headers s) (KMALLOC_HEAD s) free"
    and disj: "set free \<inter> hdrs L = {}" and wf: "heap_wf (headers s) (set free \<union> hdrs L)"
    by (simp_all add: heap_inv_def)
  show sizes: "hdr_size (headers (kfree p s) y) = hdr_size (headers s y)" for y
    by (simp add: kfree_def Let_def)
  from p have x: "?x \<in> hdrs L" by simp
  with heap_wf_bounds [OF wf] have "?x \<noteq> NULL" by force
  moreover from x disj have "?x \<notin> set free" by auto
  ultimately have "list_at (hdr_next \<circ> headers (kfree p s)) (KMALLOC_HEAD (kfree p s)) (?x # free)"
    using path by (simp add: kfree_def Let_def fun_upd_comp)
  moreover have "set (?x # free) \<union> hdrs (L - {p}) = set free \<union> hdrs L" using p by auto
  moreover have "set (?x # free) \<inter> hdrs (L - {p}) = {}" using disj by auto
  ultimately show "heap_inv (kfree p s) (?x # free) (L - {p})"
    using wf heap_wf_cong [of _ "headers (kfree p s)" "headers s"] sizes by (simp add: heap_inv_def)
qed

section \<open>The heap provides the allocator interface\<close>

definition kmalloc_size_ok :: "u32 \<Rightarrow> bool" where
  "kmalloc_size_ok n \<longleftrightarrow> unat n + 8 < 2 ^ 32"

lemma kmalloc_inv_alloc:
  assumes "kmalloc_inv s L" and "kmalloc_size_ok n" and "kmalloc n s = Some (p, s')" and "p \<noteq> NULL"
  shows "kmalloc_inv s' (insert p L)" and "p \<notin> L" and "payload s' p = {unat p ..< unat p + unat n}"
    and "q \<in> L \<Longrightarrow> payload s' q = payload s q"
proof -
  from assms obtain free where "heap_inv s free L" "unat n + 8 < 2 ^ 32"
    by (auto simp: kmalloc_inv_def kmalloc_size_ok_def)
  from kmalloc_found [OF this assms(3,4)]
  obtain free' where "heap_inv s' free' (insert p L)" "p \<notin> L" "hdr_size (headers s' (p - sizeof_header)) = n"
    "\<And>q. q \<in> L \<Longrightarrow> hdr_size (headers s' (q - sizeof_header)) = hdr_size (headers s (q - sizeof_header))"
    by blast
  then show "kmalloc_inv s' (insert p L)" "p \<notin> L" "payload s' p = {unat p ..< unat p + unat n}"
    "q \<in> L \<Longrightarrow> payload s' q = payload s q"
    by (auto simp: kmalloc_inv_def payload_def)
qed

lemma kmalloc_null:
  assumes "kmalloc_inv s L" and "kmalloc n s = Some (NULL, s')" shows "s' = s"
proof -
  from assms(1) obtain free where inv: "heap_inv s free L" by (auto simp: kmalloc_inv_def)
  then show ?thesis
  proof (cases rule: kmalloc_first_fit [where n = n])
    case none
    with assms(2) show ?thesis by simp
  next
    case (found pre x post)
    then have "x + sizeof_header = NULL"
      using assms(2) by (auto simp: kmalloc_take_def kmalloc_whole_def kmalloc_split_def Let_def split: if_splits)
    moreover have "unat (x + 8) = unat x + 8"
      using heap_wf_bounds [of "headers s" "set free \<union> hdrs L" x] inv found(1)
      by (simp add: heap_inv_def unat_simps)
    ultimately show ?thesis by (simp add: c_const)
  qed
qed

lemma kmalloc_returns:
  assumes "kmalloc_inv s L" shows "\<exists>p s'. kmalloc n s = Some (p, s')"
proof -
  from assms obtain free where "heap_inv s free L" by (auto simp: kmalloc_inv_def)
  then show ?thesis by (cases rule: kmalloc_first_fit [where n = n]) (metis surj_pair)+
qed

interpretation km: region_allocator kmalloc kfree kmalloc_inv payload kmalloc_size_ok
proof unfold_locales
  fix s :: "'a kmalloc_state_scheme" and L n p q s'
  show "\<exists>p s'. kmalloc n s = Some (p, s')" if "kmalloc_inv s L"
    using that by (rule kmalloc_returns)
  show "s' = s" if "kmalloc_inv s L" "kmalloc n s = Some (NULL, s')"
    using that by (rule kmalloc_null)
  show "kmalloc_inv (kfree p s) (L - {p})" if "kmalloc_inv s L" "p \<in> L"
    using that by (meson kfree_inv(1) kmalloc_inv_def)
  show "payload (kfree p s) q = payload s q"
    by (simp add: payload_def kfree_inv(2) kfree_def Let_def)
  show "payload s p \<inter> payload s q = {}" if "kmalloc_inv s L" "p \<in> L" "q \<in> L" "p \<noteq> q"
    using that by (meson heap_inv_disjoint kmalloc_inv_def)
  show "NULL \<notin> L" if "kmalloc_inv s L"
    using that by (meson heap_inv_live(2) kmalloc_inv_def)
qed (rule kmalloc_inv_alloc; assumption)+

section \<open>Runs of the allocator\<close>

text \<open>
  The states the heap can reach: initialised, then any sequence of \<open>kmalloc\<close> and \<open>kfree\<close> of live
  pointers. The second argument is the set of live pointers.
\<close>

inductive heap_reach :: "'a kmalloc_state_scheme \<Rightarrow> u32 set \<Rightarrow> bool" where
  init: "heap_reach (kmalloc_init s) {}"
| alloc: "heap_reach s L \<Longrightarrow> unat n + 8 < 2 ^ 32 \<Longrightarrow> kmalloc n s = Some (p, s') \<Longrightarrow>
     heap_reach s' (if p = NULL then L else insert p L)"
| release: "heap_reach s L \<Longrightarrow> p \<in> L \<Longrightarrow> heap_reach (kfree p s) (L - {p})"

lemma heap_reach_inv: "heap_reach s L \<Longrightarrow> kmalloc_inv s L"
proof (induction rule: heap_reach.induct)
  case (init s)
  show ?case using kmalloc_init_inv by (auto simp: kmalloc_inv_def)
next
  case (alloc s L n p s')
  then show ?case by (intro km.alloc_keeps_inv) (simp_all add: kmalloc_size_ok_def)
next
  case (release s L p)
  then show ?case by (intro km.release_inv)
qed

section \<open>Properties\<close>

definition empty_heap :: kmalloc_state where
  "empty_heap = \<lparr>headers = (\<lambda>_. \<lparr>hdr_size = 0, hdr_next = 0\<rparr>), KMALLOC_HEAD = 0\<rparr>"


lemma kmalloc_init_alloc:
  "kmalloc 12 (kmalloc_init empty_heap) = Some (0xE0000008,
     \<lparr>headers = (headers (kmalloc_init empty_heap))(
        0xE0000014 := \<lparr>hdr_size = 0x02FFFFE4, hdr_next = 0\<rparr>,
        0xE0000000 := \<lparr>hdr_size = 12, hdr_next = 0\<rparr>), KMALLOC_HEAD = 0xE0000014\<rparr>)"
  by (simp add: kmalloc_def kmalloc_loop.simps kmalloc_split_def kmalloc_init_def empty_heap_def c_const)




text \<open>C14. On a reachable heap \<open>kmalloc\<close> always returns, and it returns NULL exactly when no free
  block has the requested size or room for the request and another header.\<close>

theorem kmalloc_null_iff_nothing_fits:
  assumes "heap_reach s L" and "list_at (hdr_next \<circ> headers s) (KMALLOC_HEAD s) free"
  shows "\<exists>p s'. kmalloc n s = Some (p, s') \<and>
    (p = NULL \<longleftrightarrow> (\<forall>x\<in>set free. hdr_size (headers s x) \<noteq> n \<and> \<not> hdr_size (headers s x) > n + sizeof_header))"
proof -
  from heap_reach_inv [OF assms(1)] obtain free' where inv': "heap_inv s free' L"
    by (auto simp: kmalloc_inv_def)
  then have "free' = free"
    using assms(2) by (auto simp: heap_inv_def intro: list_at_unique)
  with inv' have inv: "heap_inv s free L" by simp
  obtain p s' where alloc: "kmalloc n s = Some (p, s')"
    using km.alloc_returns [OF heap_reach_inv [OF assms(1)]] by blast
  from inv have "p = NULL \<longleftrightarrow> (\<forall>x\<in>set free. \<not> fits s n x)"
  proof (cases rule: kmalloc_first_fit [where n = n])
    case (found pre x post)
    have "p \<noteq> NULL"
    proof
      assume "p = NULL"
      moreover have "unat (x + 8) = unat x + 8"
        using heap_wf_bounds [of "headers s" "set free \<union> hdrs L" x] inv found(1)
        by (simp add: heap_inv_def unat_simps)
      ultimately show False
        using alloc found(4)
        by (auto simp: kmalloc_take_def kmalloc_whole_def kmalloc_split_def Let_def c_const split: if_splits)
    qed
    with found show ?thesis by auto
  qed (use alloc in simp)
  with alloc show ?thesis by (auto simp: fits_def)
qed

theorem kmalloc_null_iff_nothing_fits_witness:
  "\<exists>p s'. kmalloc 12 (kmalloc_init empty_heap) = Some (p, s') \<and> p \<noteq> NULL"
  using kmalloc_null_iff_nothing_fits [OF heap_reach.init [of empty_heap], of "[KERNEL_HEAP_VIRT_START]" 12]
  by (simp add: kmalloc_init_def empty_heap_def c_const)

text \<open>C15. A block that was just freed is handed out again by the next request of the same size,
  and the free list is then what it was before the \<open>kfree\<close>.\<close>

theorem kfree_kmalloc_reuse:
  assumes "heap_reach s L" and "p \<in> L" and "n = hdr_size (headers s (p - sizeof_header))"
  shows "\<exists>s'. kmalloc n (kfree p s) = Some (p, s') \<and> KMALLOC_HEAD s' = KMALLOC_HEAD s \<and> kmalloc_inv s' L"
proof -
  have inv: "kmalloc_inv s L" by (rule heap_reach_inv [OF assms(1)])
  then obtain free where "heap_inv s free L" by (auto simp: kmalloc_inv_def)
  then have "p - sizeof_header \<noteq> NULL"
    using assms(2) heap_wf_bounds(1) [of "headers s" "set free \<union> hdrs L" "p - sizeof_header"]
    by (force simp: heap_inv_def)
  then have alloc: "\<exists>s'. kmalloc n (kfree p s) = Some (p, s') \<and> KMALLOC_HEAD s' = KMALLOC_HEAD s"
    using assms(3) by (simp add: kmalloc_def kmalloc_loop.simps kfree_def Let_def kmalloc_whole_def)
  moreover have "kmalloc_size_ok n"
    using heap_wf_bounds(2) [of "headers s" "set free \<union> hdrs L" "p - sizeof_header"] assms(2,3)
      \<open>heap_inv s free L\<close> by (simp add: heap_inv_def kmalloc_size_ok_def)
  moreover have "p \<noteq> NULL" using km.live_nonnull [OF inv] assms(2) by auto
  ultimately show ?thesis
    using km.alloc_inv [OF km.release_inv [OF inv assms(2)]] assms(2) by (metis insert_Diff)
qed

theorem kfree_kmalloc_reuse_witness:
  "\<exists>s t :: kmalloc_state. kmalloc 12 (kfree 0xE0000008 s) = Some (0xE0000008, t)"
proof -
  let ?s = "snd (the (kmalloc 12 (kmalloc_init empty_heap)))"
  have "heap_reach ?s {0xE0000008}"
    using heap_reach.alloc [OF heap_reach.init _ kmalloc_init_alloc] by (simp add: kmalloc_init_alloc)
  from kfree_kmalloc_reuse [OF this, of "0xE0000008" 12] show ?thesis
    by (auto simp: kmalloc_init_alloc c_const)
qed


end
