(* ===== verification/Frame_Spec.thy ===== *)
theory Frame_Spec
  imports Kernel_Prelude
begin

text \<open>
  What the paging code and the loader rely on when they take physical page frames: an allocator
  that hands out a frame that was not in use and marks it as used. Callers take several frames
  in a row (a kernel stack, the pages of a segment); the lemmas below say that those are
  pairwise different and were all free before.
\<close>

text \<open>Take \<open>n\<close> frames one after the other.\<close>

primrec take_frames :: "('s \<Rightarrow> (u32 \<times> 's) comp) \<Rightarrow> nat \<Rightarrow> 's \<Rightarrow> (u32 list \<times> 's) comp" where
  "take_frames alloc 0 s = ret ([], s)"
| "take_frames alloc (Suc n) s =
     bindK (alloc s) (\<lambda>(f, s1). bindK (take_frames alloc n s1) (\<lambda>(fs, s2). ret (f # fs, s2)))"

locale frame_allocator =
  fixes alloc :: "'s \<Rightarrow> (u32 \<times> 's) comp"
    and used :: "'s \<Rightarrow> nat set"
    and frame_no :: "u32 \<Rightarrow> nat"
    and total :: nat
  assumes alloc_ok: "\<exists>n < total. n \<notin> used s \<Longrightarrow> \<exists>f s'. alloc s = ret (f, s')"
    and alloc_was_free: "\<exists>n < total. n \<notin> used s \<Longrightarrow> alloc s = ret (f, s') \<Longrightarrow> frame_no f \<notin> used s"
    and alloc_now_used: "\<exists>n < total. n \<notin> used s \<Longrightarrow> alloc s = ret (f, s') \<Longrightarrow> used s' = insert (frame_no f) (used s)"
    and alloc_in_range: "\<exists>n < total. n \<notin> used s \<Longrightarrow> alloc s = ret (f, s') \<Longrightarrow> frame_no f < total"
begin

lemma free_left:
  assumes "k < card ({..<total} - used s)" shows "\<exists>n < total. n \<notin> used s"
proof (rule ccontr)
  assume "\<not> ?thesis"
  then have "{..<total} - used s = {}" by auto
  with assms show False by simp
qed

lemma free_count_step:
  assumes "\<exists>n < total. n \<notin> used s" and "alloc s = ret (f, s')"
  shows "card ({..<total} - used s') + 1 = card ({..<total} - used s)"
proof -
  have "{..<total} - used s = insert (frame_no f) ({..<total} - used s')"
    using alloc_was_free [OF assms] alloc_in_range [OF assms] alloc_now_used [OF assms] by auto
  moreover have "frame_no f \<notin> {..<total} - used s'" using alloc_now_used [OF assms] by auto
  ultimately show ?thesis by simp
qed

lemma take_frames_ok:
  assumes "n \<le> card ({..<total} - used s)"
  shows "\<exists>fs s'. take_frames alloc n s = ret (fs, s') \<and> length fs = n \<and>
     distinct (map frame_no fs) \<and> set (map frame_no fs) \<inter> used s = {} \<and>
     used s' = used s \<union> set (map frame_no fs)"
  using assms
proof (induction n arbitrary: s)
  case 0
  then show ?case by simp
next
  case (Suc n)
  then have free: "\<exists>n < total. n \<notin> used s" by (intro free_left [of n]) simp
  then obtain f s1 where f: "alloc s = ret (f, s1)" using alloc_ok by blast
  from free_count_step [OF free f] Suc.prems have "n \<le> card ({..<total} - used s1)" by simp
  from Suc.IH [OF this] obtain fs s2 where fs: "take_frames alloc n s1 = ret (fs, s2)" "length fs = n"
    "distinct (map frame_no fs)" "set (map frame_no fs) \<inter> used s1 = {}"
    "used s2 = used s1 \<union> set (map frame_no fs)" by blast
  with f alloc_now_used [OF free f] alloc_was_free [OF free f] show ?case by auto
qed

end

end
