(* ===== verification/Pmm.thy ===== *)
theory Pmm
  imports Frame_Spec
begin

text \<open>
  The physical memory manager, \<^verbatim>\<open>src/kernel/arch/i386/mm/pmm.c\<close>: a bitmap with one bit per
  4 KB page frame. \<open>frames_used\<close> abstracts the bitmap to the set of frames in use; the lemmas
  say what each operation does to that set.
\<close>

section \<open>Data and operations\<close>

definition PAGE_SIZE :: u32 where [c_const]: "PAGE_SIZE = 4096"
definition MEM_BITMAP_SIZE :: u32 where [c_const]: "MEM_BITMAP_SIZE = 0x100000"
definition BITMAP_ENTRY_MASK :: u8 where [c_const]: "BITMAP_ENTRY_MASK = 0xff"

record pmm_state =
  MEM_BITMAP :: "u32 \<Rightarrow> u8"

definition pmm_mark_addr_used :: "u32 \<Rightarrow> pmm_state \<Rightarrow> pmm_state" where
  "pmm_mark_addr_used addr s =
     (let bitmap_bit = addr div PAGE_SIZE; bitmap_index = bitmap_bit div 8
      in s\<lparr>MEM_BITMAP := (MEM_BITMAP s)(bitmap_index :=
             MEM_BITMAP s bitmap_index OR push_bit (unat (bitmap_bit mod 8)) 1)\<rparr>)"

text \<open>The counter advances by a page and may wrap around, so the loop need not end.\<close>

partial_function (option) pmm_mark_range_used :: "u32 \<Rightarrow> u32 \<Rightarrow> pmm_state \<Rightarrow> pmm_state option" where [code]:
  "pmm_mark_range_used i end_addr s =
     (if i < end_addr then pmm_mark_range_used (i + PAGE_SIZE) end_addr (pmm_mark_addr_used i s)
      else Some s)"

text \<open>
  \<^verbatim>\<open>1 << bitmap_bit\<close> is a 32-bit shift; the i386 shift instruction takes the count modulo 32.
\<close>

definition pmm_mark_addr_free :: "u32 \<Rightarrow> pmm_state \<Rightarrow> pmm_state" where
  "pmm_mark_addr_free addr s =
     (let bitmap_bit = addr div PAGE_SIZE; bitmap_index = bitmap_bit div 8
      in s\<lparr>MEM_BITMAP := (MEM_BITMAP s)(bitmap_index :=
             MEM_BITMAP s bitmap_index AND
             ucast (NOT (push_bit (unat (bitmap_bit mod 32)) (1 :: u32))))\<rparr>)"

text \<open>The inner loop: shift right until the lowest bit is clear, counting the shifts.\<close>

lemma drop_bit_less:
  assumes "(entry :: u8) AND 1 \<noteq> 0" shows "unat (drop_bit (Suc 0) entry) < unat entry"
proof -
  from assms have "0 < unat entry" by (auto simp: unat_gt_0)
  moreover have "unat (drop_bit (Suc 0) entry) = unat entry div 2"
    by (simp only: unat_drop_bit_eq) (simp add: drop_bit_eq_div)
  ultimately show ?thesis by simp
qed

function alloc_bit_loop :: "u8 \<Rightarrow> u32 \<Rightarrow> u32" where
  "alloc_bit_loop entry alloc_bit =
     (if entry AND 1 \<noteq> 0 then alloc_bit_loop (drop_bit 1 entry) (alloc_bit + 1) else alloc_bit)"
  by pat_completeness auto
termination
  by (relation "measure (\<lambda>(entry, alloc_bit). unat entry)") (simp_all add: drop_bit_less)

declare alloc_bit_loop.simps [simp del]

function pmm_alloc_loop :: "u32 \<Rightarrow> pmm_state \<Rightarrow> (u32 \<times> pmm_state) comp" where
  "pmm_alloc_loop i s =
     (if i < MEM_BITMAP_SIZE
      then if MEM_BITMAP s i \<noteq> BITMAP_ENTRY_MASK
           then let alloc_bit = alloc_bit_loop (MEM_BITMAP s i) 0
                in ret ((i * 8 + alloc_bit) * PAGE_SIZE,
                        s\<lparr>MEM_BITMAP := (MEM_BITMAP s)(i := MEM_BITMAP s i OR push_bit (unat alloc_bit) 1)\<rparr>)
           else pmm_alloc_loop (i + 1) s
      else fail (Panic ''out of memory''))"
  by pat_completeness auto
termination
  by (relation "measure (\<lambda>(i, s). unat MEM_BITMAP_SIZE - unat i)")
    (auto simp: unat_Suc_less word_less_nat_alt diff_less_mono2)

declare pmm_alloc_loop.simps [simp del]

definition pmm_alloc_page :: "pmm_state \<Rightarrow> (u32 \<times> pmm_state) comp" where
  "pmm_alloc_page s = pmm_alloc_loop 0 s"

definition pmm_free_page :: "u32 \<Rightarrow> pmm_state \<Rightarrow> pmm_state" where
  "pmm_free_page addr s = pmm_mark_addr_free addr s"

section \<open>The set of frames in use\<close>

definition frame_bit :: "(u32 \<Rightarrow> u8) \<Rightarrow> nat \<Rightarrow> bool" where
  "frame_bit b n \<longleftrightarrow> bit (b (of_nat (n div 8))) (n mod 8)"

definition frames_used :: "pmm_state \<Rightarrow> nat set" where
  "frames_used s = {n. n < 2 ^ 20 \<and> frame_bit (MEM_BITMAP s) n}"

definition frame_of :: "u32 \<Rightarrow> nat" where
  "frame_of addr = unat (addr div PAGE_SIZE)"

lemma frame_of_div: "frame_of addr = unat addr div 4096"
  by (simp add: frame_of_def c_const unat_div)

lemma frame_of_less: "frame_of addr < 2 ^ 20"
  using unat_u32_less [of addr] by (simp add: frame_of_div less_mult_imp_div_less)

lemma index_eq_iff:
  assumes "n < 2 ^ 20"
  shows "of_nat (n div 8) = (addr div PAGE_SIZE) div 8 \<longleftrightarrow> n div 8 = frame_of addr div 8"
proof -
  have "unat (of_nat (n div 8) :: u32) = n div 8" using assms by (simp add: unat_of_nat)
  moreover have "unat ((addr div PAGE_SIZE) div 8) = frame_of addr div 8"
    by (simp add: frame_of_def unat_div)
  ultimately show ?thesis by (metis word_unat_eq_iff)
qed

lemma bit_pow2_u8: "k < 8 \<Longrightarrow> bit ((2 :: u8) ^ k) j \<longleftrightarrow> j = k"
  by (auto simp: bit_simps)

lemma frame_bit_mark_used:
  assumes "n < 2 ^ 20"
  shows "frame_bit (MEM_BITMAP (pmm_mark_addr_used addr s)) n \<longleftrightarrow>
    n = frame_of addr \<or> frame_bit (MEM_BITMAP s) n"
proof -
  have m: "unat (addr div PAGE_SIZE mod 8) = frame_of addr mod 8"
    by (simp add: frame_of_def unat_mod)
  have "n = frame_of addr \<longleftrightarrow> n div 8 = frame_of addr div 8 \<and> n mod 8 = frame_of addr mod 8"
    by (metis mult_div_mod_eq)
  then show ?thesis
    using index_eq_iff [OF assms, of addr]
    by (auto simp: frame_bit_def pmm_mark_addr_used_def Let_def m bit_or_iff bit_pow2_u8)
qed

lemma frames_used_mark: "frames_used (pmm_mark_addr_used addr s) = insert (frame_of addr) (frames_used s)"
  using frame_of_less frame_bit_mark_used by (auto simp: frames_used_def)

section \<open>Marking ranges\<close>

text \<open>While the end of the range is at least a page below 4 GB, the loop ends and marks the
  frames of \<open>i\<close>, \<open>i + 4096\<close>, ... below the end.\<close>

definition range_frames :: "u32 \<Rightarrow> u32 \<Rightarrow> nat set" where
  "range_frames i end_addr = {(unat i + k * 4096) div 4096 | k. unat i + k * 4096 < unat end_addr}"

lemma range_frames_step:
  assumes "i < e" and "unat e \<le> 2 ^ 32 - 4096"
  shows "range_frames i e = insert (frame_of i) (range_frames (i + PAGE_SIZE) e)"
    and "unat (i + PAGE_SIZE) = unat i + 4096"
proof -
  show u: "unat (i + PAGE_SIZE) = unat i + 4096"
    using assms by (simp add: c_const unat_simps word_less_nat_alt)
  have "(\<exists>k. n = (unat i + k * 4096) div 4096 \<and> unat i + k * 4096 < unat e) \<longleftrightarrow>
      n = unat i div 4096 \<or> (\<exists>k. n = (unat i + 4096 + k * 4096) div 4096 \<and> unat i + 4096 + k * 4096 < unat e)"
    (is "(\<exists>k. ?P k) \<longleftrightarrow> ?Q \<or> (\<exists>k. ?R k)") for n
  proof
    assume "\<exists>k. ?P k"
    then obtain k where k: "?P k" by blast
    show "?Q \<or> (\<exists>k. ?R k)"
    proof (cases k)
      case 0
      with k show ?thesis by simp
    next
      case (Suc j)
      with k have "?R j" by (simp add: algebra_simps)
      then show ?thesis by blast
    qed
  next
    assume "?Q \<or> (\<exists>k. ?R k)"
    then show "\<exists>k. ?P k"
    proof
      assume ?Q
      with assms(1) have "?P 0" by (simp add: word_less_nat_alt)
      then show ?thesis by blast
    next
      assume "\<exists>k. ?R k"
      then obtain k where "?R k" by blast
      then have "?P (Suc k)" by (simp add: algebra_simps)
      then show ?thesis by blast
    qed
  qed
  then show "range_frames i e = insert (frame_of i) (range_frames (i + PAGE_SIZE) e)"
    unfolding range_frames_def u frame_of_div by blast
qed

lemma pmm_mark_range_used_frames:
  assumes "unat e \<le> 2 ^ 32 - 4096"
  shows "\<exists>s'. pmm_mark_range_used i e s = Some s' \<and> frames_used s' = frames_used s \<union> range_frames i e"
  using assms
proof (induction "unat e - unat i" arbitrary: i s rule: less_induct)
  case less
  show ?case
  proof (cases "i < e")
    case True
    note step = range_frames_step [OF True less.prems]
    from True step(2) have "unat e - unat (i + PAGE_SIZE) < unat e - unat i"
      by (simp add: word_less_nat_alt)
    from less.hyps [OF this less.prems, of "pmm_mark_addr_used i s"] True step(1)
    show ?thesis by (subst pmm_mark_range_used.simps) (auto simp: frames_used_mark)
  next
    case False
    then have "range_frames i e = {}" by (auto simp: range_frames_def word_less_nat_alt)
    with False show ?thesis by (subst pmm_mark_range_used.simps) simp
  qed
qed

text \<open>Where the end is in the last page, the counter wraps around below it for ever.\<close>

lemma aligned_step: "4096 dvd unat i \<Longrightarrow> 4096 dvd unat (i + PAGE_SIZE)"
  by (simp add: c_const unat_word_ariths dvd_mod)

lemma pmm_mark_range_used_diverges:
  assumes "4096 dvd unat i" and "unat e > 0xFFFFF000"
  shows "pmm_mark_range_used i e s = None"
proof (rule ccontr)
  assume "pmm_mark_range_used i e s \<noteq> None"
  then obtain r where r: "pmm_mark_range_used i e s = Some r" by blast
  have "\<not> (4096 dvd unat i \<and> unat e > 0xFFFFF000)"
  proof (rule pmm_mark_range_used.raw_induct [where P = "\<lambda>i e s r. \<not> (4096 dvd unat i \<and> unat e > 0xFFFFF000)", OF _ r])
    fix f i e s r
    assume IH: "\<And>i e s r. f i e s = Some r \<Longrightarrow> \<not> (4096 dvd unat (i :: u32) \<and> unat (e :: u32) > 0xFFFFF000)"
      and eq: "(if i < e then f (i + PAGE_SIZE) e (pmm_mark_addr_used i s) else Some s) = Some r"
    show "\<not> (4096 dvd unat i \<and> unat e > 0xFFFFF000)"
    proof
      assume a: "4096 dvd unat i \<and> unat e > 0xFFFFF000"
      then obtain k where k: "unat i = 4096 * k" by blast
      with unat_u32_less [of i] have "k \<le> 0xFFFFF" by simp
      with k have "unat i \<le> 0xFFFFF000" by simp
      with a have "i < e" by (simp add: word_less_nat_alt)
      with eq IH [of "i + PAGE_SIZE" e] a aligned_step [of i] show False by auto
    qed
  qed
  with assms show False by simp
qed

section \<open>Allocating a frame\<close>

lemma low_bit_iff: "(entry :: u8) AND 1 \<noteq> 0 \<longleftrightarrow> bit entry 0"
  by (simp add: bit_0 and_one_eq odd_iff_mod_2_eq_one)

lemma alloc_bit_loop_first_clear:
  assumes "\<forall>j<k. bit entry j" and "\<not> bit entry k"
  shows "alloc_bit_loop entry a = a + of_nat k"
  using assms
proof (induction k arbitrary: entry a)
  case 0
  then show ?case by (subst alloc_bit_loop.simps) (simp add: low_bit_iff [symmetric])
next
  case (Suc k)
  have "\<forall>j<k. bit (drop_bit 1 entry) j" "\<not> bit (drop_bit 1 entry) k"
    using Suc.prems by (auto simp: bit_drop_bit_eq)
  from Suc.IH [OF this, of "a + 1"] have "alloc_bit_loop (drop_bit 1 entry) (a + 1) = a + of_nat (Suc k)"
    by (simp add: algebra_simps)
  moreover have "entry AND 1 \<noteq> 0" using Suc.prems(1) by (simp only: low_bit_iff)
  ultimately show ?case by (subst alloc_bit_loop.simps) simp
qed

lemma bit_entry_mask: "bit BITMAP_ENTRY_MASK j \<longleftrightarrow> j < 8"
proof -
  have "BITMAP_ENTRY_MASK = mask 8" by (simp add: c_const mask_eq_exp_minus_1)
  show ?thesis unfolding \<open>BITMAP_ENTRY_MASK = mask 8\<close> by (rule bit_mask_iff [THEN trans]) auto
qed

lemma entry_has_clear_bit:
  assumes "entry \<noteq> BITMAP_ENTRY_MASK"
  obtains k where "k < 8" and "\<not> bit entry k" and "\<forall>j<k. bit entry j"
proof -
  have "\<exists>k<8. \<not> bit entry k"
  proof (rule ccontr)
    assume all: "\<not> (\<exists>k<8. \<not> bit entry k)"
    have "entry = BITMAP_ENTRY_MASK"
    proof (rule bit_word_eqI)
      fix n assume n: "n < LENGTH(8)"
      with all show "bit entry n = bit BITMAP_ENTRY_MASK n" by (auto simp: bit_entry_mask)
    qed
    with assms show False by simp
  qed
  then have ex: "\<exists>k. \<not> bit entry k" by blast
  let ?k = "LEAST k. \<not> bit entry k"
  have "\<not> bit entry ?k" using ex by (rule LeastI_ex)
  moreover have "\<forall>j<?k. bit entry j" using not_less_Least by blast
  moreover have "?k < 8" using \<open>\<exists>k<8. \<not> bit entry k\<close> by (meson Least_le le_less_trans)
  ultimately show thesis using that by blast
qed

text \<open>The outer loop stops at the first entry that is not full.\<close>

lemma pmm_alloc_loop_first:
  assumes "m < 2 ^ 20" and "\<forall>j<m. MEM_BITMAP s (of_nat j) = BITMAP_ENTRY_MASK"
    and "MEM_BITMAP s (of_nat m) \<noteq> BITMAP_ENTRY_MASK" and "unat i \<le> m"
  shows "pmm_alloc_loop i s = pmm_alloc_loop (of_nat m) s"
  using assms(4)
proof (induction "m - unat i" arbitrary: i)
  case 0
  then have "unat i = m" by simp
  then have "i = of_nat m" by auto
  then show ?case by simp
next
  case (Suc d)
  then have lt: "unat i < m" by linarith
  then have "MEM_BITMAP s i = BITMAP_ENTRY_MASK" using assms(2) [rule_format, of "unat i"] by simp
  moreover have il: "i < MEM_BITMAP_SIZE" using lt assms(1) by (simp add: c_const word_less_nat_alt)
  ultimately have "pmm_alloc_loop i s = pmm_alloc_loop (i + 1) s"
    by (subst pmm_alloc_loop.simps) simp
  also have "\<dots> = pmm_alloc_loop (of_nat m) s"
    using Suc.hyps lt unat_Suc_less [OF il] by (intro Suc.hyps(1)) auto
  finally show ?case .
qed

lemma pmm_alloc_page_entry:
  assumes "m < 2 ^ 20" and "\<forall>j<m. MEM_BITMAP s (of_nat j) = BITMAP_ENTRY_MASK"
    and "MEM_BITMAP s (of_nat m) \<noteq> BITMAP_ENTRY_MASK"
    and "\<forall>j<k. bit (MEM_BITMAP s (of_nat m)) j" and "\<not> bit (MEM_BITMAP s (of_nat m)) k"
  shows "pmm_alloc_page s = ret ((of_nat m * 8 + of_nat k) * PAGE_SIZE,
    s\<lparr>MEM_BITMAP := (MEM_BITMAP s)(of_nat m := MEM_BITMAP s (of_nat m) OR push_bit (unat (of_nat k :: u32)) 1)\<rparr>)"
proof -
  have "pmm_alloc_page s = pmm_alloc_loop (of_nat m) s"
    unfolding pmm_alloc_page_def using assms(1-3) by (intro pmm_alloc_loop_first) auto
  moreover have "(of_nat m :: u32) < MEM_BITMAP_SIZE"
    using assms(1) by (simp add: c_const word_less_nat_alt unat_of_nat)
  ultimately show ?thesis
    using assms(3) alloc_bit_loop_first_clear [OF assms(4,5), of 0]
    by (subst (asm) pmm_alloc_loop.simps) (simp add: Let_def)
qed

lemma octet_less:
  assumes "(j :: nat) < m * 8 + k" and "k < 8"
  shows "j div 8 < m \<or> j div 8 = m \<and> j mod 8 < k"
  using assms by presburger

lemma pmm_alloc_page_least:
  assumes "\<exists>n < 2 ^ 20. n \<notin> frames_used s"
  obtains f where "f < 2 ^ 20" and "f \<notin> frames_used s" and "\<forall>n<f. n \<in> frames_used s"
    and "frame_of (of_nat (f * 4096)) = f"
    and "pmm_alloc_page s = ret (of_nat (f * 4096), pmm_mark_addr_used (of_nat (f * 4096)) s)"
proof -
  let ?b = "\<lambda>j. MEM_BITMAP s (of_nat j)"
  from assms obtain n where n: "n < 2 ^ 20" "\<not> bit (?b (n div 8)) (n mod 8)"
    by (auto simp: frames_used_def frame_bit_def)
  have full: "bit BITMAP_ENTRY_MASK (j mod 8)" for j by (simp add: bit_entry_mask)
  let ?m = "LEAST j. ?b j \<noteq> BITMAP_ENTRY_MASK"
  have ex: "?b (n div 8) \<noteq> BITMAP_ENTRY_MASK" using n full by metis
  then have m: "?b ?m \<noteq> BITMAP_ENTRY_MASK" by (rule LeastI)
  have mle: "?m \<le> n div 8" using ex by (rule Least_le)
  have below: "\<forall>j<?m. ?b j = BITMAP_ENTRY_MASK" using not_less_Least by blast
  from m obtain k where k: "k < 8" "\<not> bit (?b ?m) k" "\<forall>j<k. bit (?b ?m) j"
    by (rule entry_has_clear_bit)
  define f where "f = ?m * 8 + k"
  have m17: "?m < 2 ^ 17" using mle n(1) by simp
  then have f20: "f < 2 ^ 20" using k(1) by (simp add: f_def)
  have fdiv: "f div 8 = ?m" "f mod 8 = k" using k(1) by (simp_all add: f_def)
  have fr: "frame_of (of_nat (f * 4096)) = f"
    using f20 by (simp add: frame_of_div unat_of_nat del: of_nat_mult)
  have "f \<notin> frames_used s" using k(2) by (simp add: frames_used_def frame_bit_def fdiv)
  moreover have "\<forall>n<f. n \<in> frames_used s"
  proof (intro allI impI)
    fix j assume j: "j < f"
    then consider "j div 8 < ?m" | "j div 8 = ?m" "j mod 8 < k"
      using octet_less [of j ?m k] k(1) by (auto simp: f_def)
    then have "bit (?b (j div 8)) (j mod 8)"
      by cases (use below k(3) full in auto)
    with j f20 show "j \<in> frames_used s" by (simp add: frames_used_def frame_bit_def)
  qed
  moreover have "pmm_alloc_page s = ret (of_nat (f * 4096), pmm_mark_addr_used (of_nat (f * 4096)) s)"
  proof -
    let ?addr = "of_nat (f * 4096) :: u32"
    have "?addr = (of_nat ?m * 8 + of_nat k) * PAGE_SIZE" by (simp add: f_def c_const)
    moreover have "?addr div PAGE_SIZE div 8 = of_nat ?m"
      using fr m17 by (intro u32_eqI) (simp add: unat_div unat_of_nat frame_of_def fdiv)
    moreover have "unat (?addr div PAGE_SIZE mod 8) = k"
      using fr by (simp add: unat_mod frame_of_def fdiv)
    moreover have "unat (of_nat k :: u32) = k" using k(1) by (simp add: unat_of_nat)
    ultimately show ?thesis
      using pmm_alloc_page_entry [of ?m s k] m below k m17
      by (simp add: pmm_mark_addr_used_def Let_def)
  qed
  ultimately show thesis using that [of f] f20 fr by blast
qed

interpretation pmm: frame_allocator pmm_alloc_page frames_used frame_of "2 ^ 20"
proof unfold_locales
  fix s f s'
  assume free: "\<exists>n < 2 ^ 20. n \<notin> frames_used s"
  then obtain g where g: "g < 2 ^ 20" "g \<notin> frames_used s" "frame_of (of_nat (g * 4096)) = g"
    "pmm_alloc_page s = ret (of_nat (g * 4096), pmm_mark_addr_used (of_nat (g * 4096)) s)"
    by (rule pmm_alloc_page_least)
  show "\<exists>f s'. pmm_alloc_page s = ret (f, s')" using g(4) by blast
  assume "pmm_alloc_page s = ret (f, s')"
  with g(4) have f: "f = of_nat (g * 4096)" "s' = pmm_mark_addr_used f s" by simp_all
  show "frame_of f \<notin> frames_used s" "frame_of f < 2 ^ 20" using g(1-3) f(1) by simp_all
  show "frames_used s' = insert (frame_of f) (frames_used s)" by (simp add: f(2) frames_used_mark)
qed

section \<open>Freeing a frame\<close>

lemma frame_bit_mark_free:
  assumes "n < 2 ^ 20"
  shows "frame_bit (MEM_BITMAP (pmm_mark_addr_free addr s)) n \<longleftrightarrow>
    frame_bit (MEM_BITMAP s) n \<and> \<not> (n = frame_of addr \<and> frame_of addr mod 32 < 8)"
proof -
  let ?f = "frame_of addr"
  have m: "unat (addr div PAGE_SIZE mod 32) = ?f mod 32" by (simp add: frame_of_def unat_mod)
  have mask: "bit (ucast (NOT ((2 :: u32) ^ (?f mod 32))) :: u8) j \<longleftrightarrow> j < 8 \<and> j \<noteq> ?f mod 32" for j
    by (auto simp: bit_simps)
  have "?f mod 32 mod 8 = ?f mod 8" by (rule mod_mod_cancel) simp
  then have low: "?f mod 32 < 8 \<Longrightarrow> ?f mod 32 = ?f mod 8" by simp
  have "n div 8 = ?f div 8 \<and> n mod 8 = ?f mod 32 \<longleftrightarrow> n = ?f \<and> ?f mod 32 < 8"
  proof
    assume a: "n div 8 = ?f div 8 \<and> n mod 8 = ?f mod 32"
    then have "?f mod 32 < 8" by (metis mod_less_divisor zero_less_numeral)
    with a low show "n = ?f \<and> ?f mod 32 < 8" by (metis mult_div_mod_eq)
  qed (use low in auto)
  then show ?thesis
    using index_eq_iff [OF assms, of addr]
    by (auto simp: frame_bit_def pmm_mark_addr_free_def Let_def m bit_and_iff mask)
qed

lemma frames_used_free:
  "frames_used (pmm_free_page addr s) =
     (if frame_of addr mod 32 < 8 then frames_used s - {frame_of addr} else frames_used s)"
  using frame_bit_mark_free by (auto simp: frames_used_def pmm_free_page_def)

section \<open>Properties\<close>

definition empty_bitmap :: pmm_state where
  "empty_bitmap = \<lparr>MEM_BITMAP = (\<lambda>_. 0)\<rparr>"

lemma frames_used_empty_bitmap: "frames_used empty_bitmap = {}"
  by (simp add: frames_used_def frame_bit_def empty_bitmap_def)

text \<open>C17. While a frame is free, \<open>pmm_alloc_page\<close> returns the page address of the lowest free
  frame and marks exactly that frame as used.\<close>

theorem pmm_alloc_page_lowest:
  assumes "\<exists>n < 2 ^ 20. n \<notin> frames_used s"
  shows "\<exists>f s'. pmm_alloc_page s = ret (of_nat (f * 4096), s') \<and> f < 2 ^ 20 \<and> f \<notin> frames_used s \<and>
    (\<forall>n<f. n \<in> frames_used s) \<and> frames_used s' = insert f (frames_used s)"
  by (rule pmm_alloc_page_least [OF assms]) (metis frames_used_mark)

theorem pmm_alloc_page_lowest_witness:
  "\<exists>s'. pmm_alloc_page empty_bitmap = ret (0, s') \<and> frames_used s' = {0}"
proof -
  have "\<exists>n < 2 ^ 20. n \<notin> frames_used empty_bitmap" by (intro exI [of _ 0]) (simp add: frames_used_empty_bitmap)
  from pmm_alloc_page_lowest [OF this] obtain f s' where
    "pmm_alloc_page empty_bitmap = ret (of_nat (f * 4096), s')" "\<forall>n<f. n \<in> frames_used empty_bitmap"
    "frames_used s' = insert f (frames_used empty_bitmap)" by blast
  then show ?thesis by (cases f) (auto simp: frames_used_empty_bitmap)
qed

text \<open>C18. As long as enough frames are free, \<open>n\<close> calls of \<open>pmm_alloc_page\<close> all succeed and give
  \<open>n\<close> different frames, none of which was in use; no other frame changes.\<close>

theorem pmm_alloc_pages_distinct:
  assumes "n \<le> card ({..<2 ^ 20} - frames_used s)"
  shows "\<exists>fs s'. take_frames pmm_alloc_page n s = ret (fs, s') \<and> length fs = n \<and>
    distinct (map frame_of fs) \<and> set (map frame_of fs) \<inter> frames_used s = {} \<and>
    frames_used s' = frames_used s \<union> set (map frame_of fs)"
  using assms by (rule pmm.take_frames_ok)

theorem pmm_alloc_pages_distinct_witness:
  "\<exists>fs s'. take_frames pmm_alloc_page 10 empty_bitmap = ret (fs, s') \<and> distinct (map frame_of fs)"
  using pmm_alloc_pages_distinct [of 10 empty_bitmap] by (auto simp: frames_used_empty_bitmap)

text \<open>Marking a page-aligned range that ends at least a page below 4 GB terminates and marks
  exactly the frames the range intersects.\<close>

theorem pmm_mark_range_used_exact:
  assumes "4096 dvd unat a" and "unat e \<le> 2 ^ 32 - 4096"
  shows "\<exists>s'. pmm_mark_range_used a e s = Some s' \<and>
    frames_used s' = frames_used s \<union> {n. \<exists>b. unat a \<le> b \<and> b < unat e \<and> n = b div 4096}"
proof -
  have "range_frames a e = {n. \<exists>b. unat a \<le> b \<and> b < unat e \<and> n = b div 4096}"
  proof (intro equalityI subsetI)
    fix n assume "n \<in> range_frames a e"
    then show "n \<in> {n. \<exists>b. unat a \<le> b \<and> b < unat e \<and> n = b div 4096}"
      by (auto simp: range_frames_def intro: le_add1)
  next
    fix n assume "n \<in> {n. \<exists>b. unat a \<le> b \<and> b < unat e \<and> n = b div 4096}"
    then obtain b where b: "unat a \<le> b" "b < unat e" "n = b div 4096" by blast
    from assms(1) obtain q where q: "unat a = 4096 * q" by blast
    with b have le: "q \<le> b div 4096" by (simp add: less_eq_div_iff_mult_less_eq mult.commute)
    let ?k = "b div 4096 - q"
    have eq: "unat a + ?k * 4096 = b div 4096 * 4096" using q le by (simp add: algebra_simps)
    have "b div 4096 * 4096 \<le> b" by (rule div_times_less_eq_dividend)
    with b(2,3) eq have "n = (unat a + ?k * 4096) div 4096 \<and> unat a + ?k * 4096 < unat e" by simp
    then show "n \<in> range_frames a e" by (auto simp: range_frames_def)
  qed
  with pmm_mark_range_used_frames [OF assms(2), of a s] show ?thesis by simp
qed

theorem pmm_mark_range_used_exact_witness:
  "\<exists>s'. pmm_mark_range_used 0x1000 0x2001 empty_bitmap = Some s' \<and> 2 \<in> frames_used s'"
proof -
  have "\<exists>b. 4096 \<le> b \<and> b < 8193 \<and> (2 :: nat) = b div 4096" by (rule exI [of _ 8192]) simp
  with pmm_mark_range_used_exact [of "0x1000" "0x2001" empty_bitmap] show ?thesis by auto
qed

text \<open>Where the range ends inside the last page of the address space the counter wraps around
  and the loop never ends; where the 32-bit end has itself wrapped to zero nothing is marked.\<close>

theorem pmm_mark_range_used_wrap:
  "(4096 dvd unat a \<and> unat e > 0xFFFFF000 \<longrightarrow> pmm_mark_range_used a e s = None) \<and>
   pmm_mark_range_used a 0 s = Some s"
  using pmm_mark_range_used_diverges by (simp add: pmm_mark_range_used.simps)

theorem pmm_mark_range_used_wrap_witness:
  "pmm_mark_range_used 0xFFFC0000 0xFFFFFFFF empty_bitmap = None"
  using pmm_mark_range_used_wrap [of "0xFFFC0000" "0xFFFFFFFF" empty_bitmap] by simp

text \<open>\<open>pmm_free_page\<close> shifts by the frame number instead of the number modulo 8: it frees the
  frame only when the frame number modulo 32 is below 8, and otherwise changes nothing.\<close>

theorem pmm_free_page_effect:
  "frames_used (pmm_free_page addr s) =
     (if frame_of addr mod 32 < 8 then frames_used s - {frame_of addr} else frames_used s)"
  by (rule frames_used_free)

text \<open>The bitmap has eight times as many entries as there are frames: when all \<open>2 ^ 20\<close> frames
  are in use, \<open>pmm_alloc_page\<close> goes on to the entries behind them and returns the wrapped address
  0, a frame that is in use, instead of panicking.\<close>

theorem pmm_alloc_page_exhausted:
  assumes "\<forall>j < 2 ^ 17. MEM_BITMAP s (of_nat j) = 0xff" and "MEM_BITMAP s (2 ^ 17) = 0"
  shows "frames_used s = {..<2 ^ 20} \<and> (\<exists>s'. pmm_alloc_page s = ret (0, s'))"
proof
  show "frames_used s = {..<2 ^ 20}"
    using assms(1) bit_entry_mask [unfolded c_const]
    by (auto simp: frames_used_def frame_bit_def simp del: bit_numeral_word_iff)
  show "\<exists>s'. pmm_alloc_page s = ret (0, s')"
    using pmm_alloc_page_entry [of "2 ^ 17" s 0] assms by (simp add: c_const)
qed

theorem pmm_alloc_page_exhausted_witness:
  "\<exists>s. frames_used s = {..<2 ^ 20} \<and> (\<exists>s'. pmm_alloc_page s = ret (0, s'))"
proof -
  let ?s = "\<lparr>MEM_BITMAP = (\<lambda>i :: u32. if i < 2 ^ 17 then 0xff else 0)\<rparr>"
  have "\<forall>j < 2 ^ 17. MEM_BITMAP ?s (of_nat j) = 0xff"
    by (auto simp: word_less_nat_alt unat_of_nat)
  from pmm_alloc_page_exhausted [OF this] show ?thesis by (intro exI [of _ ?s]) simp
qed

end
