(* ===== verification/Mapping_Spec.thy ===== *)
theory Mapping_Spec
  imports Kernel_Prelude
begin

text \<open>
  What code that maps pages one after the other relies on: mapping a page makes every address of
  that page translate to the new frame and leaves the other pages alone. The initial directory,
  the kernel stacks and the page-fault handler are clients.
\<close>

locale page_mapper =
  fixes valid :: bool
    and map_page :: "u32 \<Rightarrow> u32 \<Rightarrow> 's \<Rightarrow> 's"
    and maps :: "'s \<Rightarrow> u32 \<Rightarrow> u32 \<Rightarrow> bool"
    and page_of :: "u32 \<Rightarrow> nat"
    and frame :: "u32 \<Rightarrow> u32"
  assumes map_same: "valid \<Longrightarrow> page_of v = page_of w \<Longrightarrow> maps (map_page w pa s) v (frame pa)"
    and map_other: "valid \<Longrightarrow> page_of v \<noteq> page_of w \<Longrightarrow> maps s v f \<Longrightarrow> maps (map_page w pa s) v f"
begin

text \<open>Pages that are not in the list keep their translation.\<close>

lemma map_pages_other:
  assumes "valid" and "page_of v \<notin> set (map (\<lambda>(va, pa). page_of va) ps)" and "maps s v f"
  shows "maps (fold (\<lambda>(va, pa). map_page va pa) ps s) v f"
  using assms(2,3) by (induction ps arbitrary: s) (auto intro: map_other [OF assms(1)])

text \<open>Pages of a list without repetitions all get their own frame.\<close>

lemma map_pages:
  assumes "valid" and "distinct (map (\<lambda>(va, pa). page_of va) ps)"
    and "(va, pa) \<in> set ps" and "page_of v = page_of va"
  shows "maps (fold (\<lambda>(va, pa). map_page va pa) ps s) v (frame pa)"
  using assms(2,3)
proof (induction ps arbitrary: s)
  case (Cons p ps)
  obtain vb pb where p: "p = (vb, pb)" by (cases p)
  show ?case
  proof (cases "(va, pa) = p")
    case True
    with p Cons.prems(1) assms(1,4) show ?thesis
      by (auto intro!: map_pages_other map_same)
  next
    case False
    with Cons.prems show ?thesis by (auto intro!: Cons.IH)
  qed
qed simp

end

end
