(* ===== verification/Paging.thy ===== *)
theory Paging
  imports Kmalloc Pmm Mapping_Spec
begin

text \<open>
  Paging, \<^verbatim>\<open>src/kernel/arch/i386/mm/paging.c\<close> and \<^verbatim>\<open>paging_bootstrap.c\<close>, with the linear
  address conversion of \<^verbatim>\<open>vmm.c\<close> that they use. Page tables live in a store by their virtual
  address. \<open>page_walk\<close> is the translation the processor does with them, and the lemmas say how
  mapping, unmapping and the initial directory change what is translated to what.
\<close>

section \<open>Constants and data\<close>

definition PAGE_TABLE_SIZE :: u32 where [c_const]: "PAGE_TABLE_SIZE = 1024"
definition PAGE_DIRECTORY_START :: nat where [c_const]: "PAGE_DIRECTORY_START = 22"
definition PAGE_TABLE_START :: nat where [c_const]: "PAGE_TABLE_START = 12"

definition PAGE_FLAG_PRESENT :: u32 where [c_const]: "PAGE_FLAG_PRESENT = 1"
definition PAGE_FLAG_WRITE :: u32 where [c_const]: "PAGE_FLAG_WRITE = 2"
definition PAGE_FLAG_USER :: u32 where [c_const]: "PAGE_FLAG_USER = 4"
definition PAGE_FLAG_PAGE_SIZE :: u32 where [c_const]: "PAGE_FLAG_PAGE_SIZE = 0x80"

definition PAGE_DIRECTORY_INDEX :: "u32 \<Rightarrow> u32" where
  "PAGE_DIRECTORY_INDEX vaddr = drop_bit PAGE_DIRECTORY_START vaddr"

definition PAGE_TABLE_INDEX :: "u32 \<Rightarrow> u32" where
  "PAGE_TABLE_INDEX vaddr = drop_bit PAGE_TABLE_START vaddr AND 0x3ff"

record kernel_meminfo =
  physical_start :: u32
  physical_end :: u32
  virtual_start :: u32
  virtual_end :: u32
  text_virtual_start :: u32
  text_physical_start :: u32
  text_virtual_end :: u32
  rodata_virtual_start :: u32
  rodata_physical_start :: u32
  rodata_virtual_end :: u32
  data_virtual_start :: u32
  data_physical_start :: u32
  data_virtual_end :: u32
  bss_virtual_start :: u32
  bss_physical_start :: u32
  bss_virtual_end :: u32
  higher_half_base :: u32
  stack_top :: u32

record page_table =
  entries :: "u32 \<Rightarrow> u32"

record paging_context =
  page_directory :: u32
  page_tables :: u32

record paging_state =
  tables :: "page_table store"
  cr3 :: u32
  ACTIVE_PAGING_CTX :: paging_context

section \<open>Operations\<close>

definition vmm_virtual_to_physical :: "kernel_meminfo \<Rightarrow> u32 \<Rightarrow> u32" where
  "vmm_virtual_to_physical mi addr = addr - higher_half_base mi"

definition vmm_physical_to_virtual :: "kernel_meminfo \<Rightarrow> u32 \<Rightarrow> u32" where
  "vmm_physical_to_virtual mi addr = addr + higher_half_base mi"

text \<open>\<^verbatim>\<open>table->entries[i] = v\<close>\<close>

definition set_entry :: "u32 \<Rightarrow> u32 \<Rightarrow> u32 \<Rightarrow> paging_state \<Rightarrow> paging_state" where
  "set_entry table i v s =
     s\<lparr>tables := (tables s)(table := (tables s table)\<lparr>entries := (entries (tables s table))(i := v)\<rparr>)\<rparr>"

definition paging_map_virtual_to_physical ::
  "kernel_meminfo \<Rightarrow> paging_context \<Rightarrow> u32 \<Rightarrow> u32 \<Rightarrow> u32 \<Rightarrow> paging_state \<Rightarrow> paging_state" where
  "paging_map_virtual_to_physical mi paging_ctx virtual_addr physical_addr flags s =
     (let page_table = page_tables paging_ctx + PAGE_DIRECTORY_INDEX virtual_addr * PAGE_SIZE;
          page_table_addr = vmm_virtual_to_physical mi page_table;
          page_start_addr = push_bit 12 (drop_bit 12 physical_addr);
          s1 = set_entry (page_directory paging_ctx) (PAGE_DIRECTORY_INDEX virtual_addr)
                 (page_table_addr OR flags) s
      in set_entry page_table (PAGE_TABLE_INDEX virtual_addr) (page_start_addr OR flags) s1)"

definition paging_unmap_addr ::
  "kernel_meminfo \<Rightarrow> paging_context \<Rightarrow> u32 \<Rightarrow> paging_state \<Rightarrow> paging_state" where
  "paging_unmap_addr mi paging_ctx virtual_addr s =
     (let page_table = page_tables paging_ctx + PAGE_DIRECTORY_INDEX virtual_addr * PAGE_SIZE;
          page_table_addr = vmm_virtual_to_physical mi page_table;
          s1 = set_entry (page_directory paging_ctx) (PAGE_DIRECTORY_INDEX virtual_addr)
                 page_table_addr s
      in set_entry page_table (PAGE_TABLE_INDEX virtual_addr) 0 s1)"

definition paging_page_count :: "u32 \<Rightarrow> u32" where
  "paging_page_count sz = (sz + PAGE_SIZE - 1) div PAGE_SIZE"

definition paging_is_aligned :: "u32 \<Rightarrow> bool" where
  "paging_is_aligned addr \<longleftrightarrow> addr AND (PAGE_SIZE - 1) = 0"

definition paging_align_addr :: "u32 \<Rightarrow> u32" where
  "paging_align_addr addr = (addr div PAGE_SIZE) * PAGE_SIZE"

definition paging_set_page_directory :: "u32 \<Rightarrow> paging_state \<Rightarrow> paging_state" where
  "paging_set_page_directory addr s = s\<lparr>cr3 := addr\<rparr>"

text \<open>The loop that maps the kernel image; its counter and its bound are 64-bit.\<close>

function map_kernel_loop ::
  "kernel_meminfo \<Rightarrow> paging_context \<Rightarrow> u64 \<Rightarrow> paging_state \<Rightarrow> paging_state" where
  "map_kernel_loop mi paging_ctx i s =
     (if ucast (higher_half_base mi) + i * 4096 < (ucast (virtual_end mi) :: u64)
      then let virtual_addr = ucast (ucast (higher_half_base mi) + i * 4096);
               physical_addr = ucast (i * 4096)
           in map_kernel_loop mi paging_ctx (i + 1)
                (paging_map_virtual_to_physical mi paging_ctx virtual_addr physical_addr
                   (PAGE_FLAG_PRESENT OR PAGE_FLAG_WRITE) s)
      else s)"
  by pat_completeness auto

text \<open>The loop that maps the heap pages.\<close>

function map_heap_loop ::
  "kernel_meminfo \<Rightarrow> paging_context \<Rightarrow> u64 \<Rightarrow> paging_state \<Rightarrow> paging_state" where
  "map_heap_loop mi paging_ctx i s =
     (if i * 4096 < (ucast KERNEL_HEAP_SIZE :: u64)
      then let virtual_addr = ucast (ucast KERNEL_HEAP_VIRT_START + i * 4096);
               physical_addr = ucast (ucast KERNEL_HEAP_PHYS_START + i * 4096)
           in map_heap_loop mi paging_ctx (i + 1)
                (paging_map_virtual_to_physical mi paging_ctx virtual_addr physical_addr
                   (PAGE_FLAG_PRESENT OR PAGE_FLAG_WRITE) s)
      else s)"
  by pat_completeness auto

text \<open>The loop of \<^verbatim>\<open>paging_bootstrap\<close> that maps the kernel with 4 MB pages.\<close>

function bootstrap_loop :: "kernel_meminfo \<Rightarrow> u64 \<Rightarrow> page_table \<Rightarrow> page_table" where
  "bootstrap_loop mi i KERNEL_PAGE_DIRECTORY =
     (if ucast (virtual_start mi) + i * 4194304 < (ucast (virtual_end mi) :: u64)
      then let virtual_address = ucast (ucast (virtual_start mi) + i * 4194304);
               physical_address = ucast (ucast (physical_start mi) + i * 4194304);
               entry = push_bit 22 (PAGE_DIRECTORY_INDEX physical_address)
           in bootstrap_loop mi (i + 1) (KERNEL_PAGE_DIRECTORY\<lparr>entries := (entries KERNEL_PAGE_DIRECTORY)
                (PAGE_DIRECTORY_INDEX virtual_address :=
                   entry OR PAGE_FLAG_PRESENT OR PAGE_FLAG_PAGE_SIZE OR PAGE_FLAG_WRITE)\<rparr>)
      else KERNEL_PAGE_DIRECTORY)"
  by pat_completeness auto

text \<open>Below a 32-bit bound a 64-bit position advances by a page without wrapping around.\<close>

lemma u64_bound_step:
  assumes "x < (ucast (b :: u32) :: u64)" and "0 < d" and "d < 4294967296"
  shows "unat (ucast b :: u64) - unat (x + d) < unat (ucast b :: u64) - unat x"
proof -
  from assms(1) have "unat x < unat b" by (simp add: word_less_nat_alt)
  then have "unat x < 4294967296" by (rule less_trans) simp
  moreover have d: "0 < unat d" "unat d < 4294967296" using assms(2,3) by (simp_all add: word_less_nat_alt)
  ultimately have "unat (x + d) = unat x + unat d" by (simp add: unat_word_ariths)
  with assms(1) d show ?thesis
    by (simp add: word_less_nat_alt)
qed

lemma u64_page_steps:
  "x < (ucast (b :: u32) :: u64) \<Longrightarrow> unat (ucast b :: u64) - unat (x + 4096) < unat (ucast b :: u64) - unat x"
  "x < (ucast (b :: u32) :: u64) \<Longrightarrow> unat (ucast b :: u64) - unat (x + 4194304) < unat (ucast b :: u64) - unat x"
  by (erule u64_bound_step; simp)+

termination bootstrap_loop
  by (relation "measure (\<lambda>(mi, i, t).
      unat (ucast (virtual_end mi) :: u64) - unat (ucast (virtual_start mi) + i * 4194304 :: u64))")
    (auto dest: u64_page_steps simp: algebra_simps)

termination map_kernel_loop
  by (relation "measure (\<lambda>(mi, ctx, i, s).
      unat (ucast (virtual_end mi) :: u64) - unat (ucast (higher_half_base mi) + i * 4096 :: u64))")
    (auto dest: u64_page_steps simp: algebra_simps)

termination map_heap_loop
  by (relation "measure (\<lambda>(mi, ctx, i, s). unat (ucast KERNEL_HEAP_SIZE :: u64) - unat (i * 4096 :: u64))")
    (auto dest: u64_page_steps simp: algebra_simps)

declare map_kernel_loop.simps [simp del] map_heap_loop.simps [simp del] bootstrap_loop.simps [simp del]

text \<open>\<open>addr\<close> is the address of \<^verbatim>\<open>KERNEL_PAGE_DIRECTORY\<close>, which \<open>paging_bootstrap\<close> returns.\<close>

definition paging_bootstrap :: "kernel_meminfo \<Rightarrow> u32 \<Rightarrow> page_table \<Rightarrow> u32 \<times> page_table" where
  "paging_bootstrap meminfo addr KERNEL_PAGE_DIRECTORY =
     (let t1 = for_range 0 PAGE_TABLE_SIZE (\<lambda>i t. t\<lparr>entries := (entries t)(i := 0)\<rparr>) KERNEL_PAGE_DIRECTORY;
          t2 = bootstrap_loop meminfo 0 t1;
          kernel_page_directory = addr
      in (kernel_page_directory, t2))"

definition zero_table :: "u32 \<Rightarrow> paging_state \<Rightarrow> paging_state" where
  "zero_table table s = s\<lparr>tables := (tables s)(table := \<lparr>entries = (\<lambda>_. 0)\<rparr>)\<rparr>"

text \<open>
  \<open>slot\<close> is the address of the parameter variable \<^verbatim>\<open>page_directory\<close> itself: the code converts
  \<^verbatim>\<open>&page_directory\<close>, not \<^verbatim>\<open>page_directory\<close>, to a physical address.
\<close>

definition paging_create_page_directory ::
  "kernel_meminfo \<Rightarrow> u32 \<Rightarrow> u32 \<Rightarrow> u32 \<Rightarrow> paging_state \<Rightarrow> (paging_context \<times> paging_state) comp" where
  "paging_create_page_directory mi slot pd pts s =
     assertK (pd \<noteq> NULL) (Panic ''page_directory should not be NULL'')
    (assertK (pts \<noteq> NULL) (Panic ''page_tables should not be NULL'')
    (let paging_ctx = \<lparr>page_directory = pd, page_tables = pts\<rparr>;
         s1 = zero_table pd s;
         s2 = for_range 0 PAGE_TABLE_SIZE (\<lambda>i. zero_table (pts + i * PAGE_SIZE)) s1;
         s3 = map_kernel_loop mi paging_ctx 0 s2;
         s4 = map_heap_loop mi paging_ctx 0 s3;
         pa = vmm_virtual_to_physical mi slot;
         s5 = set_entry pd (PAGE_TABLE_SIZE - 1) (pa OR PAGE_FLAG_PRESENT OR PAGE_FLAG_WRITE) s4
     in ret (paging_ctx, s5)))"

definition init_paging ::
  "kernel_meminfo \<Rightarrow> u32 \<Rightarrow> u32 \<Rightarrow> u32 \<Rightarrow> paging_state \<Rightarrow> (paging_context \<times> paging_state) comp" where
  "init_paging mi slot INIT_ACTIVE_PAGE_DIRECTORY INIT_KERNEL_PAGE_TABLES s =
     bindK (paging_create_page_directory mi slot INIT_ACTIVE_PAGE_DIRECTORY INIT_KERNEL_PAGE_TABLES s)
       (\<lambda>(paging_ctx, s1).
          let pa = vmm_virtual_to_physical mi (page_directory paging_ctx);
              s2 = paging_set_page_directory pa s1
          in ret (paging_ctx, s2\<lparr>ACTIVE_PAGING_CTX := paging_ctx\<rparr>))"

section \<open>The translation done by the processor\<close>

text \<open>
  The two-level walk of the i386 with 4 KB pages: frame address and offset, and the flags both
  levels grant. The tables are read through their linear kernel address.
\<close>

definition page_walk :: "kernel_meminfo \<Rightarrow> paging_state \<Rightarrow> u32 \<Rightarrow> u32 \<Rightarrow> (u32 \<times> u32) option" where
  "page_walk mi s pd v =
     (let pde = entries (tables s pd) (PAGE_DIRECTORY_INDEX v)
      in if pde AND PAGE_FLAG_PRESENT = 0 then None
         else let pte = entries (tables s (vmm_physical_to_virtual mi (pde AND NOT 0xfff))) (PAGE_TABLE_INDEX v)
              in if pte AND PAGE_FLAG_PRESENT = 0 then None
                 else Some ((pte AND NOT 0xfff) OR (v AND 0xfff), pde AND pte AND 0xfff))"

text \<open>Page-aligned addresses and flag bits do not interfere.\<close>

lemma low_mask: "(0xfff :: u32) = mask 12"
  by (simp add: mask_eq_exp_minus_1)

lemma paging_is_aligned_dvd: "paging_is_aligned a \<longleftrightarrow> 4096 dvd a"
  using take_bit_eq_0_iff [of 12 a] by (simp add: paging_is_aligned_def c_const low_mask take_bit_eq_mask)

lemma paging_is_aligned_unat: "paging_is_aligned a \<longleftrightarrow> 4096 dvd unat a"
  using and_mask_dvd_nat [of 12 a] by (simp add: paging_is_aligned_def c_const low_mask)

lemma aligned_bits: "paging_is_aligned a \<Longrightarrow> n < 12 \<Longrightarrow> \<not> bit a n"
proof -
  assume "paging_is_aligned a" "n < 12"
  then have "\<not> bit (a AND mask 12) n" by (simp add: paging_is_aligned_def c_const low_mask [symmetric])
  with \<open>n < 12\<close> show "\<not> bit a n" by (auto simp: bit_and_iff bit_mask_iff dest: bit_imp_le_length)
qed

definition is_flags :: "u32 \<Rightarrow> bool" where
  "is_flags f \<longleftrightarrow> f AND NOT 0xfff = 0"

lemma flag_bits: "is_flags f \<Longrightarrow> 12 \<le> n \<Longrightarrow> \<not> bit f n"
proof -
  assume f: "is_flags f" "12 \<le> n"
  then have "\<not> bit (f AND NOT (mask 12)) n" by (simp add: is_flags_def low_mask [symmetric])
  with f(2) show "\<not> bit f n" by (auto simp: bit_simps dest: bit_imp_le_length)
qed

lemma entry_parts:
  assumes "paging_is_aligned a" and "is_flags f"
  shows "(a OR f) AND NOT 0xfff = a" and "(a OR f) AND 0xfff = f" and "(a OR f) AND 1 = f AND 1"
proof -
  show "(a OR f) AND NOT 0xfff = a" unfolding low_mask
    by (rule bit_word_eqI) (use aligned_bits [OF assms(1)] flag_bits [OF assms(2)] in \<open>auto simp: bit_simps\<close>)
  show "(a OR f) AND 0xfff = f" unfolding low_mask
    by (rule bit_word_eqI) (use aligned_bits [OF assms(1)] flag_bits [OF assms(2)] in
      \<open>auto simp: bit_simps not_less [symmetric]\<close>)
  show "(a OR f) AND 1 = f AND 1"
    by (rule bit_word_eqI) (use aligned_bits [OF assms(1)] in \<open>auto simp: bit_simps bit_1_iff\<close>)
qed

lemma aligned_frame: "paging_is_aligned (push_bit 12 x)"
  by (simp add: paging_is_aligned_dvd push_bit_eq_mult)

lemma aligned_frame_id:
  assumes "paging_is_aligned a" shows "push_bit 12 (drop_bit 12 a) = a"
proof (rule bit_word_eqI)
  fix n assume "n < LENGTH(32)"
  then show "bit (push_bit 12 (drop_bit 12 a)) n = bit a n"
    using aligned_bits [OF assms, of n] by (cases "n < 12") (simp_all add: bit_push_bit_iff bit_drop_bit_eq)
qed

section \<open>What mapping and unmapping do\<close>

lemma directory_index_unat: "unat (PAGE_DIRECTORY_INDEX v) = unat v div 4194304"
  by (simp add: PAGE_DIRECTORY_INDEX_def c_const drop_bit_eq_div unat_div)

lemma table_index_unat: "unat (PAGE_TABLE_INDEX v) = unat v div 4096 mod 1024"
proof -
  have "PAGE_TABLE_INDEX v = take_bit 10 (drop_bit 12 v)"
    by (simp add: PAGE_TABLE_INDEX_def c_const take_bit_eq_mask mask_eq_exp_minus_1)
  then show ?thesis
    by (simp add: take_bit_eq_mod drop_bit_eq_div unat_div unat_mod)
qed

lemma directory_index_less: "PAGE_DIRECTORY_INDEX v < 1024"
  using unsigned_less [of v] by (simp add: word_less_nat_alt directory_index_unat less_mult_imp_div_less)

abbreviation table_of :: "paging_context \<Rightarrow> u32 \<Rightarrow> u32" where
  "table_of ctx v \<equiv> page_tables ctx + PAGE_DIRECTORY_INDEX v * PAGE_SIZE"

lemma table_of_inj:
  assumes "table_of ctx v = table_of ctx w" shows "PAGE_DIRECTORY_INDEX v = PAGE_DIRECTORY_INDEX w"
proof -
  have "unat (PAGE_DIRECTORY_INDEX x * 4096) = unat (PAGE_DIRECTORY_INDEX x) * 4096" for x
    using directory_index_less [of x] by (simp add: unat_simps word_less_nat_alt)
  with assms show ?thesis by (metis PAGE_SIZE_def add_left_cancel mult_cancel2 u32_eqI zero_neq_numeral)
qed

text \<open>The directory is page-aligned in the linear kernel mapping and is none of the tables.\<close>

definition ctx_ok :: "kernel_meminfo \<Rightarrow> paging_context \<Rightarrow> bool" where
  "ctx_ok mi ctx \<longleftrightarrow> paging_is_aligned (page_tables ctx) \<and> paging_is_aligned (higher_half_base mi) \<and>
     (\<forall>i < 1024. page_directory ctx \<noteq> page_tables ctx + i * PAGE_SIZE)"

lemma ctx_ok_table:
  assumes "ctx_ok mi ctx"
  shows "page_directory ctx \<noteq> table_of ctx v" and "table_of ctx v \<noteq> page_directory ctx"
    and "paging_is_aligned (vmm_virtual_to_physical mi (table_of ctx v))"
  using assms directory_index_less [of v]
  by (auto simp: ctx_ok_def paging_is_aligned_dvd vmm_virtual_to_physical_def c_const)

definition same_page :: "u32 \<Rightarrow> u32 \<Rightarrow> bool" where
  "same_page v w \<longleftrightarrow> PAGE_DIRECTORY_INDEX v = PAGE_DIRECTORY_INDEX w \<and> PAGE_TABLE_INDEX v = PAGE_TABLE_INDEX w"

text \<open>Both entries on the path of \<open>v\<close> are set up for the frame and the flags.\<close>

definition maps_to :: "kernel_meminfo \<Rightarrow> paging_context \<Rightarrow> paging_state \<Rightarrow> u32 \<Rightarrow> u32 \<Rightarrow> u32 \<Rightarrow> bool" where
  "maps_to mi ctx s v frame flags \<longleftrightarrow>
     entries (tables s (page_directory ctx)) (PAGE_DIRECTORY_INDEX v) =
       (vmm_virtual_to_physical mi (table_of ctx v) OR flags) \<and>
     entries (tables s (table_of ctx v)) (PAGE_TABLE_INDEX v) = (frame OR flags)"

lemma maps_to_walk:
  assumes "ctx_ok mi ctx" and "maps_to mi ctx s v frame flags"
    and "paging_is_aligned frame" and "is_flags flags" and "flags AND PAGE_FLAG_PRESENT \<noteq> 0"
  shows "page_walk mi s (page_directory ctx) v = Some (frame OR (v AND 0xfff), flags)"
proof -
  note pde = entry_parts [OF ctx_ok_table(3) [OF assms(1), of v] assms(4)]
  note pte = entry_parts [OF assms(3,4)]
  let ?t = "vmm_virtual_to_physical mi (table_of ctx v)"
  have "(?t OR flags) AND (frame OR flags) AND 0xfff = flags"
    using pde(2) pte(2) by (metis and.assoc and.idem and.left_commute)
  moreover have "vmm_physical_to_virtual mi ?t = table_of ctx v"
    by (simp add: vmm_virtual_to_physical_def vmm_physical_to_virtual_def)
  ultimately show ?thesis
    using assms(2,5) pde pte by (simp add: page_walk_def maps_to_def Let_def PAGE_FLAG_PRESENT_def)
qed

lemma map_maps_to:
  assumes "ctx_ok mi ctx" and "same_page v w"
  shows "maps_to mi ctx (paging_map_virtual_to_physical mi ctx w pa flags s) v (push_bit 12 (drop_bit 12 pa)) flags"
  using assms ctx_ok_table [OF assms(1)]
  by (simp add: maps_to_def paging_map_virtual_to_physical_def set_entry_def Let_def same_page_def)

lemma map_keeps_maps_to:
  assumes "ctx_ok mi ctx" and "\<not> same_page v w" and "maps_to mi ctx s v frame flags"
  shows "maps_to mi ctx (paging_map_virtual_to_physical mi ctx w pa flags s) v frame flags"
  using assms ctx_ok_table [OF assms(1)] table_of_inj [of ctx v w]
  by (auto simp: maps_to_def paging_map_virtual_to_physical_def set_entry_def Let_def same_page_def)

lemma same_page_iff: "same_page v w \<longleftrightarrow> unat v div 4096 = unat w div 4096"
proof -
  have "unat x div 4194304 = unat x div 4096 div 1024" for x :: u32
    by (simp add: div_mult2_eq [symmetric])
  then show ?thesis
    unfolding same_page_def word_unat_eq_iff directory_index_unat table_index_unat
    by (metis mult_div_mod_eq)
qed

lemma unmap_not_present:
  assumes "ctx_ok mi ctx" and "PAGE_DIRECTORY_INDEX v = PAGE_DIRECTORY_INDEX w"
  shows "page_walk mi (paging_unmap_addr mi ctx w s) (page_directory ctx) v = None"
proof -
  have "vmm_virtual_to_physical mi (table_of ctx w) AND 1 = 0"
    using entry_parts(3) [OF ctx_ok_table(3) [OF assms(1), of w], of 0] by (simp add: is_flags_def)
  then show ?thesis
    using assms(2) ctx_ok_table(2) [OF assms(1), of w]
    by (simp add: page_walk_def paging_unmap_addr_def set_entry_def Let_def PAGE_FLAG_PRESENT_def)
qed

lemma unmap_keeps_maps_to:
  assumes "ctx_ok mi ctx" and "PAGE_DIRECTORY_INDEX v \<noteq> PAGE_DIRECTORY_INDEX w"
    and "maps_to mi ctx s v frame flags"
  shows "maps_to mi ctx (paging_unmap_addr mi ctx w s) v frame flags"
  using assms ctx_ok_table [OF assms(1)] table_of_inj [of ctx v w]
  by (auto simp: maps_to_def paging_unmap_addr_def set_entry_def Let_def)

section \<open>The initial page directory\<close>

abbreviation RW :: u32 where
  "RW \<equiv> PAGE_FLAG_PRESENT OR PAGE_FLAG_WRITE"

definition map_all :: "kernel_meminfo \<Rightarrow> paging_context \<Rightarrow> (u32 \<times> u32) list \<Rightarrow> paging_state \<Rightarrow> paging_state" where
  "map_all mi ctx ps s = fold (\<lambda>(va, pa). paging_map_virtual_to_physical mi ctx va pa RW) ps s"

interpretation pg: page_mapper "ctx_ok mi ctx"
  "\<lambda>va pa. paging_map_virtual_to_physical mi ctx va pa flags"
  "\<lambda>s v f. maps_to mi ctx s v f flags" "\<lambda>v. unat v div 4096" "\<lambda>pa. push_bit 12 (drop_bit 12 pa)"
  for mi ctx flags
  by unfold_locales (auto intro: map_maps_to map_keeps_maps_to simp: same_page_iff)

lemma map_all_maps_to:
  assumes "ctx_ok mi ctx" and "distinct (map (\<lambda>(va, pa). unat va div 4096) ps)"
    and "(va, pa) \<in> set ps" and "same_page v va"
  shows "maps_to mi ctx (map_all mi ctx ps s) v (push_bit 12 (drop_bit 12 pa)) RW"
  unfolding map_all_def using assms by (intro pg.map_pages) (simp_all add: same_page_iff)

lemma map_kernel_loop_map_all:
  assumes "n = (unat (virtual_end mi) - unat (higher_half_base mi) + 4095) div 4096" and "i \<le> n"
  shows "map_kernel_loop mi ctx (of_nat i) s =
    map_all mi ctx (map (\<lambda>j. (higher_half_base mi + of_nat j * 4096, of_nat j * 4096)) [i..<n]) s"
  using assms(2)
proof (induction "n - i" arbitrary: i s)
  have "unat (virtual_end mi) < 4294967296" by simp
  then have n20: "n \<le> 1048576" unfolding assms(1) by linarith
  let ?pos = "\<lambda>i. ucast (higher_half_base mi) + of_nat i * 4096 :: u64"
  have pos: "unat (?pos i) = unat (higher_half_base mi) + i * 4096" if "i \<le> n" for i
  proof -
    have "unat (of_nat i * 4096 :: u64) = i * 4096"
      using that n20 by (simp add: unat_word_ariths unat_of_nat)
    moreover have "unat (higher_half_base mi) < 4294967296" by simp
    ultimately show ?thesis using that n20 by (simp add: unat_word_ariths del: unat_u32_less)
  qed
  have cond: "?pos i < ucast (virtual_end mi) \<longleftrightarrow> i < n" if "i \<le> n" for i
    using pos [OF that] by (simp add: word_less_nat_alt assms(1)) linarith
  {
    case 0
    then have "i = n" by simp
    then show ?case using cond [of n] by (subst map_kernel_loop.simps) (simp add: map_all_def)
  next
    case (Suc d)
    then have lt: "i < n" by linarith
    have low: "(ucast (?pos i) :: u32) = higher_half_base mi + of_nat i * 4096"
      "(ucast (of_nat i * 4096 :: u64) :: u32) = of_nat i * 4096"
      by (simp_all add: ucast_u32_simps)
    have "map_kernel_loop mi ctx (of_nat i) s = map_kernel_loop mi ctx (of_nat (Suc i))
        (paging_map_virtual_to_physical mi ctx (higher_half_base mi + of_nat i * 4096) (of_nat i * 4096) RW s)"
      using cond [of i] lt low by (subst map_kernel_loop.simps) (simp add: Let_def add.commute)
    also have "\<dots> = map_all mi ctx (map (\<lambda>j. (higher_half_base mi + of_nat j * 4096, of_nat j * 4096)) [Suc i..<n])
        (paging_map_virtual_to_physical mi ctx (higher_half_base mi + of_nat i * 4096) (of_nat i * 4096) RW s)"
      using Suc.hyps lt by (intro Suc.hyps(1)) auto
    finally show ?case using lt by (simp add: upt_conv_Cons map_all_def)
  }
qed

lemma map_heap_loop_map_all:
  assumes "i \<le> 12288"
  shows "map_heap_loop mi ctx (of_nat i) s =
    map_all mi ctx (map (\<lambda>j. (KERNEL_HEAP_VIRT_START + of_nat j * 4096, KERNEL_HEAP_PHYS_START + of_nat j * 4096)) [i..<12288]) s"
  using assms
proof (induction "12288 - i" arbitrary: i s)
  have pos: "unat (of_nat i * 4096 :: u64) = i * 4096" if "i \<le> 12288" for i
    using that by (simp add: unat_word_ariths unat_of_nat)
  have cond: "of_nat i * 4096 < (ucast KERNEL_HEAP_SIZE :: u64) \<longleftrightarrow> i < 12288" if "i \<le> 12288" for i
    using pos [OF that] by (simp add: word_less_nat_alt c_const)
  {
    case 0
    then have "i = 12288" by simp
    then show ?case using cond [of 12288] by (subst map_heap_loop.simps) (simp add: map_all_def)
  next
    case (Suc d)
    then have lt: "i < 12288" by linarith
    have low: "(ucast (ucast a + of_nat i * 4096 :: u64) :: u32) = a + of_nat i * 4096" for a :: u32
      by (simp add: ucast_u32_simps)
    let ?s = "paging_map_virtual_to_physical mi ctx (KERNEL_HEAP_VIRT_START + of_nat i * 4096)
        (KERNEL_HEAP_PHYS_START + of_nat i * 4096) RW s"
    have "map_heap_loop mi ctx (of_nat i) s = map_heap_loop mi ctx (of_nat (Suc i)) ?s"
      using cond [of i] lt low by (subst map_heap_loop.simps) (simp add: Let_def add.commute)
    also have "\<dots> = map_all mi ctx (map (\<lambda>j. (KERNEL_HEAP_VIRT_START + of_nat j * 4096,
        KERNEL_HEAP_PHYS_START + of_nat j * 4096)) [Suc i..<12288]) ?s"
      using Suc.hyps lt by (intro Suc.hyps(1)) auto
    finally show ?case using lt by (simp add: upt_conv_Cons map_all_def)
  }
qed

text \<open>An address in a page-aligned linear mapping is translated by its distance from the start.\<close>

lemma linear_frame:
  assumes "paging_is_aligned base" and "paging_is_aligned phys" and "base \<le> v"
    and "unat phys + (unat v - unat base) < 2 ^ 32"
    and j: "j = (unat v - unat base) div 4096"
  shows "same_page v (base + of_nat j * 4096)"
    and "push_bit 12 (drop_bit 12 (phys + of_nat j * 4096)) OR (v AND 0xfff) = phys + (v - base)"
proof -
  from assms(1) obtain b where b: "unat base = 4096 * b" by (auto simp: paging_is_aligned_unat)
  from assms(2) obtain p where p: "unat phys = 4096 * p" by (auto simp: paging_is_aligned_unat)
  have le: "unat base \<le> unat v" using assms(3) by (simp add: word_le_nat_alt)
  define d where "d = unat v - unat base"
  have uv: "unat v = 4096 * b + d" using le b by (simp add: d_def)
  have d32: "unat base + d < 2 ^ 32" using le unsigned_less [of v] by (simp add: d_def)
  have dj: "4096 * j \<le> d" "d div 4096 = j" using j by (simp_all add: d_def)
  have uj: "unat (of_nat j * 4096 :: u32) = j * 4096"
    using dj d32 by (simp add: unat_word_ariths unat_of_nat)
  have "unat (base + of_nat j * 4096) = 4096 * (b + j)"
    using dj d32 b uj by (simp add: unat_word_ariths)
  moreover have "unat v div 4096 = b + j" using uv dj by simp
  ultimately show "same_page v (base + of_nat j * 4096)" by (simp add: same_page_iff)
  have "paging_is_aligned (phys + of_nat j * 4096)"
    using assms(2) by (simp add: paging_is_aligned_dvd)
  then have "push_bit 12 (drop_bit 12 (phys + of_nat j * 4096)) = phys + of_nat j * 4096"
    by (rule aligned_frame_id)
  moreover have "(phys + of_nat j * 4096) OR (v AND 0xfff) = (phys + of_nat j * 4096) + (v AND 0xfff)"
  proof (rule disjunctive_add_eq_or [symmetric])
    show "(phys + of_nat j * 4096) AND (v AND 0xfff) = 0"
      using \<open>paging_is_aligned (phys + of_nat j * 4096)\<close>
      by (simp add: paging_is_aligned_def c_const and.left_commute)
  qed
  moreover have "v AND 0xfff = of_nat (d mod 4096)"
  proof (rule u32_eqI)
    have "unat (v AND 0xfff) = unat v mod 4096"
      unfolding low_mask by (simp add: take_bit_eq_mask [symmetric] take_bit_eq_mod unat_mod)
    then show "unat (v AND 0xfff) = unat (of_nat (d mod 4096) :: u32)"
      by (simp add: uv unat_of_nat)
  qed
  moreover have "v - base = of_nat d"
    using le by (intro u32_eqI) (simp add: unat_sub word_le_nat_alt assms(3) d_def)
  moreover have "of_nat j * 4096 + of_nat (d mod 4096) = (of_nat d :: u32)"
    by (metis dj(2) of_nat_add of_nat_mult of_nat_numeral mult.commute mult_div_mod_eq)
  ultimately show "push_bit 12 (drop_bit 12 (phys + of_nat j * 4096)) OR (v AND 0xfff) = phys + (v - base)"
    by (metis add.assoc)
qed

lemma set_entry_maps_to:
  assumes "ctx_ok mi ctx" and "maps_to mi ctx s v frame flags" and "PAGE_DIRECTORY_INDEX v \<noteq> i"
  shows "maps_to mi ctx (set_entry (page_directory ctx) i e s) v frame flags"
  using assms ctx_ok_table [OF assms(1)] by (simp add: maps_to_def set_entry_def)

text \<open>The pages the two loops map, in order; the heap has \<open>HEAP_PAGES\<close> of them.\<close>

definition HEAP_PAGES :: nat where "HEAP_PAGES = 12288"

definition boot_pages :: "kernel_meminfo \<Rightarrow> (u32 \<times> u32) list" where
  "boot_pages mi =
     map (\<lambda>j. (higher_half_base mi + of_nat j * 4096, of_nat j * 4096))
       [0..<(unat (virtual_end mi) - unat (higher_half_base mi) + 4095) div 4096] @
     map (\<lambda>j. (KERNEL_HEAP_VIRT_START + of_nat j * 4096, KERNEL_HEAP_PHYS_START + of_nat j * 4096)) [0..<HEAP_PAGES]"

lemma boot_loops: "map_heap_loop mi ctx 0 (map_kernel_loop mi ctx 0 s) = map_all mi ctx (boot_pages mi) s"
  using map_kernel_loop_map_all [OF refl, of 0 mi ctx s] map_heap_loop_map_all [of 0 mi ctx, folded HEAP_PAGES_def]
  by (simp add: boot_pages_def map_all_def)

text \<open>The page number of the \<open>j\<close>-th page of a linear mapping.\<close>

lemma page_number:
  assumes "paging_is_aligned base" and "unat base + j * 4096 < 2 ^ 32"
  shows "unat (base + of_nat j * 4096) div 4096 = unat base div 4096 + j"
proof -
  from assms(1) obtain b where b: "unat base = 4096 * b" by (auto simp: paging_is_aligned_unat)
  have "unat (of_nat j * 4096 :: u32) = j * 4096" using assms(2) by (simp add: unat_word_ariths unat_of_nat)
  with assms(2) b show ?thesis by (simp add: unat_word_ariths)
qed

definition meminfo_ok :: "kernel_meminfo \<Rightarrow> bool" where
  "meminfo_ok mi \<longleftrightarrow> paging_is_aligned (higher_half_base mi) \<and>
     higher_half_base mi \<le> virtual_end mi \<and> virtual_end mi \<le> KERNEL_HEAP_VIRT_START"

lemma boot_pages_distinct:
  assumes "meminfo_ok mi" shows "distinct (map (\<lambda>(va, pa). unat va div 4096) (boot_pages mi))"
proof -
  let ?n = "(unat (virtual_end mi) - unat (higher_half_base mi) + 4095) div 4096"
  have al: "paging_is_aligned (higher_half_base mi)" "paging_is_aligned KERNEL_HEAP_VIRT_START"
    using assms by (simp_all add: meminfo_ok_def paging_is_aligned_def c_const)
  have b: "unat (higher_half_base mi) \<le> unat (virtual_end mi)" "unat (virtual_end mi) \<le> 0xE0000000"
    using assms by (simp_all add: meminfo_ok_def word_le_nat_alt c_const)
  have lt: "unat (higher_half_base mi) + j * 4096 < unat (virtual_end mi)" if "j < ?n" for j
  proof -
    from that have "Suc j \<le> ?n" by simp
    then have "Suc j * 4096 \<le> unat (virtual_end mi) - unat (higher_half_base mi) + 4095"
      by (simp only: less_eq_div_iff_mult_less_eq zero_less_numeral)
    with b(1) show ?thesis by simp
  qed
  have k: "unat (higher_half_base mi + of_nat j * 4096) div 4096 = unat (higher_half_base mi) div 4096 + j" if "j < ?n" for j
    using lt [OF that] b(2) by (intro page_number [OF al(1)]) simp
  have h: "unat (KERNEL_HEAP_VIRT_START + of_nat j * 4096) div 4096 = 0xE0000 + j" if "j < HEAP_PAGES" for j
    using that page_number [OF al(2), of j] by (simp add: c_const HEAP_PAGES_def)
  let ?b = "unat (higher_half_base mi) div 4096"
  have kn: "?b + j < 0xE0000" if "j < ?n" for j
    using lt [OF that] b(2) al(1) by (auto simp: paging_is_aligned_unat elim!: dvdE)
  have "map (\<lambda>(va, pa). unat va div 4096) (boot_pages mi) =
      map (\<lambda>j. ?b + j) [0..<?n] @ map (\<lambda>j. 0xE0000 + j) [0..<HEAP_PAGES]"
    using k h by (simp add: boot_pages_def)
  moreover have "distinct (map (\<lambda>j. ?b + j) [0..<?n])" "distinct (map (\<lambda>j. 0xE0000 + j) [0..<HEAP_PAGES])"
    by (simp_all add: distinct_map)
  moreover have "set (map (\<lambda>j. ?b + j) [0..<?n]) \<inter> set (map (\<lambda>j. 0xE0000 + j) [0..<HEAP_PAGES]) = {}"
  proof (rule equals0I)
    fix x assume "x \<in> set (map (\<lambda>j. ?b + j) [0..<?n]) \<inter> set (map (\<lambda>j. 0xE0000 + j) [0..<HEAP_PAGES])"
    then obtain j i where "j < ?n" "x = ?b + j" "x = 0xE0000 + i"
      by (auto simp only: set_map set_upt image_iff atLeastLessThan_iff Int_iff)
    with kn show False by fastforce
  qed
  ultimately show ?thesis by (metis distinct_append)
qed

lemma init_paging_result:
  assumes "ctx_ok mi \<lparr>page_directory = pd, page_tables = pts\<rparr>" and "pd \<noteq> NULL" and "pts \<noteq> NULL"
  shows "\<exists>s0. init_paging mi slot pd pts s = ret (\<lparr>page_directory = pd, page_tables = pts\<rparr>,
     (set_entry pd 1023 (vmm_virtual_to_physical mi slot OR PAGE_FLAG_PRESENT OR PAGE_FLAG_WRITE)
       (map_all mi \<lparr>page_directory = pd, page_tables = pts\<rparr> (boot_pages mi) s0))
     \<lparr>cr3 := vmm_virtual_to_physical mi pd, ACTIVE_PAGING_CTX := \<lparr>page_directory = pd, page_tables = pts\<rparr>\<rparr>)"
  using assms(2,3)
  by (simp add: init_paging_def paging_create_page_directory_def boot_loops Let_def
      paging_set_page_directory_def PAGE_TABLE_SIZE_def) blast

lemma boot_page_maps_to:
  assumes ctx: "ctx_ok mi ctx" and mi: "meminfo_ok mi"
    and "paging_is_aligned base" and "paging_is_aligned phys" and "base \<le> v"
    and "unat phys + (unat v - unat base) < 2 ^ 32"
    and mem: "(base + of_nat ((unat v - unat base) div 4096) * 4096,
               phys + of_nat ((unat v - unat base) div 4096) * 4096) \<in> set (boot_pages mi)"
    and hi: "unat v < 0xFFC00000"
  shows "page_walk mi ((set_entry (page_directory ctx) 1023 e (map_all mi ctx (boot_pages mi) s0))
      \<lparr>cr3 := c, ACTIVE_PAGING_CTX := a\<rparr>) (page_directory ctx) v = Some (phys + (v - base), RW)"
proof -
  note lf = linear_frame [OF assms(3-6) refl]
  have "PAGE_DIRECTORY_INDEX v \<noteq> 1023" using hi directory_index_unat [of v] by auto
  then have "maps_to mi ctx (set_entry (page_directory ctx) 1023 e (map_all mi ctx (boot_pages mi) s0)) v
      (push_bit 12 (drop_bit 12 (phys + of_nat ((unat v - unat base) div 4096) * 4096))) RW"
    using map_all_maps_to [OF ctx boot_pages_distinct [OF mi] mem lf(1)]
    by (intro set_entry_maps_to [OF ctx])
  then have "maps_to mi ctx ((set_entry (page_directory ctx) 1023 e (map_all mi ctx (boot_pages mi) s0))
      \<lparr>cr3 := c, ACTIVE_PAGING_CTX := a\<rparr>) v
      (push_bit 12 (drop_bit 12 (phys + of_nat ((unat v - unat base) div 4096) * 4096))) RW"
    by (simp add: maps_to_def)
  from maps_to_walk [OF ctx this aligned_frame] lf(2) show ?thesis
    by (simp add: is_flags_def c_const)
qed

section \<open>The bootstrap directory\<close>

text \<open>Writes under pairwise distinct keys: each key holds its value, the others are untouched.\<close>

lemma fold_upd_notin:
  "d \<notin> k ` set js \<Longrightarrow> fold (\<lambda>j f. f(k j := g j)) js f d = f d"
  by (induction js arbitrary: f) auto

lemma fold_upd_in:
  "inj_on k (set js) \<Longrightarrow> distinct js \<Longrightarrow> j \<in> set js \<Longrightarrow> fold (\<lambda>j f. f(k j := g j)) js f (k j) = g j"
proof (induction js arbitrary: f)
  case (Cons i js)
  show ?case
  proof (cases "j \<in> set js")
    case True
    with Cons show ?thesis by simp
  next
    case False
    with Cons.prems have "j = i" "k i \<notin> k ` set js" by auto
    with fold_upd_notin [of "k i" k js g "f(k i := g i)"] show ?thesis
      by (simp only: fold_simps comp_apply fun_upd_same not_False_eq_True simp_thms)
  qed
qed simp

definition bootstrap_count :: "kernel_meminfo \<Rightarrow> nat" where
  "bootstrap_count mi = (unat (virtual_end mi) - unat (virtual_start mi) + 4194303) div 4194304"

abbreviation boot_va :: "kernel_meminfo \<Rightarrow> nat \<Rightarrow> u32" where
  "boot_va mi j \<equiv> virtual_start mi + of_nat j * 4194304"

abbreviation boot_entry :: "kernel_meminfo \<Rightarrow> nat \<Rightarrow> u32" where
  "boot_entry mi j \<equiv> push_bit 22 (PAGE_DIRECTORY_INDEX (physical_start mi + of_nat j * 4194304)) OR
     PAGE_FLAG_PRESENT OR PAGE_FLAG_PAGE_SIZE OR PAGE_FLAG_WRITE"

lemma bootstrap_count_iff:
  "j < bootstrap_count mi \<longleftrightarrow> unat (virtual_start mi) + j * 4194304 < unat (virtual_end mi)"
proof -
  have "j < bootstrap_count mi \<longleftrightarrow> Suc j * 4194304 \<le> unat (virtual_end mi) - unat (virtual_start mi) + 4194303"
    unfolding bootstrap_count_def by (simp only: Suc_le_eq [symmetric] less_eq_div_iff_mult_less_eq zero_less_numeral)
  then show ?thesis by auto
qed

lemma bootstrap_loop_fold:
  assumes "i \<le> bootstrap_count mi"
  shows "entries (bootstrap_loop mi (of_nat i) t) =
    fold (\<lambda>j f. f(PAGE_DIRECTORY_INDEX (boot_va mi j) := boot_entry mi j)) [i..<bootstrap_count mi] (entries t)"
  using assms
proof (induction "bootstrap_count mi - i" arbitrary: i t)
  have "unat (virtual_end mi) < 4294967296" by simp
  then have n10: "bootstrap_count mi \<le> 1024" unfolding bootstrap_count_def by linarith
  let ?pos = "\<lambda>b i. ucast (b mi) + of_nat i * 4194304 :: u64"
  have pos: "unat (?pos virtual_start i) = unat (virtual_start mi) + i * 4194304" if "i \<le> bootstrap_count mi" for i
  proof -
    have "unat (of_nat i * 4194304 :: u64) = i * 4194304"
      using that n10 by (simp add: unat_word_ariths unat_of_nat)
    moreover have "unat (virtual_start mi) < 4294967296" by simp
    ultimately show ?thesis using that n10 by (simp add: unat_word_ariths del: unat_u32_less)
  qed
  have cond: "?pos virtual_start i < ucast (virtual_end mi) \<longleftrightarrow> i < bootstrap_count mi" if "i \<le> bootstrap_count mi" for i
    using pos [OF that] by (simp add: word_less_nat_alt bootstrap_count_iff)
  {
    case 0
    then have "i = bootstrap_count mi" by simp
    then show ?case using cond [of "bootstrap_count mi"] by (subst bootstrap_loop.simps) simp
  next
    case (Suc d)
    then have lt: "i < bootstrap_count mi" by linarith
    let ?t = "t\<lparr>entries := (entries t)(PAGE_DIRECTORY_INDEX (boot_va mi i) := boot_entry mi i)\<rparr>"
    have "(ucast (?pos virtual_start i) :: u32) = boot_va mi i"
      "(ucast (?pos physical_start i) :: u32) = physical_start mi + of_nat i * 4194304"
      by (simp_all add: ucast_u32_simps)
    then have "bootstrap_loop mi (of_nat i) t = bootstrap_loop mi (of_nat (Suc i)) ?t"
      using cond [of i] lt by (subst bootstrap_loop.simps) (simp add: Let_def add.commute)
    moreover have "entries (bootstrap_loop mi (of_nat (Suc i)) ?t) =
        fold (\<lambda>j f. f(PAGE_DIRECTORY_INDEX (boot_va mi j) := boot_entry mi j)) [Suc i..<bootstrap_count mi] (entries ?t)"
      using Suc.hyps lt by (intro Suc.hyps(1)) auto
    ultimately show ?case using lt by (simp add: upt_conv_Cons)
  }
qed

lemma bootstrap_zeroed:
  assumes "d < PAGE_TABLE_SIZE"
  shows "entries (for_range 0 PAGE_TABLE_SIZE (\<lambda>i t. t\<lparr>entries := (entries t)(i := 0)\<rparr>) t) d = 0"
proof -
  have "\<forall>d :: u32. unat d < unat PAGE_TABLE_SIZE \<longrightarrow>
      entries (for_range 0 PAGE_TABLE_SIZE (\<lambda>i t. t\<lparr>entries := (entries t)(i := 0)\<rparr>) t) d = 0"
    by (rule for_range_invariant [where P = "\<lambda>n t. \<forall>d :: u32. unat d < n \<longrightarrow> entries t d = 0"])
      (auto simp: less_Suc_eq)
  with assms show ?thesis by (simp add: word_less_nat_alt)
qed

lemma bootstrap_directory_index:
  assumes "unat (virtual_start mi) + j * 4194304 < 2 ^ 32"
  shows "unat (PAGE_DIRECTORY_INDEX (boot_va mi j)) = unat (virtual_start mi) div 4194304 + j"
proof -
  have "unat (of_nat j * 4194304 :: u32) = j * 4194304"
    using assms by (simp add: unat_word_ariths unat_of_nat)
  with assms have "unat (boot_va mi j) = unat (virtual_start mi) + j * 4194304" by (simp add: unat_word_ariths)
  then show ?thesis by (simp add: directory_index_unat)
qed

lemma paging_bootstrap_entries:
  assumes "d < 1024"
  shows "entries (snd (paging_bootstrap mi a t)) d =
    (if unat (virtual_start mi) div 4194304 \<le> unat d \<and>
        unat d * 4194304 + unat (virtual_start mi) mod 4194304 < unat (virtual_end mi)
     then boot_entry mi (unat d - unat (virtual_start mi) div 4194304) else 0)"
proof -
  let ?k = "\<lambda>j. PAGE_DIRECTORY_INDEX (boot_va mi j)" and ?js = "[0..<bootstrap_count mi]"
  let ?q = "unat (virtual_start mi) div 4194304" and ?r = "unat (virtual_start mi) mod 4194304"
  have idx: "unat (?k j) = ?q + j" if "j < bootstrap_count mi" for j
    using that less_trans [OF _ unat_u32_less [of "virtual_end mi"]]
    by (intro bootstrap_directory_index) (simp add: bootstrap_count_iff del: unat_u32_less)
  then have inj: "inj_on ?k (set ?js)"
    by (intro inj_onI) (metis add_left_cancel atLeastLessThan_iff set_upt)
  have e: "entries (snd (paging_bootstrap mi a t)) = fold (\<lambda>j f. f(?k j := boot_entry mi j)) ?js
      (entries (for_range 0 PAGE_TABLE_SIZE (\<lambda>i t. t\<lparr>entries := (entries t)(i := 0)\<rparr>) t))"
    using bootstrap_loop_fold [of 0 mi] by (simp add: paging_bootstrap_def Let_def)
  have split: "unat (virtual_start mi) = ?q * 4194304 + ?r" by simp
  show ?thesis
  proof (cases "?q \<le> unat d \<and> unat d * 4194304 + ?r < unat (virtual_end mi)")
    case True
    then have "unat d - ?q < bootstrap_count mi"
      unfolding bootstrap_count_iff diff_mult_distrib using split by linarith
    with idx [OF this] True have "?k (unat d - ?q) = d" "unat d - ?q \<in> set ?js"
      by (auto intro: u32_eqI)
    with True fold_upd_in [OF inj _ this(2), where g = "boot_entry mi"] show ?thesis unfolding e by simp
  next
    case False
    have "d \<notin> ?k ` set ?js"
    proof
      assume "d \<in> ?k ` set ?js"
      then obtain j where j: "j < bootstrap_count mi" "d = ?k j" by auto
      with idx have "unat d = ?q + j" by simp
      moreover from j(1) have "?q * 4194304 + ?r + j * 4194304 < unat (virtual_end mi)"
        unfolding bootstrap_count_iff split [symmetric] .
      ultimately show False using False by (simp add: distrib_right)
    qed
    then show ?thesis unfolding e if_not_P [OF False] using assms
      by (subst fold_upd_notin) (simp_all add: bootstrap_zeroed [unfolded PAGE_TABLE_SIZE_def] PAGE_TABLE_SIZE_def)
  qed
qed

text \<open>The one-level walk with 4 MB pages: the directory entry holds the frame.\<close>

definition pse_walk :: "page_table \<Rightarrow> u32 \<Rightarrow> (u32 \<times> u32) option" where
  "pse_walk t v =
     (let pde = entries t (PAGE_DIRECTORY_INDEX v)
      in if pde AND PAGE_FLAG_PRESENT = 0 \<or> pde AND PAGE_FLAG_PAGE_SIZE = 0 then None
         else Some ((pde AND 0xFFC00000) OR (v AND 0x3FFFFF), pde AND 7))"

lemma large_mask: "(0x3FFFFF :: u32) = mask 22" "(0xFFC00000 :: u32) = NOT (mask 22)"
  by (simp_all add: mask_eq_exp_minus_1)

lemma large_page_split: "push_bit 22 (drop_bit 22 x) + take_bit 22 x = (x :: u32)"
proof -
  have "push_bit 22 (drop_bit 22 x) + take_bit 22 x = push_bit 22 (drop_bit 22 x) OR take_bit 22 x"
    by (rule disjunctive_add_eq_or, rule bit_word_eqI) (auto simp: bit_simps)
  also have "\<dots> = x" by (rule bit_word_eqI) (auto simp: bit_simps)
  finally show ?thesis .
qed

lemma boot_entry_frame:
  assumes "PAGE_DIRECTORY_INDEX (boot_va mi j) = PAGE_DIRECTORY_INDEX v"
    and "take_bit 22 (virtual_start mi) = take_bit 22 (physical_start mi)"
  shows "(boot_entry mi j AND 0xFFC00000) OR (v AND 0x3FFFFF) = v - virtual_start mi + physical_start mi"
    and "boot_entry mi j AND 7 = PAGE_FLAG_PRESENT OR PAGE_FLAG_WRITE"
    and "boot_entry mi j AND PAGE_FLAG_PRESENT \<noteq> 0" and "boot_entry mi j AND PAGE_FLAG_PAGE_SIZE \<noteq> 0"
proof -
  let ?p = "physical_start mi + of_nat j * 4194304" and ?f = "\<lambda>x :: u32. push_bit 22 (drop_bit 22 x)"
  have be: "boot_entry mi j = ?f ?p OR 0x83" by (simp add: PAGE_DIRECTORY_INDEX_def c_const or.assoc)
  have flags: "boot_entry mi j AND 0xFFC00000 = ?f ?p" "boot_entry mi j AND mask 22 = 0x83"
  proof -
    have m: "(0x83 :: u32) AND NOT (mask 22) = 0" "(0x83 :: u32) AND mask 22 = 0x83" by (simp_all add: mask_eq_exp_minus_1)
    have f: "?f ?p AND NOT (mask 22) = ?f ?p" "?f ?p AND mask 22 = 0"
      by (rule bit_word_eqI, auto simp: bit_simps)+
    show "boot_entry mi j AND 0xFFC00000 = ?f ?p" "boot_entry mi j AND mask 22 = 0x83"
      using m f by (simp_all add: be large_mask bit.conj_disj_distrib2)
  qed
  have low: "boot_entry mi j AND x = 0x83 AND x" if "x AND mask 22 = x" for x :: u32
  proof -
    have "boot_entry mi j AND (x AND mask 22) = (boot_entry mi j AND mask 22) AND x" by (simp only: ac_simps)
    with that flags(2) show ?thesis by (simp only:)
  qed
  show "boot_entry mi j AND 7 = PAGE_FLAG_PRESENT OR PAGE_FLAG_WRITE"
    "boot_entry mi j AND PAGE_FLAG_PRESENT \<noteq> 0" "boot_entry mi j AND PAGE_FLAG_PAGE_SIZE \<noteq> 0"
    using low [of 7] low [of 1] low [of 128] by (simp_all add: mask_eq_exp_minus_1 c_const)
  have t22: "take_bit 22 (x + of_nat j * 4194304) = take_bit 22 x" for x :: u32
  proof (rule u32_eqI)
    let ?y = "of_nat j * 4194304 :: u32"
    have "4194304 dvd unat ?y" by (simp add: unat_word_ariths dvd_mod)
    then obtain k where "unat ?y = 4194304 * k" by (elim dvdE)
    then have "unat (x + ?y) mod 4194304 = unat x mod 4194304"
      by (simp add: unat_word_ariths mod_mod_cancel)
    then show "unat (take_bit 22 (x + ?y)) = unat (take_bit 22 x)"
      by (simp add: take_bit_eq_mod unat_mod)
  qed
  have "?f v = ?f (boot_va mi j)" using assms(1) by (simp add: PAGE_DIRECTORY_INDEX_def c_const)
  then have fv: "?f v = boot_va mi j - take_bit 22 (virtual_start mi)"
    using large_page_split [of "boot_va mi j"] by (simp add: t22 eq_diff_eq)
  have fp: "?f ?p = ?p - take_bit 22 (physical_start mi)"
    using large_page_split [of ?p] by (simp add: t22 eq_diff_eq)
  have "?f ?p OR take_bit 22 v = ?f ?p + take_bit 22 v"
    by (rule disjunctive_add_eq_or [symmetric], rule bit_word_eqI) (auto simp: bit_simps)
  also have "\<dots> = v - virtual_start mi + physical_start mi"
    using large_page_split [of v] unfolding fp fv assms(2) by (simp add: algebra_simps)
  finally show "(boot_entry mi j AND 0xFFC00000) OR (v AND 0x3FFFFF) = v - virtual_start mi + physical_start mi"
    unfolding flags(1) by (simp add: large_mask take_bit_eq_mask)
qed

section \<open>Properties\<close>


definition example_meminfo :: kernel_meminfo where
  "example_meminfo = \<lparr>physical_start = 0x100000, physical_end = 0x400000,
     virtual_start = 0xC0100000, virtual_end = 0xC0400000,
     text_virtual_start = 0xC0106000, text_physical_start = 0xC0106000, text_virtual_end = 0xC010B000,
     rodata_virtual_start = 0xC010B000, rodata_physical_start = 0xC010B000, rodata_virtual_end = 0xC010D000,
     data_virtual_start = 0xC010D000, data_physical_start = 0xC010D000, data_virtual_end = 0xC010E000,
     bss_virtual_start = 0xC010E000, bss_physical_start = 0xC010E000, bss_virtual_end = 0xC0400000,
     higher_half_base = 0xC0000000, stack_top = 0xC0112000\<rparr>"

definition example_ctx :: paging_context where
  "example_ctx = \<lparr>page_directory = 0xC0200000, page_tables = 0xC0300000\<rparr>"

definition empty_paging :: paging_state where
  "empty_paging = \<lparr>tables = (\<lambda>_. \<lparr>entries = (\<lambda>_. 0)\<rparr>), cr3 = 0, ACTIVE_PAGING_CTX = example_ctx\<rparr>"

lemma example_ctx_ok: "ctx_ok example_meminfo example_ctx"
proof -
  have "0xC0300000 + i * 4096 \<noteq> (0xC0200000 :: u32)" if "i < 1024" for i :: u32
  proof
    have "unat (i * 4096) = unat i * 4096" using that by (simp add: unat_simps word_less_nat_alt)
    then have "unat (0xC0300000 + i * 4096) = 0xC0300000 + unat i * 4096"
      using that by (simp add: unat_simps word_less_nat_alt)
    moreover assume "0xC0300000 + i * 4096 = (0xC0200000 :: u32)"
    ultimately show False by simp
  qed
  then show ?thesis
    by (auto simp: ctx_ok_def example_ctx_def example_meminfo_def paging_is_aligned_def c_const)
qed


text \<open>The two loops of the initial directory, as the processor sees them.\<close>

lemma init_paging_walks:
  assumes "ctx_ok mi \<lparr>page_directory = pd, page_tables = pts\<rparr>" and "meminfo_ok mi"
    and "pd \<noteq> NULL" and "pts \<noteq> NULL"
  shows "\<exists>s'. init_paging mi slot pd pts s = ret (\<lparr>page_directory = pd, page_tables = pts\<rparr>, s') \<and>
    cr3 s' = vmm_virtual_to_physical mi pd \<and>
    (\<forall>v. higher_half_base mi \<le> v \<and> v < virtual_end mi \<longrightarrow>
       page_walk mi s' pd v = Some (v - higher_half_base mi, RW)) \<and>
    (\<forall>v. KERNEL_HEAP_VIRT_START \<le> v \<and> v < KERNEL_HEAP_VIRT_START + KERNEL_HEAP_SIZE \<longrightarrow>
       page_walk mi s' pd v = Some (KERNEL_HEAP_PHYS_START + (v - KERNEL_HEAP_VIRT_START), RW))"
proof -
  let ?ctx = "\<lparr>page_directory = pd, page_tables = pts\<rparr>"
  from init_paging_result [OF assms(1,3,4), of slot s] obtain s0 e where
    r: "init_paging mi slot pd pts s = ret (?ctx, (set_entry pd 1023 e (map_all mi ?ctx (boot_pages mi) s0))
      \<lparr>cr3 := vmm_virtual_to_physical mi pd, ACTIVE_PAGING_CTX := ?ctx\<rparr>)" (is "_ = ret (_, ?s')") by blast
  note walk = boot_page_maps_to [OF assms(1,2), simplified]
  have "page_walk mi ?s' pd v = Some (v - higher_half_base mi, RW)"
    if v: "higher_half_base mi \<le> v" "v < virtual_end mi" for v
  proof -
    have "(unat v - unat (higher_half_base mi)) div 4096 <
        (unat (virtual_end mi) - unat (higher_half_base mi) + 4095) div 4096"
      using v by (simp add: word_le_nat_alt word_less_nat_alt)
    moreover have "unat v < 0xE0000000"
      using v assms(2) by (simp add: meminfo_ok_def word_le_nat_alt word_less_nat_alt c_const)
    ultimately show ?thesis
      using walk [where base = "higher_half_base mi" and phys = 0 and v = v and e = e and ?s0.0 = s0] v assms(2)
      by (simp add: meminfo_ok_def paging_is_aligned_def boot_pages_def)
  qed
  moreover have "page_walk mi ?s' pd v = Some (KERNEL_HEAP_PHYS_START + (v - KERNEL_HEAP_VIRT_START), RW)"
    if v: "KERNEL_HEAP_VIRT_START \<le> v" "v < KERNEL_HEAP_VIRT_START + KERNEL_HEAP_SIZE" for v
  proof -
    have b: "0xE0000000 \<le> unat v" "unat v < 0xE3000000"
      using v by (simp_all add: word_le_nat_alt word_less_nat_alt c_const)
    then have "(unat v - unat KERNEL_HEAP_VIRT_START) div 4096 < HEAP_PAGES"
      by (simp add: HEAP_PAGES_def c_const)
    moreover have "paging_is_aligned KERNEL_HEAP_VIRT_START" "paging_is_aligned KERNEL_HEAP_PHYS_START"
      by (simp_all add: paging_is_aligned_def c_const)
    moreover have "unat KERNEL_HEAP_PHYS_START + (unat v - unat KERNEL_HEAP_VIRT_START) < 2 ^ 32"
      using b by (simp add: c_const)
    ultimately show ?thesis
      using walk [where base = KERNEL_HEAP_VIRT_START and phys = KERNEL_HEAP_PHYS_START and v = v and e = e and ?s0.0 = s0] v b
      by (simp add: boot_pages_def)
  qed
  ultimately show ?thesis using r by auto
qed

text \<open>C21. After \<open>init_paging\<close> the processor translates every address of the kernel image
  (\<open>higher_half_base\<close> up to \<open>virtual_end\<close>) linearly to physical memory from 0, and every heap
  address to the physical heap, both readable and writable; CR3 holds the directory.\<close>

theorem init_paging_translates:
  assumes "ctx_ok mi \<lparr>page_directory = pd, page_tables = pts\<rparr>" and "meminfo_ok mi"
    and "pd \<noteq> NULL" and "pts \<noteq> NULL"
  shows "\<exists>s'. init_paging mi slot pd pts s = ret (\<lparr>page_directory = pd, page_tables = pts\<rparr>, s') \<and>
    cr3 s' = vmm_virtual_to_physical mi pd \<and>
    (\<forall>v. higher_half_base mi \<le> v \<and> v < virtual_end mi \<longrightarrow>
       page_walk mi s' pd v = Some (v - higher_half_base mi, RW)) \<and>
    (\<forall>v. KERNEL_HEAP_VIRT_START \<le> v \<and> v < KERNEL_HEAP_VIRT_START + KERNEL_HEAP_SIZE \<longrightarrow>
       page_walk mi s' pd v = Some (KERNEL_HEAP_PHYS_START + (v - KERNEL_HEAP_VIRT_START), RW))"
  by (rule init_paging_walks [OF assms])


lemma example_meminfo_ok: "meminfo_ok example_meminfo"
  by (simp add: meminfo_ok_def example_meminfo_def paging_is_aligned_def c_const)

theorem init_paging_translates_witness:
  "\<exists>s'. init_paging example_meminfo 0xC0111FF0 0xC0200000 0xC0300000 empty_paging =
      ret (\<lparr>page_directory = 0xC0200000, page_tables = 0xC0300000\<rparr>, s') \<and>
    cr3 s' = 0x200000 \<and>
    page_walk example_meminfo s' 0xC0200000 0xC0106123 = Some (0x106123, 3) \<and>
    page_walk example_meminfo s' 0xC0200000 0xE0001234 = Some (KERNEL_HEAP_PHYS_START + 0x1234, 3)"
proof -
  from init_paging_translates [OF example_ctx_ok [unfolded example_ctx_def] example_meminfo_ok, of "0xC0111FF0" empty_paging]
  obtain s' where r: "init_paging example_meminfo 0xC0111FF0 0xC0200000 0xC0300000 empty_paging =
      ret (\<lparr>page_directory = 0xC0200000, page_tables = 0xC0300000\<rparr>, s')"
    and "cr3 s' = 0x200000"
    and k: "\<forall>v. 0xC0000000 \<le> v \<and> v < 0xC0400000 \<longrightarrow>
       page_walk example_meminfo s' 0xC0200000 v = Some (v - 0xC0000000, 3)"
    and h: "\<forall>v. 0xE0000000 \<le> v \<and> v < 0xE3000000 \<longrightarrow>
       page_walk example_meminfo s' 0xC0200000 v = Some (KERNEL_HEAP_PHYS_START + (v - 0xE0000000), 3)"
    by (auto simp: vmm_virtual_to_physical_def example_meminfo_def KERNEL_HEAP_VIRT_START_def
      KERNEL_HEAP_SIZE_def PAGE_FLAG_PRESENT_def PAGE_FLAG_WRITE_def)
  moreover have "page_walk example_meminfo s' 0xC0200000 0xC0106123 = Some (0xC0106123 - 0xC0000000, 3)"
    using k by (simp del: of_nat_numeral)
  moreover have "page_walk example_meminfo s' 0xC0200000 0xE0001234 =
      Some (KERNEL_HEAP_PHYS_START + (0xE0001234 - 0xE0000000), 3)"
    using h by simp
  ultimately show ?thesis by simp
qed

text \<open>C22. \<open>paging_unmap_addr\<close> removes the translation of the address, and with it that of every
  address of the same 4 MB directory entry; translations under other directory entries stay.\<close>

theorem paging_unmap_effect:
  assumes "ctx_ok mi ctx"
  shows "(unat v div 4194304 = unat w div 4194304 \<longrightarrow>
      page_walk mi (paging_unmap_addr mi ctx w s) (page_directory ctx) v = None) \<and>
    (unat v div 4194304 \<noteq> unat w div 4194304 \<and> maps_to mi ctx s v f flags \<longrightarrow>
      maps_to mi ctx (paging_unmap_addr mi ctx w s) v f flags)"
  using unmap_not_present [OF assms, of v w s] unmap_keeps_maps_to [OF assms, of v w s f flags]
  by (simp add: word_unat_eq_iff directory_index_unat)

theorem paging_unmap_effect_witness:
  "page_walk example_meminfo (paging_unmap_addr example_meminfo example_ctx 0x5000
      (paging_map_virtual_to_physical example_meminfo example_ctx 0x9000 0x7000 3 empty_paging))
     (page_directory example_ctx) 0x9123 = None"
  using paging_unmap_effect [OF example_ctx_ok, of "0x9123" "0x5000"] by simp

text \<open>The last directory entry \<open>init_paging\<close> installs points to the page of the stack variable
  that holds the directory's address, so unless that variable lies in the directory's own page the
  recursive mapping the comment describes is not there.\<close>

theorem init_paging_self_map:
  assumes "pd \<noteq> NULL" and "pts \<noteq> NULL" and "ctx_ok mi \<lparr>page_directory = pd, page_tables = pts\<rparr>"
  shows "\<exists>s'. init_paging mi slot pd pts s = ret (\<lparr>page_directory = pd, page_tables = pts\<rparr>, s') \<and>
    entries (tables s' pd) 1023 = (vmm_virtual_to_physical mi slot OR RW)"
proof -
  from init_paging_result [OF assms(3,1,2), of slot s] obtain s0 where
    "init_paging mi slot pd pts s = ret (\<lparr>page_directory = pd, page_tables = pts\<rparr>,
     (set_entry pd 1023 (vmm_virtual_to_physical mi slot OR PAGE_FLAG_PRESENT OR PAGE_FLAG_WRITE)
       (map_all mi \<lparr>page_directory = pd, page_tables = pts\<rparr> (boot_pages mi) s0))
     \<lparr>cr3 := vmm_virtual_to_physical mi pd, ACTIVE_PAGING_CTX := \<lparr>page_directory = pd, page_tables = pts\<rparr>\<rparr>)" by blast
  then show ?thesis by (simp add: set_entry_def or.assoc)
qed

theorem init_paging_self_map_witness:
  "\<exists>s'. init_paging example_meminfo 0xC0111FF0 0xC0200000 0xC0300000 empty_paging =
      ret (\<lparr>page_directory = 0xC0200000, page_tables = 0xC0300000\<rparr>, s') \<and>
    entries (tables s' 0xC0200000) 1023 = 0x111FF3"
  using init_paging_self_map [of "0xC0200000" "0xC0300000" example_meminfo "0xC0111FF0" empty_paging]
    example_ctx_ok [unfolded example_ctx_def]
  by (simp add: vmm_virtual_to_physical_def example_meminfo_def PAGE_FLAG_PRESENT_def PAGE_FLAG_WRITE_def)

lemma bootstrap_walk:
  assumes "4194304 dvd unat (virtual_end mi)"
    and "take_bit 22 (virtual_start mi) = take_bit 22 (physical_start mi)"
  shows "pse_walk (snd (paging_bootstrap mi a t)) v =
    (if unat (virtual_start mi) div 4194304 \<le> unat v div 4194304 \<and> v < virtual_end mi
     then Some (v - virtual_start mi + physical_start mi, PAGE_FLAG_PRESENT OR PAGE_FLAG_WRITE) else None)"
proof -
  let ?d = "PAGE_DIRECTORY_INDEX v" and ?j = "unat v div 4194304 - unat (virtual_start mi) div 4194304"
  have lim: "unat ?d * 4194304 + unat (virtual_start mi) mod 4194304 < unat (virtual_end mi) \<longleftrightarrow> v < virtual_end mi"
  proof -
    from assms(1) obtain k where k: "unat (virtual_end mi) = k * 4194304" by (auto elim: dvdE)
    have "unat v div 4194304 * 4194304 + unat (virtual_start mi) mod 4194304 < k * 4194304 \<longleftrightarrow> unat v div 4194304 < k"
      using mod_less_divisor [of 4194304 "unat (virtual_start mi)"] by linarith
    also have "\<dots> \<longleftrightarrow> unat v < k * 4194304" by (simp add: div_less_iff_less_mult)
    finally show ?thesis by (simp add: directory_index_unat word_less_nat_alt k)
  qed
  note e = paging_bootstrap_entries [OF directory_index_less, of mi a t v, unfolded lim, unfolded directory_index_unat]
  show ?thesis
  proof (cases "unat (virtual_start mi) div 4194304 \<le> unat v div 4194304 \<and> v < virtual_end mi")
    case True
    with lim have "unat v div 4194304 * 4194304 + unat (virtual_start mi) mod 4194304 < unat (virtual_end mi)"
      by (simp add: directory_index_unat)
    with True have "unat (virtual_start mi) + ?j * 4194304 < unat (virtual_end mi)"
      using div_mod_decomp [of "unat (virtual_start mi)" 4194304] unfolding diff_mult_distrib by linarith
    then have "unat (virtual_start mi) + ?j * 4194304 < 2 ^ 32"
      using less_trans [OF _ unat_u32_less] by simp
    from bootstrap_directory_index [OF this] True have "PAGE_DIRECTORY_INDEX (boot_va mi ?j) = ?d"
      by (intro u32_eqI) (simp only: directory_index_unat le_add_diff_inverse)
    from boot_entry_frame [OF this assms(2)] True e show ?thesis
      by (simp add: pse_walk_def Let_def)
  next
    case False
    with e show ?thesis by (auto simp: pse_walk_def)
  qed
qed

text \<open>The directory \<open>paging_bootstrap\<close> builds maps the kernel linearly with 4 MB pages: with the
  kernel's end on a 4 MB boundary and its virtual and physical start at the same offset in a 4 MB
  page, every address of the kernel's 4 MB pages is translated by the distance of the two starts,
  writable, and no other address is translated.\<close>

theorem paging_bootstrap_translates:
  assumes "4194304 dvd unat (virtual_end mi)"
    and "take_bit 22 (virtual_start mi) = take_bit 22 (physical_start mi)"
  shows "pse_walk (snd (paging_bootstrap mi a t)) v =
    (if unat (virtual_start mi) div 4194304 \<le> unat v div 4194304 \<and> v < virtual_end mi
     then Some (v - virtual_start mi + physical_start mi, PAGE_FLAG_PRESENT OR PAGE_FLAG_WRITE) else None)"
  by (rule bootstrap_walk [OF assms])

theorem paging_bootstrap_translates_witness:
  "pse_walk (snd (paging_bootstrap example_meminfo 0x101000 \<lparr>entries = (\<lambda>_. 7)\<rparr>)) 0xC0106123 = Some (0x106123, 3) \<and>
   pse_walk (snd (paging_bootstrap example_meminfo 0x101000 \<lparr>entries = (\<lambda>_. 7)\<rparr>)) 0xC0400000 = None"
  using paging_bootstrap_translates [of example_meminfo "0x101000" "\<lparr>entries = (\<lambda>_. 7)\<rparr>"]
  by (simp add: example_meminfo_def take_bit_eq_mod c_const)

text \<open>\<open>paging_page_count\<close> is the number of pages a size needs, rounded up, except for sizes in
  the last page of the address space, where the addition wraps around and the count is 0.\<close>

theorem paging_page_count_ceiling:
  "unat (paging_page_count sz) = (if sz \<le> 0xFFFFF000 then (unat sz + 4095) div 4096 else 0)"
proof (cases "sz \<le> 0xFFFFF000")
  case True
  then have "unat (sz + 4095) = unat sz + 4095" by (simp add: word_le_nat_alt unat_word_ariths)
  then have "unat (4095 + sz) = unat sz + 4095" by (simp add: add.commute)
  with True show ?thesis by (simp add: paging_page_count_def c_const unat_div)
next
  case False
  then have "unat sz \<ge> 0xFFFFF001" by (simp add: word_le_nat_alt)
  moreover have "unat sz < 4294967296" by simp
  ultimately have "unat (sz + 4095) = unat sz + 4095 - 4294967296"
    by (simp add: unat_word_ariths le_mod_geq) (simp only: mod_less less_imp_diff_less unat_u32_less)
  then have "unat (4095 + sz) = unat sz + 4095 - 4294967296" by (simp add: add.commute)
  moreover have "unat sz + 4095 - 4294967296 < 4096" using \<open>unat sz < 4294967296\<close> by linarith
  ultimately show ?thesis using False by (simp add: paging_page_count_def c_const unat_div)
qed

end
