(* ===== verification/Cstring.thy ===== *)
theory Cstring
  imports Kernel_Prelude
begin

text \<open>
  Byte memory and the kernel's string library, \<^verbatim>\<open>src/kernel/string/*.c\<close>. Multi-byte loads and
  stores are little-endian, as on the i386. \<open>cstr m s xs\<close> says that the NUL-terminated string at
  \<open>s\<close> has the bytes \<open>xs\<close>; the lemmas state what the library functions do to such strings.
\<close>

section \<open>Loads and stores\<close>

definition load_u16 :: "mem \<Rightarrow> u32 \<Rightarrow> u16" where
  "load_u16 m a = ucast (m a) OR push_bit 8 (ucast (m (a + 1)))"

definition load_u32 :: "mem \<Rightarrow> u32 \<Rightarrow> u32" where
  "load_u32 m a = ucast (m a) OR push_bit 8 (ucast (m (a + 1))) OR
     push_bit 16 (ucast (m (a + 2))) OR push_bit 24 (ucast (m (a + 3)))"

definition load_u64 :: "mem \<Rightarrow> u32 \<Rightarrow> u64" where
  "load_u64 m a = ucast (load_u32 m a) OR push_bit 32 (ucast (load_u32 m (a + 4)))"

definition store_u32 :: "u32 \<Rightarrow> u32 \<Rightarrow> mem \<Rightarrow> mem" where
  "store_u32 a v m = m(a := ucast v, a + 1 := ucast (drop_bit 8 v),
     a + 2 := ucast (drop_bit 16 v), a + 3 := ucast (drop_bit 24 v))"

section \<open>The functions\<close>

definition memcpy :: "u32 \<Rightarrow> u32 \<Rightarrow> u32 \<Rightarrow> mem \<Rightarrow> u32 \<times> mem" where
  "memcpy destination source num m =
     (let to = destination; from = source
      in (to, for_range 0 num (\<lambda>i m. m(to + i := m (from + i))) m))"

definition memset :: "u32 \<Rightarrow> u32 \<Rightarrow> u32 \<Rightarrow> mem \<Rightarrow> u32 \<times> mem" where
  "memset ptr value num m = (ptr, for_range 0 num (\<lambda>i m. m(ptr + i := ucast value)) m)"

definition memmove :: "u32 \<Rightarrow> u32 \<Rightarrow> u32 \<Rightarrow> mem \<Rightarrow> u32 \<times> mem" where
  "memmove destination source num m = (destination, m)"

text \<open>The difference of two bytes is narrowed to a (signed) \<^verbatim>\<open>char\<close> before it is returned as an \<^verbatim>\<open>int\<close>.\<close>

function memcmp_loop :: "u32 \<Rightarrow> u32 \<Rightarrow> u32 \<Rightarrow> u32 \<Rightarrow> mem \<Rightarrow> int" where
  "memcmp_loop p1 p2 i num m =
     (if i < num
      then let v = m (p1 + i) - m (p2 + i)
           in if v \<noteq> 0 then sint v else memcmp_loop p1 p2 (i + 1) num m
      else 0)"
  by pat_completeness auto
termination
  by (relation "measure (\<lambda>(p1, p2, i, num, m). unat num - unat i)")
    (auto simp: unat_Suc_less word_less_nat_alt diff_less_mono2)

declare memcmp_loop.simps [simp del]

definition memcmp :: "u32 \<Rightarrow> u32 \<Rightarrow> u32 \<Rightarrow> mem \<Rightarrow> int" where
  "memcmp ptr1 ptr2 num m = memcmp_loop ptr1 ptr2 0 num m"

partial_function (option) strlen_loop :: "mem \<Rightarrow> u32 \<Rightarrow> u32 \<Rightarrow> u32 option" where [code]:
  "strlen_loop m s len = (if m (s + len) \<noteq> 0 then strlen_loop m s (len + 1) else Some len)"

definition strlen :: "mem \<Rightarrow> u32 \<Rightarrow> u32 option" where
  "strlen m s = strlen_loop m s 0"

text \<open>
  The indices of \<^verbatim>\<open>strrev\<close> are of type \<^verbatim>\<open>int\<close>; they move towards each other and never overflow, so
  they are integers here. The swap is the three exclusive-ors of the source.
\<close>

definition xor_swap :: "u32 \<Rightarrow> int \<Rightarrow> int \<Rightarrow> mem \<Rightarrow> mem" where
  "xor_swap s i j m =
     (let a = s + of_int i; b = s + of_int j;
          m1 = m(a := m a XOR m b);
          m2 = m1(b := m1 a XOR m1 b)
      in m2(a := m2 a XOR m2 b))"

function strrev_loop :: "u32 \<Rightarrow> int \<Rightarrow> int \<Rightarrow> mem \<Rightarrow> mem" where
  "strrev_loop s i j m = (if i > j then strrev_loop s (i - 1) (j + 1) (xor_swap s i j m) else m)"
  by pat_completeness auto
termination
  by (relation "measure (\<lambda>(s, i, j, m). nat (i - j))") auto

declare strrev_loop.simps [simp del]

definition strrev :: "u32 \<Rightarrow> mem \<Rightarrow> (u32 \<times> mem) option" where
  "strrev s m =
     (case strlen m s of None \<Rightarrow> None
      | Some len \<Rightarrow> Some (s, strrev_loop s (sint (len - 1)) 0 m))"

definition islower :: "u8 \<Rightarrow> bool" where
  "islower c \<longleftrightarrow> sint c \<ge> 97 \<and> sint c \<le> 122"

definition toupper :: "u8 \<Rightarrow> u8" where
  "toupper c = (if islower c then c + (65 - 97) else c)"

partial_function (option) strupper_loop :: "u32 \<Rightarrow> u32 \<Rightarrow> mem \<Rightarrow> mem option" where [code]:
  "strupper_loop s i m =
     (case strlen m s of None \<Rightarrow> None
      | Some len \<Rightarrow>
          if i < len
          then strupper_loop s (i + 1)
                 (if islower (m (s + i)) then m(s + i := toupper (m (s + i))) else m)
          else Some m)"

definition strupper :: "u32 \<Rightarrow> mem \<Rightarrow> (u32 \<times> mem) option" where
  "strupper s m = (case strupper_loop s 0 m of None \<Rightarrow> None | Some m' \<Rightarrow> Some (s, m'))"

section \<open>Strings in memory\<close>

text \<open>The bytes of a region, and the addresses it occupies.\<close>

definition bytes_at :: "mem \<Rightarrow> u32 \<Rightarrow> nat \<Rightarrow> u8 list" where
  "bytes_at m s n = map (\<lambda>k. m (s + of_nat k)) [0..<n]"

definition span :: "u32 \<Rightarrow> nat \<Rightarrow> u32 set" where
  "span s n = (\<lambda>k. s + of_nat k) ` {..<n}"

definition cstr :: "mem \<Rightarrow> u32 \<Rightarrow> u8 list \<Rightarrow> bool" where
  "cstr m s xs \<longleftrightarrow> bytes_at m s (length xs) = xs \<and> 0 \<notin> set xs \<and>
     m (s + of_nat (length xs)) = 0 \<and> length xs < 2 ^ 31"

lemma load_store_u32 [simp]: "load_u32 (store_u32 a v m) a = v"
proof -
  have ne: "a + 1 \<noteq> a" "a + 2 \<noteq> a" "a + 3 \<noteq> a" "a + 1 \<noteq> a + 2" "a + 1 \<noteq> a + 3" "a + 2 \<noteq> a + 3" by simp_all
  have high_bit: "n - 16 < 8" if "bit v n" "\<not> bit v (24 + (n - 24))" for n
    using that by (cases "24 \<le> n") auto
  show ?thesis unfolding load_u32_def store_u32_def
    by (rule bit_word_eqI) (auto simp: bit_simps ne dest: high_bit)
qed

lemma store_u32_elsewhere: "4 \<le> unat (x - a) \<Longrightarrow> store_u32 a v m x = m x"
  by (auto simp: store_u32_def)

lemma sum_mod_eq: "(x :: nat) < n \<Longrightarrow> y < n \<Longrightarrow> 0 < x \<Longrightarrow> (x + y) mod n = 0 \<Longrightarrow> x + y = n"
  by (cases "x + y < n") (auto simp: le_mod_geq)

lemma load_store_u32_other:
  assumes "4 \<le> unat (b - a)" and "4 \<le> unat (a - b)"
  shows "load_u32 (store_u32 a v m) b = load_u32 m b"
proof -
  have "unat ((b - a) + (a - b)) = (unat (b - a) + unat (a - b)) mod 4294967296"
    by (simp only: unat_word_ariths) simp
  then have "(unat (b - a) + unat (a - b)) mod 4294967296 = 0" by simp
  moreover have "unat (b - a) < 4294967296" "unat (a - b) < 4294967296" by simp_all
  ultimately have lim: "unat (b - a) + unat (a - b) = 4294967296"
    using assms by (intro sum_mod_eq) linarith+
  have "4 \<le> unat (b + of_nat j - a)" if "j < 4" for j
  proof -
    have "unat (b - a + of_nat j) = unat (b - a) + j" using lim assms that by (simp add: unat_word_ariths unat_of_nat)
    then show ?thesis using assms(1) by (simp add: algebra_simps)
  qed
  from this [of 0] this [of 1] this [of 2] this [of 3] show ?thesis
    by (simp add: load_u32_def store_u32_elsewhere)
qed

lemma span_iff: "n \<le> 4294967296 \<Longrightarrow> x \<in> span a n \<longleftrightarrow> unat (x - a) < n"
proof
  assume n: "n \<le> 4294967296" and "x \<in> span a n"
  then obtain k where "k < n" "x = a + of_nat k" by (auto simp: span_def)
  then show "unat (x - a) < n" using n by (simp add: unat_of_nat)
next
  assume "unat (x - a) < n"
  moreover have "x = a + of_nat (unat (x - a))" by simp
  ultimately show "x \<in> span a n" unfolding span_def by blast
qed

lemma unat_minus_pair:
  assumes "x \<noteq> (y :: u32)" shows "unat (x - y) + unat (y - x) = 4294967296"
proof -
  have "unat ((x - y) + (y - x)) = (unat (x - y) + unat (y - x)) mod 4294967296" by (simp only: unat_word_ariths) simp
  then have "4294967296 dvd unat (x - y) + unat (y - x)" by (simp add: mod_0_imp_dvd)
  moreover have "0 < unat (x - y)" using assms by (simp add: unat_gt_0)
  moreover have "unat (x - y) < 4294967296" "unat (y - x) < 4294967296" by simp_all
  moreover from calculation(1) obtain k where "unat (x - y) + unat (y - x) = 4294967296 * k" ..
  ultimately have "unat (x - y) + unat (y - x) = 4294967296 * k" "0 < k" "k < 2" by linarith+
  then show ?thesis by (simp add: less_2_cases_iff)
qed

lemma span_disjoint:
  assumes "n \<le> unat (b - a)" and "m \<le> unat (a - b)" and "n \<le> 4294967296" and "m \<le> 4294967296"
  shows "span a n \<inter> span b m = {}"
proof -
  have False if x: "x \<in> span a n" "x \<in> span b m" for x
  proof -
    have u: "unat (x - a) < n" "unat (x - b) < m" using x assms(3,4) by (simp_all add: span_iff)
    then have ne: "x \<noteq> b" "a \<noteq> b" using assms(1) by auto
    have "unat ((b - a) - (x - a)) = unat (b - a) - unat (x - a)"
      using u(1) assms(1) by (intro unat_sub) (simp add: word_le_nat_alt)
    then show False
      using unat_minus_pair [OF ne(1)] unat_minus_pair [OF ne(2)] u assms(1,2) by simp
  qed
  then show ?thesis by blast
qed

lemma load_u32_cong:
  assumes "\<And>x. x \<in> span a 4 \<Longrightarrow> m x = m' x" shows "load_u32 m a = load_u32 m' a"
  using assms [of a] assms [of "a + 1"] assms [of "a + 2"] assms [of "a + 3"] by (simp add: load_u32_def span_iff)

text \<open>A store inside a range leaves what is outside the range alone.\<close>

lemma store_u32_outside:
  assumes "x \<notin> span a n" and "c + 4 \<le> n" and "n < 4294967296"
  shows "store_u32 (a + of_nat c) v m x = m x"
proof -
  from assms have d: "n \<le> unat (x - a)" by (simp add: span_iff)
  have "unat (x - (a + of_nat c)) = unat (x - a) - c"
  proof -
    have u: "unat (of_nat c :: u32) = c" using assms by (simp add: unat_of_nat)
    then have "of_nat c \<le> x - a" using d assms(2) by (simp add: word_le_nat_alt)
    from unat_sub [OF this] u show ?thesis by (simp add: diff_diff_eq)
  qed
  then show ?thesis using d assms(2) by (intro store_u32_elsewhere) simp
qed

lemma length_bytes_at [simp]: "length (bytes_at m s n) = n"
  by (simp add: bytes_at_def)

lemma bytes_at_nth [simp]: "k < n \<Longrightarrow> bytes_at m s n ! k = m (s + of_nat k)"
  by (simp add: bytes_at_def)

lemma of_nat_u32_inject [simp]:
  assumes "i < 4294967296" and "j < 4294967296"
  shows "(of_nat i :: u32) = of_nat j \<longleftrightarrow> i = j"
  using assms by (simp add: word_of_nat_eq_iff take_bit_nat_eq_self)

lemma offset_cases: obtains k where "k < 4294967296" and "(a :: u32) = s + of_nat k"
proof
  show "unat (a - s) < 4294967296" by simp
  show "a = s + of_nat (unat (a - s))" by simp
qed

lemma offset_unat:
  assumes "n < 4294967296" shows "(a :: u32) = s + of_nat n \<longleftrightarrow> unat (a - s) = n"
proof -
  have "a = s + of_nat n \<longleftrightarrow> a - s = of_nat n" by (auto simp: algebra_simps)
  also have "\<dots> \<longleftrightarrow> unat (a - s) = n" using assms by (simp add: word_unat_eq_iff unat_of_nat)
  finally show ?thesis .
qed

lemma span_offset [simp]:
  assumes "n \<le> 4294967296" and "k < 4294967296"
  shows "s + of_nat k \<in> span s n \<longleftrightarrow> k < n"
proof
  assume "s + of_nat k \<in> span s n"
  then obtain j where "j < n" "s + of_nat k = s + of_nat j" by (auto simp: span_def)
  with assms show "k < n" by simp
qed (auto simp: span_def)

lemma cstr_iff:
  "cstr m s xs \<longleftrightarrow> (\<forall>k < length xs. m (s + of_nat k) = xs ! k) \<and> 0 \<notin> set xs \<and>
     m (s + of_nat (length xs)) = 0 \<and> length xs < 2147483648"
  by (auto simp: cstr_def list_eq_iff_nth_eq)

lemma span_Suc: "span a (Suc n) = insert a (span (a + 1) n)"
  by (simp add: span_def lessThan_Suc_eq_insert_0 image_image add.assoc)

lemma pred_notin_span:
  assumes "n < 4294967296" shows "a \<notin> span (a + 1) n"
proof -
  have "1 + of_nat 4294967295 = (0 :: u32)" by simp
  then have "a = (a + 1) + of_nat 4294967295" by (simp only: add.assoc add_0_right)
  moreover have "(a + 1) + of_nat 4294967295 \<notin> span (a + 1) n" using assms by (subst span_offset) simp_all
  ultimately show ?thesis by argo
qed

lemma cstr_Cons:
  "cstr m s (x # xs) \<longleftrightarrow> m s = x \<and> x \<noteq> 0 \<and> cstr m (s + 1) xs \<and> length xs < 2147483647"
  by (auto simp: cstr_iff All_less_Suc2 add.assoc)

lemma strlen_cstr:
  assumes "cstr m s xs" shows "strlen m s = Some (of_nat (length xs))"
proof -
  have "strlen_loop m s (of_nat k) = Some (of_nat (length xs))" if "k \<le> length xs" for k
    using that
  proof (induction "length xs - k" arbitrary: k)
    case 0
    then have "k = length xs" by simp
    with assms show ?case by (simp add: strlen_loop.simps cstr_iff)
  next
    case (Suc d)
    then have k: "k < length xs" by linarith
    with assms have "m (s + of_nat k) \<noteq> 0" by (auto simp: cstr_iff) (metis nth_mem)
    with Suc k show ?case by (subst strlen_loop.simps) (use Suc.hyps(1) [of "Suc k"] in \<open>auto simp: add.commute\<close>)
  qed
  from this [of 0] show ?thesis by (simp add: strlen_def)
qed

lemma xor_cancel: "(x XOR y) XOR x = (y :: u8)" "x XOR (y XOR x) = y" "(x XOR y) XOR y = x"
  by (rule bit_word_eqI, auto simp: bit_simps)+

lemma xor_swap_eq:
  assumes "s + of_int i \<noteq> s + of_int j"
  shows "xor_swap s i j m = m(s + of_int i := m (s + of_int j), s + of_int j := m (s + of_int i))"
  using assms by (auto simp: xor_swap_def Let_def fun_eq_iff xor_cancel)

lemma of_int_offset: "0 \<le> i \<Longrightarrow> (of_int i :: u32) = of_nat (nat i)"
  by simp

lemma strrev_loop_nth:
  assumes "0 \<le> j" and "i < 2147483648" and "k < 4294967296"
  shows "strrev_loop s i j m (s + of_nat k) =
    (if j \<le> int k \<and> int k \<le> i then m (s + of_nat (nat (i + j - int k))) else m (s + of_nat k))"
  using assms
proof (induction s i j m rule: strrev_loop.induct)
  case (1 s i j m)
  show ?case
  proof (cases "i > j")
    case True
    define p q where "p = nat j" and "q = nat i"
    have pq: "p < q" "j = int p" "i = int q" "q < 2147483648" using True 1 by (auto simp: p_def q_def)
    have sw: "xor_swap s i j m = m(s + of_nat q := m (s + of_nat p), s + of_nat p := m (s + of_nat q))"
      using pq xor_swap_eq [of s i j m] by simp
    have step: "strrev_loop s i j m (s + of_nat k) =
      (if p < k \<and> k < q then xor_swap s i j m (s + of_nat (nat (i + j - int k))) else xor_swap s i j m (s + of_nat k))"
      using 1(1) True 1(2-) pq(2,3) by (subst strrev_loop.simps) auto
    consider "k = p" | "k = q" | "p < k" "k < q" | "k < p \<or> q < k" by linarith
    then show ?thesis
    proof cases
      case 3
      define r where "r = nat (i + j - int k)"
      have r: "i + j - int k = int r" "r \<noteq> p" "r \<noteq> q" "r < 4294967296" using 3 pq by (auto simp: r_def)
      have "xor_swap s i j m (s + of_nat r) = m (s + of_nat r)" unfolding sw using r pq by simp
      with 3 pq show ?thesis unfolding step r(1) by simp
    next
      case 4
      then have "\<not> (p < k \<and> k < q)" "\<not> (j \<le> int k \<and> int k \<le> i)" "k \<noteq> p" "k \<noteq> q" using pq by auto
      then show ?thesis unfolding step sw using pq 1(4) by auto
    qed (unfold step sw, use pq in auto)+
  next
    case False
    then have "nat (i + j - int k) = k" if "j \<le> int k" "int k \<le> i" using that by auto
    with False show ?thesis by (subst strrev_loop.simps) auto
  qed
qed

text \<open>A signed length below \<open>2 ^ 31\<close> survives the conversion to \<^verbatim>\<open>int\<close>.\<close>

lemma sint_length_minus_one:
  assumes "n < 2147483648" shows "sint (of_nat n - 1 :: u32) = int n - 1"
proof -
  have "(of_nat n - 1 :: u32) = word_of_int (int n - 1)" by simp
  then show ?thesis using assms by (simp only: sint_sbintrunc') (simp add: signed_take_bit_int_eq_self)
qed

lemma strrev_cstr:
  assumes "cstr m s xs"
  shows "\<exists>m'. strrev s m = Some (s, m') \<and> cstr m' s (rev xs) \<and> (\<forall>a. a \<notin> span s (length xs) \<longrightarrow> m' a = m a)"
proof (intro exI conjI allI impI)
  let ?n = "length xs"
  let ?m' = "strrev_loop s (int ?n - 1) 0 m"
  have n: "?n < 2147483648" using assms by (simp add: cstr_iff)
  show "strrev s m = Some (s, ?m')"
    using n by (simp add: strrev_def strlen_cstr [OF assms] sint_length_minus_one)
  have nth: "?m' (s + of_nat k) = (if k < ?n then m (s + of_nat (?n - 1 - k)) else m (s + of_nat k))"
    if "k < 4294967296" for k
    using strrev_loop_nth [of 0 "int ?n - 1" k s m] that n by (auto simp: nat_diff_distrib)
  then show "?m' a = m a" if "a \<notin> span s ?n" for a
    using that n by (cases a rule: offset_cases [of _ s]) auto
  show "cstr ?m' s (rev xs)"
    using assms n nth by (auto simp: cstr_iff rev_nth simp del: of_nat_diff)
qed

text \<open>A forward copy is right unless the destination starts inside the source, behind its start.\<close>

lemma memcpy_bytes:
  assumes "dst = src \<or> num \<le> dst - src"
  shows "snd (memcpy dst src num m) a = (if a - dst < num then m (src + (a - dst)) else m a)"
proof -
  let ?body = "\<lambda>i m. m(dst + i := m (src + i))"
  define P where "P n m' \<longleftrightarrow> (\<forall>a. m' a = (if unat (a - dst) < n then m (src + (a - dst)) else m a))"
    for n and m' :: mem
  have "P (unat num) (for_range 0 num ?body m)"
  proof (rule for_range_invariant [where P = P])
    show "P (unat (0 :: u32)) m" by (simp add: P_def)
    fix n m' assume n: "n < unat num" and P: "P n m'"
    have un: "unat (of_nat n :: u32) = n" using n less_trans [OF n unat_u32_less] by (simp add: unat_of_nat)
    have "\<not> unat (src + of_nat n - dst) < n"
    proof (cases "dst = src")
      case False
      with assms have "num \<le> dst - src" by simp
      then have d: "unat num \<le> unat (dst - src)" by (simp add: word_le_nat_alt)
      have e: "src + of_nat n - dst = of_nat n - (dst - src)" by (simp add: algebra_simps)
      have "unat (of_nat n - (dst - src)) = (if unat (dst - src) \<le> n then n - unat (dst - src) else n + 2 ^ 32 - unat (dst - src))"
        using un by (simp add: unat_sub_if_size word_size)
      then have "unat (src + of_nat n - dst) = n + 2 ^ 32 - unat (dst - src)" unfolding e using d n by simp
      then show ?thesis using unat_u32_less [of "dst - src"] by (simp del: unat_u32_less)
    qed (simp add: un)
    with P have r: "m' (src + of_nat n) = m (src + of_nat n)" by (simp add: P_def)
    show "P (Suc n) (?body (of_nat n) m')"
      unfolding P_def
    proof
      fix a
      have "a = dst + of_nat n \<longleftrightarrow> unat (a - dst) = n"
        using less_trans [OF n unat_u32_less] by (rule offset_unat)
      with P r show "(?body (of_nat n) m') a = (if unat (a - dst) < Suc n then m (src + (a - dst)) else m a)"
        by (auto simp: P_def)
    qed
  qed simp
  then show ?thesis by (simp add: memcpy_def P_def word_less_nat_alt)
qed

lemma memset_bytes:
  "snd (memset ptr value num m) a = (if a - ptr < num then ucast value else m a)"
proof -
  define P where "P n m' \<longleftrightarrow> (\<forall>a. m' a = (if unat (a - ptr) < n then ucast value else m a))"
    for n and m' :: mem
  have "P (unat num) (for_range 0 num (\<lambda>i m. m(ptr + i := ucast value)) m)"
  proof (rule for_range_invariant [where P = P])
    show "P (unat (0 :: u32)) m" by (simp add: P_def)
    fix n m' assume n: "n < unat num" and P: "P n m'"
    have "a = ptr + of_nat n \<longleftrightarrow> unat (a - ptr) = n" for a
      using less_trans [OF n unat_u32_less] by (rule offset_unat)
    with P show "P (Suc n) (m'(ptr + of_nat n := ucast value))" by (auto simp: P_def)
  qed simp
  then show ?thesis by (simp add: memset_def P_def word_less_nat_alt)
qed

text \<open>\<open>memcmp\<close> stops at the first difference.\<close>

lemma memcmp_first_diff:
  assumes "k < unat num" and "\<forall>j < k. m (p1 + of_nat j) = m (p2 + of_nat j)"
    and "m (p1 + of_nat k) \<noteq> m (p2 + of_nat k)"
  shows "memcmp p1 p2 num m = sint (m (p1 + of_nat k) - m (p2 + of_nat k))"
proof -
  have lt: "of_nat i < num" if "i \<le> k" for i
    using that assms(1) less_trans [OF _ unat_u32_less, of k num]
    by (simp add: word_less_nat_alt unat_of_nat)
  have "memcmp_loop p1 p2 (of_nat i) num m = sint (m (p1 + of_nat k) - m (p2 + of_nat k))" if "i \<le> k" for i
    using that
  proof (induction "k - i" arbitrary: i)
    case 0
    then have "i = k" by simp
    with lt [of k] assms(3) show ?case by (subst memcmp_loop.simps) simp
  next
    case (Suc d)
    then have "i < k" by linarith
    with Suc lt [of i] assms(2) show ?case
      by (subst memcmp_loop.simps) (use Suc.hyps(1) [of "Suc i"] in \<open>simp add: add.commute\<close>)
  qed
  from this [of 0] show ?thesis by (simp add: memcmp_def)
qed

lemma memcmp_equal:
  assumes "\<forall>j < unat num. m (p1 + of_nat j) = m (p2 + of_nat j)"
  shows "memcmp p1 p2 num m = 0"
proof -
  have "memcmp_loop p1 p2 (of_nat i) num m = 0" if "i \<le> unat num" for i
    using that
  proof (induction "unat num - i" arbitrary: i)
    case 0
    then have "i = unat num" by simp
    then show ?case by (subst memcmp_loop.simps) simp
  next
    case (Suc d)
    then have i: "i < unat num" by linarith
    then have "of_nat i < num" using less_trans [OF i unat_u32_less] by (simp add: word_less_nat_alt unat_of_nat)
    with Suc i assms show ?case
      by (subst memcmp_loop.simps) (use Suc.hyps(1) [of "Suc i"] in \<open>simp add: add.commute\<close>)
  qed
  from this [of 0] show ?thesis by (simp add: memcmp_def)
qed

lemma sint_byte: "sint c = (if unat c < 128 then int (unat c) else int (unat c) - 256)" for c :: u8
proof -
  have u: "uint c < 256" "0 \<le> uint c" using unsigned_less [of c, where 'a = int] by simp_all
  have o: "odd (x div 128) \<longleftrightarrow> \<not> x < 128" if "0 \<le> x" "x < 256" for x :: int
  proof (cases "x < 128")
    case False
    with that have "x div 128 = 1" by linarith
    with False show ?thesis by simp
  qed (use that in simp)
  have p7: "(2 :: int) ^ 7 = 128" by simp
  have b: "bit (uint c) 7 \<longleftrightarrow> \<not> uint c < 128"
    unfolding bit_iff_odd p7 by (rule o [OF u(2,1)])
  have i: "int (unat c) = uint c" by simp
  then have n: "unat c < 128 \<longleftrightarrow> uint c < 128" by linarith
  have "take_bit 8 (uint c) = uint c" using u by (simp add: take_bit_int_eq_self)
  then have "signed_take_bit 7 (uint c) = (if uint c < 128 then uint c else uint c - 256)"
    by (simp add: signed_take_bit_eq_take_bit_minus b)
  then show ?thesis unfolding i n by (simp add: sint_uint)
qed

lemma unat_byte_less: "unat (c :: u8) < 256"
  using unsigned_less [of c, where 'a = nat] by simp

lemma islower_iff: "islower c \<longleftrightarrow> 97 \<le> unat c \<and> unat c \<le> 122"
proof -
  have "(97 \<le> (if n < 128 then int n else int n - 256) \<and> (if n < 128 then int n else int n - 256) \<le> 122) \<longleftrightarrow>
      97 \<le> n \<and> n \<le> 122" if "n < 256" for n
    using that by auto
  from this [OF unat_byte_less] show ?thesis unfolding islower_def sint_byte .
qed

lemma toupper_nonzero: "toupper c = 0 \<longleftrightarrow> c = 0"
  by (auto simp: toupper_def islower_iff)

lemma strupper_cstr:
  assumes "cstr m s xs"
  shows "\<exists>m'. strupper s m = Some (s, m') \<and> cstr m' s (map toupper xs) \<and>
    (\<forall>a. a \<notin> span s (length xs) \<longrightarrow> m' a = m a)"
proof -
  let ?n = "length xs"
  have n: "?n < 2147483648" using assms by (simp add: cstr_iff)
  define up where "up m0 k a = (if a \<in> span s k then toupper (m0 a) else m0 a)" for m0 :: mem and k a
  have cs: "cstr (up m k) s (map toupper (take k xs) @ drop k xs)" if "k \<le> ?n" for k
    using that assms n
    by (auto simp: cstr_iff up_def nth_append toupper_nonzero dest: in_set_takeD in_set_dropD)
  have "strupper_loop s (of_nat k) (up m k) = Some (up m ?n)" if "k \<le> ?n" for k
    using that
  proof (induction "?n - k" arbitrary: k)
    case 0
    then have "k = ?n" by simp
    then show ?case using strlen_cstr [OF cs [of ?n]] by (subst strupper_loop.simps) simp
  next
    case (Suc d)
    then have k: "k < ?n" by linarith
    have "up m (Suc k) = (if islower (up m k (s + of_nat k)) then
        (up m k)(s + of_nat k := toupper (up m k (s + of_nat k))) else up m k)"
      (is "_ = ?step")
    proof
      fix a show "up m (Suc k) a = ?step a"
        using k n by (cases a rule: offset_cases [of _ s]) (auto simp: up_def toupper_def less_Suc_eq)
    qed
    moreover have "of_nat k < (of_nat ?n :: u32)" using k n by (simp add: word_less_nat_alt unat_of_nat)
    ultimately show ?case
      using Suc.hyps(1) [of "Suc k"] Suc k strlen_cstr [OF cs [of k]]
      by (subst strupper_loop.simps) (simp add: add.commute)
  qed
  from this [of 0] have "strupper_loop s 0 m = Some (up m ?n)" by (simp add: up_def [abs_def] span_def)
  then show ?thesis using cs [of ?n] by (auto simp: strupper_def up_def)
qed

section \<open>Properties\<close>

text \<open>\<open>strrev\<close> of a NUL-terminated string returns, reverses the string in place by exclusive-ors,
  and changes no other byte.\<close>

theorem strrev_reverses:
  assumes "cstr m s xs"
  shows "\<exists>m'. strrev s m = Some (s, m') \<and> cstr m' s (rev xs) \<and> (\<forall>a. a \<notin> span s (length xs) \<longrightarrow> m' a = m a)"
  using strrev_cstr [OF assms] .

definition example_text :: mem where
  "example_text a = (if a = 0x1000 then 49 else if a = 0x1001 then 50 else 0)"

lemma example_text_cstr: "cstr example_text 0x1000 [49, 50]"
  by (simp add: cstr_iff example_text_def All_less_Suc2)

theorem strrev_reverses_witness: "\<exists>m'. strrev 0x1000 example_text = Some (0x1000, m') \<and> cstr m' 0x1000 [50, 49]"
  using strrev_reverses [OF example_text_cstr] by auto

text \<open>\<open>memcpy\<close> copies the source region byte for byte and changes nothing else, unless the
  destination starts behind the start of the source and inside it.\<close>

theorem memcpy_copies:
  assumes "dst = src \<or> num \<le> dst - src"
  shows "\<exists>m'. memcpy dst src num m = (dst, m') \<and> bytes_at m' dst (unat num) = bytes_at m src (unat num) \<and>
    (\<forall>a. a \<notin> span dst (unat num) \<longrightarrow> m' a = m a)"
proof (intro exI conjI allI impI)
  let ?m' = "snd (memcpy dst src num m)"
  show "memcpy dst src num m = (dst, ?m')" by (simp add: memcpy_def)
  have "unat num < 4294967296" by simp
  then show "bytes_at ?m' dst (unat num) = bytes_at m src (unat num)"
    by (intro nth_equalityI) (simp_all add: memcpy_bytes [OF assms] word_less_nat_alt unat_of_nat del: unat_u32_less)
  fix a assume "a \<notin> span dst (unat num)"
  moreover have "unat (a - dst) < 4294967296" by simp
  ultimately have "\<not> a - dst < num"
    using span_offset [of "unat num" "unat (a - dst)" dst] \<open>unat num < 4294967296\<close> by (simp add: word_less_nat_alt)
  then show "?m' a = m a" by (simp add: memcpy_bytes [OF assms])
qed

theorem memcpy_copies_witness:
  "\<exists>m'. memcpy 0x2000 0x1000 3 example_text = (0x2000, m') \<and> bytes_at m' 0x2000 3 = [49, 50, 0]"
  using memcpy_copies [of "0x2000" "0x1000" 3 example_text]
  by (simp add: bytes_at_def example_text_def upt_rec) blast

text \<open>\<open>memcmp\<close> returns 0 exactly when the regions agree; otherwise it returns the difference of
  the first pair of different bytes narrowed to a signed char, so its sign is wrong when the bytes
  are more than 127 apart.\<close>

theorem memcmp_spec:
  "(memcmp p1 p2 num m = 0 \<longleftrightarrow> bytes_at m p1 (unat num) = bytes_at m p2 (unat num)) \<and>
   (\<forall>k < unat num. (\<forall>j < k. m (p1 + of_nat j) = m (p2 + of_nat j)) \<and> m (p1 + of_nat k) \<noteq> m (p2 + of_nat k) \<longrightarrow>
      memcmp p1 p2 num m = sint (m (p1 + of_nat k) - m (p2 + of_nat k)))"
proof (intro conjI allI impI iffI)
  assume "bytes_at m p1 (unat num) = bytes_at m p2 (unat num)"
  then show "memcmp p1 p2 num m = 0" by (intro memcmp_equal) (simp add: list_eq_iff_nth_eq)
next
  assume z: "memcmp p1 p2 num m = 0"
  show "bytes_at m p1 (unat num) = bytes_at m p2 (unat num)"
  proof (rule ccontr)
    let ?P = "\<lambda>k. k < unat num \<and> m (p1 + of_nat k) \<noteq> m (p2 + of_nat k)"
    assume "bytes_at m p1 (unat num) \<noteq> bytes_at m p2 (unat num)"
    then have "\<exists>k. ?P k" by (auto simp: list_eq_iff_nth_eq)
    then have P: "?P (LEAST k. ?P k)" by (rule LeastI_ex)
    have "\<forall>j < (LEAST k. ?P k). m (p1 + of_nat j) = m (p2 + of_nat j)"
      using not_less_Least [of _ ?P] P by (meson less_trans)
    with P memcmp_first_diff [of "LEAST k. ?P k" num m p1 p2]
    have "memcmp p1 p2 num m = sint (m (p1 + of_nat (LEAST k. ?P k)) - m (p2 + of_nat (LEAST k. ?P k)))" by blast
    with z have "m (p1 + of_nat (LEAST k. ?P k)) - m (p2 + of_nat (LEAST k. ?P k)) = 0" by (simp add: signed_eq_0_iff)
    with P show False by simp
  qed
qed (use memcmp_first_diff in blast)

theorem memcmp_spec_witness:
  "memcmp 0x1000 0x1001 1 (example_text(0x1000 := 200, 0x1001 := 10)) = - 66"
  using memcmp_spec [of "0x1000" "0x1001" 1 "example_text(0x1000 := 200, 0x1001 := 10)"] by simp

end
