(* ===== verification/Multiboot.thy ===== *)
theory Multiboot
  imports Cstring
begin

text \<open>
  The multiboot2 information structure, \<^verbatim>\<open>src/kernel/include/multiboot2.h\<close> and the readers of
  \<^verbatim>\<open>src/kernel/arch/i386/multiboot2.c\<close>. The structure is bytes in memory; \<open>tags_at\<close> is the list of
  tags a walk visits, and the lemmas say which of them the readers return.
\<close>

section \<open>Layout\<close>

definition MULTIBOOT2_BOOTLOADER_MAGIC :: u32 where [c_const]: "MULTIBOOT2_BOOTLOADER_MAGIC = 0x36d76289"
definition MULTIBOOT_TAG_TYPE_END :: u32 where [c_const]: "MULTIBOOT_TAG_TYPE_END = 0"
definition MULTIBOOT_TAG_TYPE_MODULE :: u32 where [c_const]: "MULTIBOOT_TAG_TYPE_MODULE = 3"
definition MULTIBOOT_TAG_TYPE_MMAP :: u32 where [c_const]: "MULTIBOOT_TAG_TYPE_MMAP = 6"
definition MULTIBOOT_TAG_TYPE_FRAMEBUFFER :: u32 where [c_const]: "MULTIBOOT_TAG_TYPE_FRAMEBUFFER = 8"

definition MULTIBOOT_MEMORY_AVAILABLE :: u32 where [c_const]: "MULTIBOOT_MEMORY_AVAILABLE = 1"
definition MULTIBOOT_MEMORY_RESERVED :: u32 where [c_const]: "MULTIBOOT_MEMORY_RESERVED = 2"
definition MULTIBOOT_MEMORY_ACPI_RECLAIMABLE :: u32 where [c_const]: "MULTIBOOT_MEMORY_ACPI_RECLAIMABLE = 3"
definition MULTIBOOT_MEMORY_NVS :: u32 where [c_const]: "MULTIBOOT_MEMORY_NVS = 4"
definition MULTIBOOT_MEMORY_BADRAM :: u32 where [c_const]: "MULTIBOOT_MEMORY_BADRAM = 5"

record multiboot_info =
  mb_magic :: u32
  mb_addr :: u32

record multiboot_tag =
  tag_type :: u32
  tag_size :: u32

record multiboot_tag_module = multiboot_tag +
  mod_start :: u32
  mod_end :: u32

record multiboot_tag_mmap = multiboot_tag +
  mmap_entry_size :: u32
  mmap_entry_version :: u32
  mmap_entries :: u32

record multiboot_mmap_entry =
  mmap_addr :: u64
  mmap_len :: u64
  mmap_type :: u32
  mmap_zero :: u32

record multiboot_tag_framebuffer_common = multiboot_tag +
  framebuffer_addr :: u64
  framebuffer_pitch :: u32
  framebuffer_width :: u32
  framebuffer_height :: u32
  framebuffer_bpp :: u8
  framebuffer_type :: u8
  framebuffer_reserved :: u16

text \<open>
  The structures read from memory at their offsets; the flexible array of entries is the address
  of its first element.
\<close>

definition get_tag :: "mem \<Rightarrow> u32 \<Rightarrow> multiboot_tag" where
  "get_tag m tag = \<lparr>tag_type = load_u32 m tag, tag_size = load_u32 m (tag + 4)\<rparr>"

definition get_module :: "mem \<Rightarrow> u32 \<Rightarrow> multiboot_tag_module" where
  "get_module m tag = \<lparr>tag_type = load_u32 m tag, tag_size = load_u32 m (tag + 4),
     mod_start = load_u32 m (tag + 8), mod_end = load_u32 m (tag + 12)\<rparr>"

definition get_mmap :: "mem \<Rightarrow> u32 \<Rightarrow> multiboot_tag_mmap" where
  "get_mmap m tag = \<lparr>tag_type = load_u32 m tag, tag_size = load_u32 m (tag + 4),
     mmap_entry_size = load_u32 m (tag + 8), mmap_entry_version = load_u32 m (tag + 12), mmap_entries = tag + 16\<rparr>"

definition get_mmap_entry :: "mem \<Rightarrow> u32 \<Rightarrow> multiboot_mmap_entry" where
  "get_mmap_entry m e =
     \<lparr>mmap_addr = load_u64 m e, mmap_len = load_u64 m (e + 8), mmap_type = load_u32 m (e + 16),
      mmap_zero = load_u32 m (e + 20)\<rparr>"

definition get_framebuffer :: "mem \<Rightarrow> u32 \<Rightarrow> multiboot_tag_framebuffer_common" where
  "get_framebuffer m tag =
     \<lparr>tag_type = load_u32 m tag, tag_size = load_u32 m (tag + 4), framebuffer_addr = load_u64 m (tag + 8),
      framebuffer_pitch = load_u32 m (tag + 16), framebuffer_width = load_u32 m (tag + 20),
      framebuffer_height = load_u32 m (tag + 24), framebuffer_bpp = m (tag + 28),
      framebuffer_type = m (tag + 29), framebuffer_reserved = load_u16 m (tag + 30)\<rparr>"

section \<open>Readers\<close>

definition advance_tag :: "mem \<Rightarrow> u32 \<Rightarrow> u32" where
  "advance_tag m tag = tag + ((tag_size (get_tag m tag) + 7) AND NOT 7)"

text \<open>The walks end only if the structure has an end tag.\<close>

partial_function (option) framebuffer_loop :: "mem \<Rightarrow> u32 \<Rightarrow> u32 option" where [code]:
  "framebuffer_loop m tag =
     (if tag_type (get_tag m tag) \<noteq> MULTIBOOT_TAG_TYPE_END
      then if tag_type (get_tag m tag) = MULTIBOOT_TAG_TYPE_FRAMEBUFFER then Some tag
           else framebuffer_loop m (advance_tag m tag)
      else Some 0)"

definition multiboot_framebuffer_info :: "mem \<Rightarrow> u32 \<Rightarrow> u32 option" where
  "multiboot_framebuffer_info m multiboot_info = framebuffer_loop m (multiboot_info + 8)"

text \<open>The module (NULL at the end of the structure) and the tag to continue with.\<close>

partial_function (option) multiboot_get_next_module :: "mem \<Rightarrow> u32 \<Rightarrow> (u32 \<times> u32) option" where [code]:
  "multiboot_get_next_module m tag =
     (if tag_type (get_tag m tag) \<noteq> MULTIBOOT_TAG_TYPE_END
      then if tag_type (get_tag m tag) = MULTIBOOT_TAG_TYPE_MODULE
           then Some (tag, advance_tag m tag)
           else multiboot_get_next_module m (advance_tag m tag)
      else Some (0, tag))"

section \<open>The tags of a structure\<close>

primrec tags_at :: "mem \<Rightarrow> u32 \<Rightarrow> u32 list \<Rightarrow> bool" where
  "tags_at m a [] \<longleftrightarrow> tag_type (get_tag m a) = MULTIBOOT_TAG_TYPE_END"
| "tags_at m a (t # ts) \<longleftrightarrow> t = a \<and> tag_type (get_tag m a) \<noteq> MULTIBOOT_TAG_TYPE_END \<and>
     tags_at m (advance_tag m a) ts"

abbreviation has_type :: "mem \<Rightarrow> u32 \<Rightarrow> u32 \<Rightarrow> bool" where
  "has_type m ty t \<equiv> tag_type (get_tag m t) = ty"

lemma framebuffer_loop_find:
  "tags_at m a ts \<Longrightarrow> framebuffer_loop m a =
     Some (case find (has_type m MULTIBOOT_TAG_TYPE_FRAMEBUFFER) ts of None \<Rightarrow> 0 | Some t \<Rightarrow> t)"
  by (induction ts arbitrary: a) (simp_all add: framebuffer_loop.simps)

lemma get_next_module_step:
  "tags_at m a ts \<Longrightarrow>
    (case dropWhile (\<lambda>t. \<not> has_type m MULTIBOOT_TAG_TYPE_MODULE t) ts of
       [] \<Rightarrow> \<exists>e. multiboot_get_next_module m a = Some (0, e) \<and> tags_at m e []
     | t # ts' \<Rightarrow> \<exists>a'. multiboot_get_next_module m a = Some (t, a') \<and> tags_at m a' ts')"
proof (induction ts arbitrary: a)
  case (Cons t ts)
  then show ?case by (subst (1 2) multiboot_get_next_module.simps) auto
qed (simp add: multiboot_get_next_module.simps)

text \<open>All modules, in the order of repeated calls.\<close>

primrec take_modules :: "mem \<Rightarrow> nat \<Rightarrow> u32 \<Rightarrow> u32 list option" where
  "take_modules m 0 tag = Some []"
| "take_modules m (Suc n) tag =
     (case multiboot_get_next_module m tag of None \<Rightarrow> None
      | Some (t, tag') \<Rightarrow>
          if t = 0 then Some []
          else (case take_modules m n tag' of None \<Rightarrow> None | Some ts \<Rightarrow> Some (t # ts)))"

section \<open>Properties\<close>

text \<open>On a well-formed structure, calling \<open>multiboot_get_next_module\<close> repeatedly with the tag it
  leaves behind yields the module tags in order, each once, and then NULL.\<close>

theorem get_next_module_enumerates:
  assumes "tags_at m a ts" and "0 \<notin> set ts" and "length ts < n"
  shows "take_modules m n a = Some (filter (has_type m MULTIBOOT_TAG_TYPE_MODULE) ts)"
  using assms
proof (induction n arbitrary: a ts)
  case (Suc n)
  let ?P = "\<lambda>t. \<not> has_type m MULTIBOOT_TAG_TYPE_MODULE t"
  note step = get_next_module_step [OF Suc.prems(1)]
  have split: "filter (has_type m MULTIBOOT_TAG_TYPE_MODULE) ts = filter (has_type m MULTIBOOT_TAG_TYPE_MODULE) (dropWhile ?P ts)"
    by (induction ts) auto
  show ?case
  proof (cases "dropWhile ?P ts")
    case Nil
    from step show ?thesis unfolding split Nil by auto
  next
    case (Cons t ts')
    with step obtain a' where a': "multiboot_get_next_module m a = Some (t, a')" "tags_at m a' ts'" by auto
    obtain us where ts: "ts = us @ t # ts'"
      using takeWhile_dropWhile_id [of ?P ts, unfolded Cons, symmetric] by (rule that)
    have "0 \<notin> set ts'" "t \<noteq> 0" "length ts' < n" using Suc.prems(2,3) unfolding ts by auto
    moreover have "has_type m MULTIBOOT_TAG_TYPE_MODULE t" 
      using hd_dropWhile [of ?P ts] unfolding Cons by simp
    ultimately show ?thesis using Suc.IH [OF a'(2)] a' unfolding split Cons by simp
  qed
qed simp

text \<open>A structure at \<open>0x1000\<close> with a module, a framebuffer and the end tag.\<close>

definition example_mbi :: mem where
  "example_mbi a =
     (if a = 0x1008 then 3 else if a = 0x100C then 16 else if a = 0x1012 then 0x20 else if a = 0x1016 then 0x21
      else if a = 0x1018 then 8 else if a = 0x101C then 32 else if a = 0x1022 then 0x0B
      else if a = 0x102C then 80 else if a = 0x1030 then 25 else 0)"

lemma example_mbi_tags:
  "tag_type (get_tag example_mbi 0x1008) = 3" "advance_tag example_mbi 0x1008 = 0x1018"
  "tag_type (get_tag example_mbi 0x1018) = 8" "advance_tag example_mbi 0x1018 = 0x1038"
  "tag_type (get_tag example_mbi 0x1038) = 0"
  by (simp_all add: get_tag_def advance_tag_def load_u32_def example_mbi_def)

lemma example_mbi_tags_at: "tags_at example_mbi 0x1008 [0x1008, 0x1018]"
  by (simp add: example_mbi_tags c_const)

theorem get_next_module_enumerates_witness: "take_modules example_mbi 3 0x1008 = Some [0x1008]"
  using get_next_module_enumerates [OF example_mbi_tags_at, of 3] by (simp add: example_mbi_tags c_const)

text \<open>\<open>multiboot_framebuffer_info\<close> returns the first framebuffer tag of a well-formed structure,
  and NULL when it has none.\<close>

theorem framebuffer_info_first:
  assumes "tags_at m (info + 8) ts"
  shows "multiboot_framebuffer_info m info =
    Some (case find (has_type m MULTIBOOT_TAG_TYPE_FRAMEBUFFER) ts of None \<Rightarrow> 0 | Some t \<Rightarrow> t)"
  unfolding multiboot_framebuffer_info_def by (rule framebuffer_loop_find [OF assms])

theorem framebuffer_info_first_witness: "multiboot_framebuffer_info example_mbi 0x1000 = Some 0x1018"
  using framebuffer_info_first [of example_mbi "0x1000" "[0x1008, 0x1018]"] example_mbi_tags_at
  by (simp add: example_mbi_tags c_const)

end
