(* ===== verification/Pmm_Init.thy ===== *)
theory Pmm_Init
  imports Pmm Paging Multiboot
begin

text \<open>
  \<^verbatim>\<open>pmm_init\<close> of \<^verbatim>\<open>src/kernel/arch/i386/mm/pmm.c\<close>: the kernel, its heap, every memory map entry that
  is not available and the framebuffer are marked used.
\<close>

section \<open>Definitions\<close>

partial_function (option) mmap_tag_loop :: "mem \<Rightarrow> u32 \<Rightarrow> u32 option" where [code]:
  "mmap_tag_loop m tag =
     (if tag_type (get_tag m tag) \<noteq> MULTIBOOT_TAG_TYPE_END \<and> tag_type (get_tag m tag) \<noteq> MULTIBOOT_TAG_TYPE_MMAP
      then mmap_tag_loop m (advance_tag m tag)
      else Some tag)"

definition mmap_unavailable :: "u32 \<Rightarrow> bool" where
  "mmap_unavailable ty \<longleftrightarrow> ty = MULTIBOOT_MEMORY_RESERVED \<or> ty = MULTIBOOT_MEMORY_ACPI_RECLAIMABLE \<or>
     ty = MULTIBOOT_MEMORY_NVS \<or> ty = MULTIBOOT_MEMORY_BADRAM"

text \<open>The 64-bit address and length are narrowed to 32 bits by the call.\<close>

partial_function (option) mmap_loop :: "mem \<Rightarrow> u32 \<Rightarrow> u32 \<Rightarrow> pmm_state \<Rightarrow> pmm_state option" where [code]:
  "mmap_loop m tag mmap s =
     (if mmap < tag + tag_size (get_tag m tag)
      then let e = get_mmap_entry m mmap
           in case (if mmap_unavailable (mmap_type e)
                    then pmm_mark_range_used (ucast (mmap_addr e)) (ucast (mmap_addr e + mmap_len e)) s
                    else Some s) of
                None \<Rightarrow> None
              | Some s' \<Rightarrow> mmap_loop m tag (mmap + mmap_entry_size (get_mmap m tag)) s'
      else Some s)"

definition liftK :: "'a option \<Rightarrow> 'a comp" where
  "liftK x = (case x of None \<Rightarrow> None | Some y \<Rightarrow> ret y)"

definition pmm_init :: "kernel_meminfo \<Rightarrow> mem \<Rightarrow> multiboot_info \<Rightarrow> pmm_state \<Rightarrow> pmm_state comp" where
  "pmm_init KERNEL_MEMINFO m multiboot_info s =
     bindK (liftK (pmm_mark_range_used (physical_start KERNEL_MEMINFO) (physical_end KERNEL_MEMINFO) s)) (\<lambda>s1.
     let heap_start = KERNEL_HEAP_PHYS_START;
         heap_end = heap_start + KERNEL_HEAP_SIZE - 1
     in bindK (liftK (pmm_mark_range_used heap_start heap_end s1)) (\<lambda>s2.
     bindK (liftK (mmap_tag_loop m (mb_addr multiboot_info + 8))) (\<lambda>tag.
     assertK (tag_type (get_tag m tag) \<noteq> MULTIBOOT_TAG_TYPE_END) (Panic ''failed to read memory map'')
    (bindK (liftK (mmap_loop m tag (mmap_entries (get_mmap m tag)) s2)) (\<lambda>s3.
     bindK (liftK (multiboot_framebuffer_info m (mb_addr multiboot_info))) (\<lambda>framebuffer_info.
     assertK (framebuffer_info \<noteq> NULL) Null_deref
    (let fb = get_framebuffer m framebuffer_info;
         fb_size = framebuffer_width fb * framebuffer_height fb * 2
     in liftK (pmm_mark_range_used (ucast (framebuffer_addr fb))
          (ucast (framebuffer_addr fb + ucast fb_size - 1)) s3))))))))"

section \<open>The memory map\<close>

lemma liftK_simps [simp, comp_simps]: "liftK None = None" "liftK (Some x) = ret x"
  by (simp_all add: liftK_def)

text \<open>The entries a memory map tag holds from \<open>mmap\<close> on.\<close>

primrec entries_at :: "mem \<Rightarrow> u32 \<Rightarrow> u32 \<Rightarrow> u32 list \<Rightarrow> bool" where
  "entries_at m tag a [] \<longleftrightarrow> \<not> a < tag + tag_size (get_tag m tag)"
| "entries_at m tag a (e # es) \<longleftrightarrow> e = a \<and> a < tag + tag_size (get_tag m tag) \<and>
     entries_at m tag (a + mmap_entry_size (get_mmap m tag)) es"

definition entry_range :: "mem \<Rightarrow> u32 \<Rightarrow> u32 \<times> u32" where
  "entry_range m e = (ucast (mmap_addr (get_mmap_entry m e)),
     ucast (mmap_addr (get_mmap_entry m e) + mmap_len (get_mmap_entry m e)))"

abbreviation reserved :: "mem \<Rightarrow> u32 list \<Rightarrow> u32 list" where
  "reserved m es \<equiv> filter (\<lambda>e. mmap_unavailable (mmap_type (get_mmap_entry m e))) es"

lemma mmap_tag_loop_find:
  "tags_at m a ts \<Longrightarrow> find (has_type m MULTIBOOT_TAG_TYPE_MMAP) ts = Some t \<Longrightarrow> mmap_tag_loop m a = Some t"
proof (induction ts arbitrary: a)
  case (Cons x ts)
  then show ?case by (subst mmap_tag_loop.simps) (auto split: if_splits)
qed simp

lemma mmap_loop_marks:
  assumes "entries_at m tag a es"
    and "\<forall>e \<in> set (reserved m es). unat (snd (entry_range m e)) \<le> 2 ^ 32 - 4096"
  shows "\<exists>s'. mmap_loop m tag a s = Some s' \<and> frames_used s' = frames_used s \<union>
    (\<Union>e \<in> set (reserved m es). range_frames (fst (entry_range m e)) (snd (entry_range m e)))"
  using assms
proof (induction es arbitrary: a s)
  case Nil
  then show ?case by (simp add: mmap_loop.simps)
next
  case (Cons e es)
  show ?case
  proof (cases "mmap_unavailable (mmap_type (get_mmap_entry m e))")
    case True
    with Cons.prems(2) have "unat (snd (entry_range m e)) \<le> 2 ^ 32 - 4096" by simp
    from pmm_mark_range_used_frames [OF this, of "fst (entry_range m e)" s] obtain s1 where
      s1: "pmm_mark_range_used (fst (entry_range m e)) (snd (entry_range m e)) s = Some s1"
        "frames_used s1 = frames_used s \<union> range_frames (fst (entry_range m e)) (snd (entry_range m e))" by blast
    from Cons.IH [of "a + mmap_entry_size (get_mmap m tag)" s1] Cons.prems obtain s' where
      "mmap_loop m tag (a + mmap_entry_size (get_mmap m tag)) s1 = Some s'"
      "frames_used s' = frames_used s1 \<union> (\<Union>e \<in> set (reserved m es). range_frames (fst (entry_range m e)) (snd (entry_range m e)))"
      by auto
    with s1 True Cons.prems(1) show ?thesis
      by (subst mmap_loop.simps) (auto simp: entry_range_def Let_def)
  next
    case False
    with Cons.IH [of "a + mmap_entry_size (get_mmap m tag)" s] Cons.prems show ?thesis
      by (subst mmap_loop.simps) (auto simp: Let_def)
  qed
qed

section \<open>Properties\<close>

text \<open>The initialisation in the four steps of the source.\<close>

lemma pmm_init_frames:
  assumes "tags_at m (mb_addr info + 8) ts"
    and "find (has_type m MULTIBOOT_TAG_TYPE_MMAP) ts = Some tag"
    and "find (has_type m MULTIBOOT_TAG_TYPE_FRAMEBUFFER) ts = Some fb" and "fb \<noteq> NULL"
    and "entries_at m tag (tag + 16) es"
    and "\<forall>e \<in> set (reserved m es). unat (snd (entry_range m e)) \<le> 2 ^ 32 - 4096"
    and "unat (physical_end mi) \<le> 2 ^ 32 - 4096"
    and "fb_range = (ucast (framebuffer_addr (get_framebuffer m fb)),
      ucast (framebuffer_addr (get_framebuffer m fb) +
        ucast (framebuffer_width (get_framebuffer m fb) * framebuffer_height (get_framebuffer m fb) * 2) - 1))"
    and "unat (snd fb_range) \<le> 2 ^ 32 - 4096"
  shows "\<exists>s'. pmm_init mi m info s = ret s' \<and> frames_used s' = frames_used s \<union>
    range_frames (physical_start mi) (physical_end mi) \<union>
    range_frames KERNEL_HEAP_PHYS_START (KERNEL_HEAP_PHYS_START + KERNEL_HEAP_SIZE - 1) \<union>
    (\<Union>e \<in> set (reserved m es). range_frames (fst (entry_range m e)) (snd (entry_range m e))) \<union>
    range_frames (fst fb_range) (snd fb_range)"
proof -
  obtain s1 where s1: "pmm_mark_range_used (physical_start mi) (physical_end mi) s = Some s1"
    "frames_used s1 = frames_used s \<union> range_frames (physical_start mi) (physical_end mi)"
    using pmm_mark_range_used_frames [OF assms(7)] by blast
  have "unat (KERNEL_HEAP_PHYS_START + KERNEL_HEAP_SIZE - 1) \<le> 2 ^ 32 - 4096" by (simp add: c_const)
  from pmm_mark_range_used_frames [OF this] obtain s2 where
    s2: "pmm_mark_range_used KERNEL_HEAP_PHYS_START (KERNEL_HEAP_PHYS_START + KERNEL_HEAP_SIZE - 1) s1 = Some s2"
    "frames_used s2 = frames_used s1 \<union> range_frames KERNEL_HEAP_PHYS_START (KERNEL_HEAP_PHYS_START + KERNEL_HEAP_SIZE - 1)"
    by blast
  obtain s3 where s3: "mmap_loop m tag (tag + 16) s2 = Some s3" "frames_used s3 = frames_used s2 \<union>
      (\<Union>e \<in> set (reserved m es). range_frames (fst (entry_range m e)) (snd (entry_range m e)))"
    using mmap_loop_marks [OF assms(5,6)] by blast
  obtain s4 where s4: "pmm_mark_range_used (fst fb_range) (snd fb_range) s3 = Some s4"
    "frames_used s4 = frames_used s3 \<union> range_frames (fst fb_range) (snd fb_range)"
    using pmm_mark_range_used_frames [OF assms(9)] by blast
  have "has_type m MULTIBOOT_TAG_TYPE_MMAP tag" using assms(2) by (auto simp: find_Some_iff)
  then have "pmm_init mi m info s = ret s4"
    using s1(1) s2(1) s3(1) s4(1) assms(3,4) mmap_tag_loop_find [OF assms(1,2)] framebuffer_loop_find [OF assms(1)]
    by (simp add: pmm_init_def Let_def multiboot_framebuffer_info_def get_mmap_def assms(8)
      MULTIBOOT_TAG_TYPE_MMAP_def MULTIBOOT_TAG_TYPE_END_def)
  then show ?thesis using s1(2) s2(2) s3(2) s4(2) by auto
qed


text \<open>A structure at \<open>0x1000\<close> with one reserved range and the text-mode framebuffer.\<close>

definition example_boot :: mem where
  "example_boot a =
     (if a = 0x1008 then 6 else if a = 0x100C then 40 else if a = 0x1010 then 24
      else if a = 0x1019 then 0xF0 else if a = 0x101A then 0x09 else if a = 0x1021 then 0x10
      else if a = 0x1028 then 2
      else if a = 0x1030 then 8 else if a = 0x1034 then 32 else if a = 0x1039 then 0x80 else if a = 0x103A then 0x0B
      else if a = 0x1044 then 80 else if a = 0x1048 then 25 else 0)"

lemma example_boot_tags:
  "tag_type (get_tag example_boot 0x1008) = 6" "tag_size (get_tag example_boot 0x1008) = 40"
  "advance_tag example_boot 0x1008 = 0x1030"
  "tag_type (get_tag example_boot 0x1030) = 8" "advance_tag example_boot 0x1030 = 0x1050"
  "tag_type (get_tag example_boot 0x1050) = 0" "mmap_entry_size (get_mmap example_boot 0x1008) = 24"
  by (simp_all add: get_tag_def get_mmap_def advance_tag_def load_u32_def example_boot_def)

lemma example_boot_entry:
  "mmap_type (get_mmap_entry example_boot 0x1018) = 2" "entry_range example_boot 0x1018 = (0x9F000, 0xA0000)"
  by (simp_all add: get_mmap_entry_def entry_range_def load_u64_def load_u32_def example_boot_def)

lemma example_boot_framebuffer:
  "framebuffer_addr (get_framebuffer example_boot 0x1030) = 0xB8000"
  "framebuffer_width (get_framebuffer example_boot 0x1030) = 80"
  "framebuffer_height (get_framebuffer example_boot 0x1030) = 25"
  by (simp_all add: get_framebuffer_def load_u64_def load_u32_def example_boot_def)


end
