(* ===== verification/Vmm.thy ===== *)
theory Vmm
  imports Paging Pmm_Init
begin

text \<open>
  The virtual memory manager, \<^verbatim>\<open>src/kernel/arch/i386/mm/vmm.c\<close>. An address space is a linked list of
  free regions and a binary search tree of allocations, both built from kernel heap blocks. The
  list nodes and the tree nodes live in two stores that extend the state of the heap.
\<close>

section \<open>Data\<close>

record vmm_allocation =
  al_virtual_addr :: u32
  al_physical_addr :: u32
  al_page_count :: u32
  al_flags :: u32

record vmm_allocation_tree =
  t_alloc :: vmm_allocation
  t_left :: u32
  t_right :: u32
  t_parent :: u32

record vmm_free_blocks =
  fb_virtual_addr :: u32
  fb_page_count :: u32
  fb_next :: u32

record vmm_context =
  allocations :: u32
  free_blocks :: u32

record vmm_state = kmalloc_state +
  blocks :: "vmm_free_blocks store"
  trees :: "vmm_allocation_tree store"

definition sizeof_free_blocks :: u32 where [c_const]: "sizeof_free_blocks = 12"
definition sizeof_allocation_tree :: u32 where [c_const]: "sizeof_allocation_tree = 28"

definition no_allocation :: vmm_allocation where
  "no_allocation = \<lparr>al_virtual_addr = 0, al_physical_addr = 0, al_page_count = 0, al_flags = 0\<rparr>"

abbreviation update_block :: "u32 \<Rightarrow> (vmm_free_blocks \<Rightarrow> vmm_free_blocks) \<Rightarrow> 'a vmm_state_scheme \<Rightarrow> 'a vmm_state_scheme" where
  "update_block p f s \<equiv> s\<lparr>blocks := (blocks s)(p := f (blocks s p))\<rparr>"

abbreviation update_tree :: "u32 \<Rightarrow> (vmm_allocation_tree \<Rightarrow> vmm_allocation_tree) \<Rightarrow> 'a vmm_state_scheme \<Rightarrow> 'a vmm_state_scheme" where
  "update_tree p f s \<equiv> s\<lparr>trees := (trees s)(p := f (trees s p))\<rparr>"

text \<open>
  \<^verbatim>\<open>p = kmalloc(sizeof(*p)); *p = v\<close> for the two node types. The result of \<open>kmalloc\<close> is not checked
  in the source, so an exhausted heap is a write through NULL.
\<close>

definition kmallocK :: "u32 \<Rightarrow> 'a kmalloc_state_scheme \<Rightarrow> (u32 \<times> 'a kmalloc_state_scheme) comp" where
  "kmallocK sz s = liftK (kmalloc sz s)"

definition new_block :: "vmm_free_blocks \<Rightarrow> 'a vmm_state_scheme \<Rightarrow> (u32 \<times> 'a vmm_state_scheme) comp" where
  "new_block v s =
     bindK (kmallocK sizeof_free_blocks s) (\<lambda>(p, s1).
     assertK (p \<noteq> NULL) Null_deref (ret (p, update_block p (\<lambda>_. v) s1)))"

definition new_tree :: "vmm_allocation_tree \<Rightarrow> 'a vmm_state_scheme \<Rightarrow> (u32 \<times> 'a vmm_state_scheme) comp" where
  "new_tree v s =
     bindK (kmallocK sizeof_allocation_tree s) (\<lambda>(p, s1).
     assertK (p \<noteq> NULL) Null_deref (ret (p, update_tree p (\<lambda>_. v) s1)))"

section \<open>Free regions\<close>

definition is_addr_in_range :: "u32 \<Rightarrow> vmm_free_blocks \<Rightarrow> bool" where
  "is_addr_in_range virtual_addr fb =
     (let range_end = (ucast (fb_virtual_addr fb) + ucast (fb_page_count fb) * 4096 :: u64)
      in virtual_addr \<ge> fb_virtual_addr fb \<and> ucast virtual_addr < range_end)"

definition is_addr_in_user_range :: "kernel_meminfo \<Rightarrow> u32 \<Rightarrow> u32 \<Rightarrow> bool" where
  "is_addr_in_user_range mi virtual_addr page_count =
     (let range_end = (ucast virtual_addr + ucast page_count * 4096 :: u64)
      in range_end < ucast (higher_half_base mi))"

definition is_addr_ok_for_mode :: "kernel_meminfo \<Rightarrow> u32 \<Rightarrow> u32 \<Rightarrow> bool \<Rightarrow> bool" where
  "is_addr_ok_for_mode mi virtual_addr page_count is_userspace =
     (if is_userspace then is_addr_in_user_range mi virtual_addr page_count
      else virtual_addr \<ge> virtual_start mi)"

definition unlink_block ::
  "vmm_context \<Rightarrow> u32 \<Rightarrow> u32 \<Rightarrow> 'a vmm_state_scheme \<Rightarrow> vmm_context \<times> 'a vmm_state_scheme" where
  "unlink_block ctx fb prev s =
     (let (ctx1, s1) =
            (if prev \<noteq> NULL then (ctx, update_block prev (\<lambda>b. b\<lparr>fb_next := fb_next (blocks s fb)\<rparr>) s)
             else (ctx\<lparr>free_blocks := fb_next (blocks s fb)\<rparr>, s))
      in (ctx1, kfree fb s1))"

text \<open>The search loop of \<^verbatim>\<open>remove_free_blocks\<close>: the region found (or NULL) and its predecessor.\<close>

definition region_matches :: "kernel_meminfo \<Rightarrow> u32 \<Rightarrow> u32 \<Rightarrow> bool \<Rightarrow> vmm_free_blocks \<Rightarrow> bool" where
  "region_matches mi virtual_addr page_count is_userspace b =
     (let select_current_addr = virtual_addr = 0 \<and>
            is_addr_ok_for_mode mi (fb_virtual_addr b) page_count is_userspace
      in (select_current_addr \<or> is_addr_in_range virtual_addr b) \<and> fb_page_count b \<ge> page_count)"

partial_function (option) find_region ::
  "kernel_meminfo \<Rightarrow> u32 \<Rightarrow> u32 \<Rightarrow> bool \<Rightarrow> u32 \<Rightarrow> u32 \<Rightarrow> vmm_free_blocks store \<Rightarrow> (u32 \<times> u32) option" where [code]:
  "find_region mi virtual_addr page_count is_userspace fb prev bs =
     (if fb \<noteq> NULL
      then if region_matches mi virtual_addr page_count is_userspace (bs fb) then Some (fb, prev)
           else find_region mi virtual_addr page_count is_userspace (fb_next (bs fb)) fb bs
      else Some (fb, prev))"

definition remove_free_blocks ::
  "kernel_meminfo \<Rightarrow> vmm_context \<Rightarrow> u32 \<Rightarrow> u32 \<Rightarrow> bool \<Rightarrow> 'a vmm_state_scheme \<Rightarrow>
     (u32 \<times> vmm_context \<times> 'a vmm_state_scheme) comp" where
  "remove_free_blocks mi ctx virtual_addr page_count is_userspace s =
     assertK (free_blocks ctx \<noteq> NULL) (Panic ''out of memory (no free blocks)'')
    (bindK (liftK (find_region mi virtual_addr page_count is_userspace (free_blocks ctx) NULL (blocks s))) (\<lambda>(fb, prev).
     if fb = NULL then fail (Panic ''could not find %u consecutive free pages starting at %#x'')
     else if fb_page_count (blocks s fb) = page_count
       then let (ctx1, s1) = unlink_block ctx fb prev s in ret (virtual_addr, ctx1, s1)
     else if fb_page_count (blocks s fb) > page_count
       then let page_offset = (if virtual_addr \<noteq> 0 then (virtual_addr - fb_virtual_addr (blocks s fb)) div PAGE_SIZE else 0)
            in if page_count > fb_page_count (blocks s fb) - page_offset then fail (Panic ''out of memory'')
               else if virtual_addr = 0 \<or> virtual_addr = fb_virtual_addr (blocks s fb)
                 then let allocated_addr = fb_virtual_addr (blocks s fb)
                      in ret (allocated_addr, ctx,
                           update_block fb (\<lambda>b. b\<lparr>fb_virtual_addr := fb_virtual_addr b + page_count * PAGE_SIZE,
                             fb_page_count := fb_page_count b - page_count\<rparr>) s)
               else let new_block_page_offset = page_offset + page_count
                    in if new_block_page_offset < fb_page_count (blocks s fb)
                       then bindK (new_block \<lparr>fb_virtual_addr = fb_virtual_addr (blocks s fb) + new_block_page_offset * PAGE_SIZE,
                                     fb_page_count = fb_page_count (blocks s fb) - new_block_page_offset,
                                     fb_next = fb_next (blocks s fb)\<rparr> s) (\<lambda>(nb, s1).
                            ret (virtual_addr, ctx,
                              update_block fb (\<lambda>b. b\<lparr>fb_next := nb, fb_page_count := page_offset\<rparr>) s1))
                       else ret (virtual_addr, ctx,
                              update_block fb (\<lambda>b. b\<lparr>fb_page_count := fb_page_count b - page_count\<rparr>) s)
     else ret (virtual_addr, ctx, s)))"

text \<open>
  \<^verbatim>\<open>merge_or_insert_free_blocks\<close>: regions of the two modes that differ go through the two merge tests,
  regions of the same mode go to \<^verbatim>\<open>done\<close> directly; the result says whether a merge took place.
\<close>

definition merge_free_blocks ::
  "kernel_meminfo \<Rightarrow> u32 \<Rightarrow> u32 \<Rightarrow> u32 \<Rightarrow> 'a vmm_state_scheme \<Rightarrow> bool \<times> 'a vmm_state_scheme" where
  "merge_free_blocks mi fb virtual_addr page_count s =
     (let is_userspace_block = is_addr_in_user_range mi (fb_virtual_addr (blocks s fb)) (fb_page_count (blocks s fb));
          is_userspace_addr = is_addr_in_user_range mi virtual_addr page_count
      in if \<not> (is_userspace_block \<noteq> is_userspace_addr) then (False, s)
         else let (merged1, s1) =
                    (if fb_virtual_addr (blocks s fb) + page_count * PAGE_SIZE = virtual_addr
                     then (True, update_block fb (\<lambda>b. b\<lparr>fb_page_count := fb_page_count b + page_count\<rparr>) s)
                     else (False, s));
                  nxt = fb_next (blocks s1 fb)
              in if nxt \<noteq> NULL \<and> fb_virtual_addr (blocks s1 fb) + page_count * PAGE_SIZE = fb_virtual_addr (blocks s1 nxt)
                 then (True, kfree nxt (update_block fb (\<lambda>b. b\<lparr>fb_page_count := fb_page_count b + fb_page_count (blocks s1 nxt),
                                            fb_next := fb_next (blocks s1 nxt)\<rparr>) s1))
                 else (merged1, s1))"

definition merge_or_insert_free_blocks ::
  "kernel_meminfo \<Rightarrow> u32 \<Rightarrow> u32 \<Rightarrow> u32 \<Rightarrow> 'a vmm_state_scheme \<Rightarrow> 'a vmm_state_scheme comp" where
  "merge_or_insert_free_blocks mi fb virtual_addr page_count s =
     (let (blocks_merged, s1) = (if fb \<noteq> NULL then merge_free_blocks mi fb virtual_addr page_count s else (False, s))
      in if \<not> blocks_merged
         then let nxt = (if fb \<noteq> NULL then fb_next (blocks s1 fb) else NULL)
              in bindK (new_block \<lparr>fb_virtual_addr = virtual_addr, fb_page_count = page_count, fb_next = nxt\<rparr> s1)
                   (\<lambda>(nb, s2). ret (if fb \<noteq> NULL then update_block fb (\<lambda>b. b\<lparr>fb_next := nb\<rparr>) s2 else s2))
         else ret s1)"

text \<open>The loop of \<^verbatim>\<open>add_free_blocks\<close>: the first region that does not start below the address.\<close>

partial_function (option) find_insert_pos :: "u32 \<Rightarrow> u32 \<Rightarrow> u32 \<Rightarrow> vmm_free_blocks store \<Rightarrow> (u32 \<times> u32) option" where [code]:
  "find_insert_pos virtual_addr fb prev bs =
     (if fb \<noteq> NULL \<and> virtual_addr > fb_virtual_addr (bs fb)
      then find_insert_pos virtual_addr (fb_next (bs fb)) fb bs
      else Some (fb, prev))"

definition add_free_blocks ::
  "kernel_meminfo \<Rightarrow> vmm_context \<Rightarrow> u32 \<Rightarrow> u32 \<Rightarrow> 'a vmm_state_scheme \<Rightarrow> (vmm_context \<times> 'a vmm_state_scheme) comp" where
  "add_free_blocks mi ctx virtual_addr page_count s =
     bindK (liftK (find_insert_pos virtual_addr (free_blocks ctx) NULL (blocks s))) (\<lambda>(fb, prev).
     if fb \<noteq> NULL
     then if prev \<noteq> NULL
          then bindK (merge_or_insert_free_blocks mi prev virtual_addr page_count s) (\<lambda>s1. ret (ctx, s1))
          else if virtual_addr + page_count * PAGE_SIZE = fb_virtual_addr (blocks s fb)
          then ret (ctx, update_block fb (\<lambda>b. b\<lparr>fb_page_count := fb_page_count b + page_count\<rparr>) s)
          else bindK (new_block \<lparr>fb_virtual_addr = virtual_addr, fb_page_count = page_count, fb_next = fb\<rparr> s)
                 (\<lambda>(nb, s1). ret (ctx\<lparr>free_blocks := nb\<rparr>, s1))
     else if prev \<noteq> NULL
          then bindK (merge_or_insert_free_blocks mi prev virtual_addr page_count s) (\<lambda>s1. ret (ctx, s1))
          else bindK (new_block \<lparr>fb_virtual_addr = virtual_addr, fb_page_count = page_count, fb_next = NULL\<rparr> s)
                 (\<lambda>(nb, s1). ret (ctx\<lparr>free_blocks := nb\<rparr>, s1)))"

section \<open>Allocations\<close>

partial_function (option) find_parent :: "u32 \<Rightarrow> u32 \<Rightarrow> u32 \<Rightarrow> vmm_allocation_tree store \<Rightarrow> u32 option" where [code]:
  "find_parent virtual_addr node prev ts =
     (if node \<noteq> NULL
      then find_parent virtual_addr
             (if virtual_addr < al_virtual_addr (t_alloc (ts node)) then t_left (ts node) else t_right (ts node)) node ts
      else Some prev)"

definition add_allocation ::
  "vmm_context \<Rightarrow> u32 \<Rightarrow> u32 \<Rightarrow> u32 \<Rightarrow> u32 \<Rightarrow> 'a vmm_state_scheme \<Rightarrow> 'a vmm_state_scheme comp" where
  "add_allocation ctx virtual_addr physical_addr page_count flags s =
     (let alloc = \<lparr>al_virtual_addr = virtual_addr, al_physical_addr = physical_addr,
                   al_page_count = page_count, al_flags = flags\<rparr>
      in assertK (allocations ctx \<noteq> NULL) Null_deref
        (if al_page_count (t_alloc (trees s (allocations ctx))) = 0
         then ret (update_tree (allocations ctx) (\<lambda>t. t\<lparr>t_alloc := alloc\<rparr>) s)
         else bindK (liftK (find_parent virtual_addr (allocations ctx) NULL (trees s))) (\<lambda>prev.
              assertK (prev \<noteq> NULL) (Panic ''out of memory'')
             (bindK (new_tree \<lparr>t_alloc = alloc, t_left = NULL, t_right = NULL, t_parent = NULL\<rparr> s) (\<lambda>(new_node, s1).
              let s2 = update_tree new_node (\<lambda>t. t\<lparr>t_parent := prev\<rparr>) s1
              in ret (if virtual_addr < al_virtual_addr (t_alloc (trees s2 prev))
                      then update_tree prev (\<lambda>t. t\<lparr>t_left := new_node\<rparr>) s2
                      else update_tree prev (\<lambda>t. t\<lparr>t_right := new_node\<rparr>) s2))))))"

partial_function (option) rightmost :: "u32 \<Rightarrow> vmm_allocation_tree store \<Rightarrow> u32 option" where [code]:
  "rightmost node ts = (if t_right (ts node) \<noteq> NULL then rightmost (t_right (ts node)) ts else Some node)"

definition remove_allocation ::
  "vmm_context \<Rightarrow> u32 \<Rightarrow> 'a vmm_state_scheme \<Rightarrow> (vmm_context \<times> 'a vmm_state_scheme) comp" where
  "remove_allocation ctx allocation s =
     (let (ctx1, s1) =
            (if t_parent (trees s allocation) \<noteq> NULL
             then (ctx, if t_left (trees s (t_parent (trees s allocation))) = allocation
                        then update_tree (t_parent (trees s allocation)) (\<lambda>t. t\<lparr>t_left := t_left (trees s allocation)\<rparr>) s
                        else update_tree (t_parent (trees s allocation)) (\<lambda>t. t\<lparr>t_right := t_left (trees s allocation)\<rparr>) s)
             else (ctx\<lparr>allocations := t_left (trees s allocation)\<rparr>, s))
      in assertK (t_left (trees s1 allocation) \<noteq> NULL) Null_deref
        (bindK (liftK (rightmost (t_left (trees s1 allocation)) (trees s1))) (\<lambda>node.
         ret (ctx1, kfree allocation (update_tree node (\<lambda>t. t\<lparr>t_right := t_right (trees s1 allocation)\<rparr>) s1)))))"

partial_function (option) find_allocation_loop :: "u32 \<Rightarrow> u32 \<Rightarrow> vmm_allocation_tree store \<Rightarrow> vmm_allocation option" where [code]:
  "find_allocation_loop virtual_addr node ts =
     (if node \<noteq> NULL
      then let current_block = al_virtual_addr (t_alloc (ts node));
               page_count = al_page_count (t_alloc (ts node))
           in if virtual_addr \<ge> current_block \<and> virtual_addr < current_block + page_count * PAGE_SIZE
              then Some (t_alloc (ts node))
              else find_allocation_loop virtual_addr
                     (if virtual_addr < current_block then t_left (ts node) else t_right (ts node)) ts
      else Some no_allocation)"

definition vmm_find_allocation :: "vmm_context \<Rightarrow> u32 \<Rightarrow> 'a vmm_state_scheme \<Rightarrow> vmm_allocation comp" where
  "vmm_find_allocation ctx virtual_addr s = liftK (find_allocation_loop virtual_addr (allocations ctx) (trees s))"

text \<open>The loop of \<^verbatim>\<open>vmm_unmap_pages\<close>: the node that starts at the address.\<close>

partial_function (option) find_node :: "u32 \<Rightarrow> u32 \<Rightarrow> vmm_allocation_tree store \<Rightarrow> u32 option" where [code]:
  "find_node virtual_addr node ts =
     (if node \<noteq> NULL
      then if virtual_addr = al_virtual_addr (t_alloc (ts node)) then Some node
           else find_node virtual_addr
                  (if virtual_addr < al_virtual_addr (t_alloc (ts node)) then t_left (ts node) else t_right (ts node)) ts
      else Some NULL)"

section \<open>Mapping and unmapping\<close>

definition vmm_map_pages ::
  "kernel_meminfo \<Rightarrow> vmm_context \<Rightarrow> u32 \<Rightarrow> u32 \<Rightarrow> u32 \<Rightarrow> u32 \<Rightarrow> 'a vmm_state_scheme \<Rightarrow>
     (u32 \<times> vmm_context \<times> 'a vmm_state_scheme) comp" where
  "vmm_map_pages mi ctx virtual_addr physical_addr page_count flags s =
     (let is_userspace = flags AND PAGE_FLAG_USER \<noteq> 0
      in assertK (paging_is_aligned virtual_addr) (Panic ''cannot map unaligned address: %#x'')
        (assertK (paging_is_aligned physical_addr) (Panic ''cannot map to unaligned address: %#x'')
        (assertK (free_blocks ctx \<noteq> NULL) (Panic ''Out of memory'')
        (bindK (remove_free_blocks mi ctx virtual_addr page_count is_userspace s) (\<lambda>(addr, ctx1, s1).
         bindK (add_allocation ctx1 addr physical_addr page_count flags s1) (\<lambda>s2. ret (addr, ctx1, s2)))))))"

definition vmm_unmap_pages ::
  "kernel_meminfo \<Rightarrow> vmm_context \<Rightarrow> u32 \<Rightarrow> u32 \<Rightarrow> 'a vmm_state_scheme \<Rightarrow> (vmm_context \<times> 'a vmm_state_scheme) comp" where
  "vmm_unmap_pages mi ctx virtual_addr page_count s =
     assertK (paging_is_aligned virtual_addr) (Panic ''cannot unmap unaligned address: %#x'')
    (bindK (add_free_blocks mi ctx virtual_addr page_count s) (\<lambda>(ctx1, s1).
     bindK (liftK (find_node virtual_addr (allocations ctx1) (trees s1))) (\<lambda>node.
     if node = NULL then fail (Panic ''allocation to unmap not found in allocation tree'')
     else if page_count < al_virtual_addr (t_alloc (trees s1 node))
       then ret (ctx1, update_tree node (\<lambda>t. t\<lparr>t_alloc := (t_alloc t)
              \<lparr>al_virtual_addr := al_virtual_addr (t_alloc t) + PAGE_SIZE * page_count,
               al_page_count := al_page_count (t_alloc t) - page_count\<rparr>\<rparr>) s1)
     else if page_count = al_virtual_addr (t_alloc (trees s1 node)) then remove_allocation ctx1 node s1
     else fail (Panic ''cannot unamp more than has been mapped''))))"

section \<open>Contexts\<close>

definition create_empty_ctx :: "'a vmm_state_scheme \<Rightarrow> (vmm_context \<times> 'a vmm_state_scheme) comp" where
  "create_empty_ctx s =
     bindK (new_tree \<lparr>t_alloc = no_allocation, t_left = NULL, t_right = NULL, t_parent = NULL\<rparr> s) (\<lambda>(p, s1).
     ret (\<lparr>allocations = p, free_blocks = NULL\<rparr>, s1))"

record addr_space_entry =
  as_virtual_start :: u32
  as_physical_start :: u32
  as_page_count :: u32
  as_flags :: u32

primrec map_addr_space ::
  "kernel_meminfo \<Rightarrow> addr_space_entry list \<Rightarrow> vmm_context \<Rightarrow> 'a vmm_state_scheme \<Rightarrow> (vmm_context \<times> 'a vmm_state_scheme) comp" where
  "map_addr_space mi [] ctx s = ret (ctx, s)"
| "map_addr_space mi (e # es) ctx s =
     bindK (vmm_map_pages mi ctx (as_virtual_start e) (as_physical_start e) (as_page_count e) (as_flags e) s)
       (\<lambda>(_, ctx1, s1). map_addr_space mi es ctx1 s1)"

definition vmm_new_context ::
  "kernel_meminfo \<Rightarrow> addr_space_entry list \<Rightarrow> 'a vmm_state_scheme \<Rightarrow> (vmm_context \<times> 'a vmm_state_scheme) comp" where
  "vmm_new_context mi ADDR_SPACE s =
     bindK (create_empty_ctx s) (\<lambda>(ctx0, s0).
     let total_page_count = push_bit 32 1 div 4096 :: u64;
         user_page_count = ucast (higher_half_base mi div PAGE_SIZE) :: u64;
         kernel_page_count = total_page_count - user_page_count
     in bindK (add_free_blocks mi ctx0 0 (ucast user_page_count) s0) (\<lambda>(ctx1, s1).
        bindK (add_free_blocks mi ctx1 (higher_half_base mi) (ucast kernel_page_count) s1) (\<lambda>(ctx2, s2).
        map_addr_space mi ADDR_SPACE ctx2 s2)))"

definition init_addr_space :: "kernel_meminfo \<Rightarrow> multiboot_tag_framebuffer_common \<Rightarrow> addr_space_entry list" where
  "init_addr_space mi framebuffer_info =
     [\<lparr>as_virtual_start = text_virtual_start mi, as_physical_start = text_physical_start mi,
       as_page_count = paging_page_count (text_virtual_end mi - text_virtual_start mi), as_flags = PAGE_FLAG_PRESENT\<rparr>,
      \<lparr>as_virtual_start = rodata_virtual_start mi, as_physical_start = rodata_physical_start mi,
       as_page_count = paging_page_count (rodata_virtual_end mi - rodata_virtual_start mi), as_flags = PAGE_FLAG_PRESENT\<rparr>,
      \<lparr>as_virtual_start = data_virtual_start mi, as_physical_start = data_physical_start mi,
       as_page_count = paging_page_count (data_virtual_end mi - data_virtual_start mi),
       as_flags = PAGE_FLAG_PRESENT OR PAGE_FLAG_WRITE\<rparr>,
      \<lparr>as_virtual_start = bss_virtual_start mi, as_physical_start = bss_physical_start mi,
       as_page_count = paging_page_count (bss_virtual_end mi - bss_virtual_start mi),
       as_flags = PAGE_FLAG_PRESENT OR PAGE_FLAG_WRITE\<rparr>,
      \<lparr>as_virtual_start = KERNEL_HEAP_VIRT_START, as_physical_start = KERNEL_HEAP_PHYS_START,
       as_page_count = paging_page_count KERNEL_HEAP_SIZE, as_flags = PAGE_FLAG_PRESENT OR PAGE_FLAG_WRITE\<rparr>,
      \<lparr>as_virtual_start = higher_half_base mi, as_physical_start = ucast (framebuffer_addr framebuffer_info),
       as_page_count = 1, as_flags = PAGE_FLAG_PRESENT OR PAGE_FLAG_WRITE\<rparr>]"

text \<open>The context and the address space template that later contexts start from.\<close>

definition vmm_init ::
  "kernel_meminfo \<Rightarrow> mem \<Rightarrow> multiboot_info \<Rightarrow> 'a vmm_state_scheme \<Rightarrow>
     (vmm_context \<times> addr_space_entry list \<times> 'a vmm_state_scheme) comp" where
  "vmm_init mi m MULTIBOOT_INFO s =
     bindK (liftK (multiboot_framebuffer_info m (mb_addr MULTIBOOT_INFO))) (\<lambda>framebuffer_info.
     assertK (framebuffer_info \<noteq> NULL) Null_deref
    (let ADDR_SPACE = init_addr_space mi (get_framebuffer m framebuffer_info)
     in bindK (vmm_new_context mi ADDR_SPACE s) (\<lambda>(ctx, s1). ret (ctx, ADDR_SPACE, s1))))"

section \<open>Cloning\<close>

partial_function (option) clone_free_loop ::
  "u32 \<Rightarrow> u32 \<Rightarrow> u32 \<Rightarrow> 'a vmm_state_scheme \<Rightarrow> 'a vmm_state_scheme comp" where [code]:
  "clone_free_loop orig prev current s =
     (if orig \<noteq> NULL
      then let s1 = (if prev \<noteq> NULL then update_block prev (\<lambda>b. b\<lparr>fb_next := current\<rparr>) s else s)
           in assertK (current \<noteq> NULL) Null_deref
             (let s2 = update_block current (\<lambda>_. \<lparr>fb_virtual_addr = fb_virtual_addr (blocks s1 orig),
                         fb_page_count = fb_page_count (blocks s1 orig), fb_next = NULL\<rparr>) s1
              in bindK (kmallocK sizeof_free_blocks s2) (\<lambda>(next_node, s3).
                 clone_free_loop (fb_next (blocks s3 orig)) current next_node s3))
      else ret s)"

definition clone_free_blocks :: "u32 \<Rightarrow> 'a vmm_state_scheme \<Rightarrow> (u32 \<times> 'a vmm_state_scheme) comp" where
  "clone_free_blocks orig_free_blocks s =
     (if orig_free_blocks = NULL then ret (NULL, s)
      else bindK (kmallocK sizeof_free_blocks s) (\<lambda>(fb, s1).
           bindK (clone_free_loop orig_free_blocks NULL fb s1) (\<lambda>s2. ret (fb, s2))))"

partial_function (option) clone_allocation_tree ::
  "u32 \<Rightarrow> u32 \<Rightarrow> 'a vmm_state_scheme \<Rightarrow> 'a vmm_state_scheme comp" where [code]:
  "clone_allocation_tree orig node s =
     (if orig \<noteq> NULL
      then assertK (node \<noteq> NULL) Null_deref
          (let s1 = update_tree node (\<lambda>t. t\<lparr>t_alloc := t_alloc (trees s orig)\<rparr>) s
           in bindK (if t_left (trees s1 orig) \<noteq> NULL
                     then bindK (kmallocK sizeof_allocation_tree s1) (\<lambda>(l, s2).
                          assertK (l \<noteq> NULL) Null_deref
                         (let s3 = update_tree l (\<lambda>t. t\<lparr>t_parent := node\<rparr>) (update_tree node (\<lambda>t. t\<lparr>t_left := l\<rparr>) s2)
                          in clone_allocation_tree (t_left (trees s3 orig)) l s3))
                     else ret s1) (\<lambda>s4.
              if t_right (trees s4 orig) \<noteq> NULL
              then bindK (kmallocK sizeof_allocation_tree s4) (\<lambda>(r, s5).
                   assertK (r \<noteq> NULL) Null_deref
                  (let s6 = update_tree r (\<lambda>t. t\<lparr>t_parent := node\<rparr>) (update_tree node (\<lambda>t. t\<lparr>t_right := r\<rparr>) s5)
                   in clone_allocation_tree (t_right (trees s6 orig)) r s6))
              else ret s4))
      else ret s)"

definition clone_allocations :: "u32 \<Rightarrow> 'a vmm_state_scheme \<Rightarrow> (u32 \<times> 'a vmm_state_scheme) comp" where
  "clone_allocations orig_allocations s =
     (if orig_allocations = NULL then ret (NULL, s)
      else bindK (kmallocK sizeof_allocation_tree s) (\<lambda>(p, s1).
           bindK (clone_allocation_tree orig_allocations p s1) (\<lambda>s2. ret (p, s2))))"

definition vmm_clone_context :: "vmm_context \<Rightarrow> 'a vmm_state_scheme \<Rightarrow> (vmm_context \<times> 'a vmm_state_scheme) comp" where
  "vmm_clone_context orig s =
     bindK (clone_free_blocks (free_blocks orig) s) (\<lambda>(fb, s1).
     bindK (clone_allocations (allocations orig) s1) (\<lambda>(al, s2).
     ret (\<lparr>allocations = al, free_blocks = fb\<rparr>, s2)))"

definition vmm_clone_paging_context ::
  "kernel_meminfo \<Rightarrow> vmm_context \<Rightarrow> paging_context \<Rightarrow> pmm_state \<Rightarrow> paging_state \<Rightarrow> 'a vmm_state_scheme \<Rightarrow>
     (paging_context \<times> vmm_context \<times> pmm_state \<times> paging_state \<times> 'a vmm_state_scheme) comp" where
  "vmm_clone_paging_context mi vmm_ctx paging_ctx pm pg s =
     bindK (pmm_alloc_page pm) (\<lambda>(physical_addr, pm1).
     bindK (vmm_map_pages mi vmm_ctx 0 physical_addr 1 (PAGE_FLAG_PRESENT OR PAGE_FLAG_WRITE) s) (\<lambda>(pd, vmm_ctx1, s1).
     let pg1 = pg\<lparr>tables := (tables pg)(pd := tables pg (page_directory paging_ctx))\<rparr>;
         pg2 = set_entry pd (PAGE_TABLE_SIZE - 1) (physical_addr OR PAGE_FLAG_PRESENT OR PAGE_FLAG_WRITE) pg1
     in ret (\<lparr>page_directory = pd, page_tables = page_tables paging_ctx\<rparr>, vmm_ctx1, pm1, pg2, s1)))"

end
