(* ===== verification/Vmm_Tree.thy ===== *)
theory Vmm_Tree
  imports Vmm "HOL-Library.Tree"
begin

text \<open>
  The allocation tree of the virtual memory manager refines a search tree: \<open>tree_at\<close> relates the
  nodes in the store to a tree of node addresses and allocations. Adding an allocation is
  insertion at a leaf, and looking an address up finds the allocation that covers it.
\<close>

section \<open>The heap leaves the nodes alone\<close>

lemma kmalloc_loop_frame:
  assumes "kmalloc_loop sz p prev s = Some r" shows "kmalloc_state.more (snd r) = kmalloc_state.more s"
proof (rule kmalloc_loop.raw_induct [where P = "\<lambda>sz p prev s r. kmalloc_state.more (snd r) = kmalloc_state.more s", OF _ assms])
  fix f sz p prev and s :: "'a kmalloc_state_scheme" and r
  assume "\<And>sz p prev s r. f sz p prev s = Some r \<Longrightarrow> kmalloc_state.more (snd r) = kmalloc_state.more s"
    and "(if p = NULL then Some (NULL, s)
      else if hdr_size (headers s p) = sz then Some (kmalloc_whole p prev s)
      else if hdr_size (headers s p) > sz + sizeof_header then Some (kmalloc_split sz p prev s)
      else f sz (hdr_next (headers s p)) p s) = Some r"
  then show "kmalloc_state.more (snd r) = kmalloc_state.more s"
    by (auto simp: kmalloc_whole_def kmalloc_split_def Let_def split: if_splits)
qed

lemma kmalloc_frame:
  assumes "kmalloc n s = Some (p, s')" shows "kmalloc_state.more s' = kmalloc_state.more s"
  using kmalloc_loop_frame assms unfolding kmalloc_def by fastforce

lemma more_stores:
  assumes "kmalloc_state.more s' = kmalloc_state.more (s :: 'a vmm_state_scheme)"
  shows "blocks s' = blocks s" and "trees s' = trees s"
  using assms by (cases s; cases s'; simp)+

lemmas kmalloc_stores = more_stores [OF kmalloc_frame]

lemma kfree_stores [simp]: "blocks (kfree p s) = blocks s" "trees (kfree p s) = trees s"
  by (simp_all add: kfree_def Let_def)

lemma kmalloc_inv_stores [simp]:
  "kmalloc_inv (s\<lparr>blocks := b\<rparr>) L = kmalloc_inv s L" "kmalloc_inv (s\<lparr>trees := t\<rparr>) L = kmalloc_inv s L"
  by (simp_all add: kmalloc_inv_def heap_inv_def)

text \<open>A new node: NULL is dereferenced only when the heap has no room; otherwise it is fresh.\<close>

lemma new_tree_cases:
  assumes "kmalloc_inv s L"
  obtains (full) "new_tree v s = fail Null_deref"
  | (node) p s' where "new_tree v s = ret (p, s')" "p \<noteq> NULL" "p \<notin> L" "kmalloc_inv s' (insert p L)"
      "trees s' = (trees s)(p := v)" "blocks s' = blocks s"
proof -
  obtain p s1 where k: "kmalloc sizeof_allocation_tree s = Some (p, s1)" using km.alloc_returns [OF assms] by blast
  have ok: "kmalloc_size_ok sizeof_allocation_tree" by (simp add: kmalloc_size_ok_def c_const)
  show thesis
  proof (cases "p = NULL")
    case True
    with k show thesis by (intro full) (simp add: new_tree_def kmallocK_def)
  next
    case False
    have n: "new_tree v s = ret (p, update_tree p (\<lambda>_. v) s1)" using k False by (simp add: new_tree_def kmallocK_def)
    show thesis
      by (rule node [OF n False km.alloc_fresh [OF assms ok k False]])
        (simp_all add: km.alloc_inv [OF assms ok k False] kmalloc_stores [OF k])
  qed
qed

lemma new_block_cases:
  assumes "kmalloc_inv s L"
  obtains (full) "new_block v s = fail Null_deref"
  | (node) p s' where "new_block v s = ret (p, s')" "p \<noteq> NULL" "p \<notin> L" "kmalloc_inv s' (insert p L)"
      "blocks s' = (blocks s)(p := v)" "trees s' = trees s"
proof -
  obtain p s1 where k: "kmalloc sizeof_free_blocks s = Some (p, s1)" using km.alloc_returns [OF assms] by blast
  have ok: "kmalloc_size_ok sizeof_free_blocks" by (simp add: kmalloc_size_ok_def c_const)
  show thesis
  proof (cases "p = NULL")
    case True
    with k show thesis by (intro full) (simp add: new_block_def kmallocK_def)
  next
    case False
    have n: "new_block v s = ret (p, update_block p (\<lambda>_. v) s1)" using k False by (simp add: new_block_def kmallocK_def)
    show thesis
      by (rule node [OF n False km.alloc_fresh [OF assms ok k False]])
        (simp_all add: km.alloc_inv [OF assms ok k False] kmalloc_stores [OF k])
  qed
qed

section \<open>Trees in the store\<close>

type_synonym alloc_tree = "(u32 \<times> vmm_allocation) tree"

fun tree_at :: "vmm_allocation_tree store \<Rightarrow> u32 \<Rightarrow> alloc_tree \<Rightarrow> bool" where
  "tree_at ts p \<langle>\<rangle> \<longleftrightarrow> p = NULL"
| "tree_at ts p \<langle>l, (q, a), r\<rangle> \<longleftrightarrow> p = q \<and> q \<noteq> NULL \<and> t_alloc (ts q) = a \<and>
     tree_at ts (t_left (ts q)) l \<and> tree_at ts (t_right (ts q)) r"

definition nodes :: "alloc_tree \<Rightarrow> u32 list" where
  "nodes t = map fst (inorder t)"

definition allocs :: "alloc_tree \<Rightarrow> vmm_allocation list" where
  "allocs t = map snd (inorder t)"

lemma nodes_simps [simp]: "nodes \<langle>\<rangle> = []" "nodes \<langle>l, x, r\<rangle> = nodes l @ fst x # nodes r"
  by (simp_all add: nodes_def)

lemma allocs_simps [simp]: "allocs \<langle>\<rangle> = []" "allocs \<langle>l, x, r\<rangle> = allocs l @ snd x # allocs r"
  by (simp_all add: allocs_def)

lemma tree_at_cong:
  "(\<And>p. p \<in> set (nodes t) \<Longrightarrow> ts p = ts' p) \<Longrightarrow> tree_at ts p t = tree_at ts' p t"
  by (induction ts p t rule: tree_at.induct) auto

lemma tree_at_upd [simp]: "q \<notin> set (nodes t) \<Longrightarrow> tree_at (ts(q := v)) p t = tree_at ts p t"
  by (rule tree_at_cong) auto

text \<open>Insertion at a leaf, as the code descends: left below the address of a node, right otherwise.\<close>

fun insert_alloc :: "u32 \<Rightarrow> vmm_allocation \<Rightarrow> alloc_tree \<Rightarrow> alloc_tree" where
  "insert_alloc p a \<langle>\<rangle> = \<langle>\<langle>\<rangle>, (p, a), \<langle>\<rangle>\<rangle>"
| "insert_alloc p a \<langle>l, (q, b), r\<rangle> =
     (if al_virtual_addr a < al_virtual_addr b then \<langle>insert_alloc p a l, (q, b), r\<rangle>
      else \<langle>l, (q, b), insert_alloc p a r\<rangle>)"

lemma set_insert_alloc [simp]:
  "set (nodes (insert_alloc p a t)) = insert p (set (nodes t))"
  "set (allocs (insert_alloc p a t)) = insert a (set (allocs t))"
  by (induction p a t rule: insert_alloc.induct) auto

lemma distinct_insert_alloc:
  "distinct (nodes (insert_alloc p a t)) \<longleftrightarrow> p \<notin> set (nodes t) \<and> distinct (nodes t)"
  by (induction p a t rule: insert_alloc.induct) auto

fun search_tree :: "alloc_tree \<Rightarrow> bool" where
  "search_tree \<langle>\<rangle> \<longleftrightarrow> True"
| "search_tree \<langle>l, (q, a), r\<rangle> \<longleftrightarrow> search_tree l \<and> search_tree r \<and>
     (\<forall>b \<in> set (allocs l). al_virtual_addr b < al_virtual_addr a) \<and>
     (\<forall>b \<in> set (allocs r). al_virtual_addr a < al_virtual_addr b)"

lemma search_tree_insert:
  "search_tree t \<Longrightarrow> \<forall>b \<in> set (allocs t). al_virtual_addr b \<noteq> al_virtual_addr a \<Longrightarrow> search_tree (insert_alloc p a t)"
  by (induction p a t rule: insert_alloc.induct) auto

section \<open>Adding an allocation\<close>

text \<open>
  The node \<open>find_parent\<close> ends at is where \<open>insert_alloc\<close> hangs the new leaf: linking the new node
  \<open>q\<close> there turns the tree into the tree with the allocation inserted.
\<close>

definition links :: "vmm_allocation_tree store \<Rightarrow> u32 \<Rightarrow> u32 \<Rightarrow> u32 \<Rightarrow> vmm_allocation_tree" where
  "links ts va par q = (if va < al_virtual_addr (t_alloc (ts par)) then (ts par)\<lparr>t_left := q\<rparr> else (ts par)\<lparr>t_right := q\<rparr>)"

lemma find_parent_insert:
  assumes "tree_at ts p t" and "distinct (nodes t)" and "t \<noteq> \<langle>\<rangle>" and "q \<noteq> NULL"
  shows "\<exists>par. find_parent (al_virtual_addr a) p prev ts = Some par \<and> par \<in> set (nodes t) \<and>
    (\<forall>ts'. t_alloc (ts' q) = a \<longrightarrow> t_left (ts' q) = NULL \<longrightarrow> t_right (ts' q) = NULL \<longrightarrow>
       ts' par = links ts (al_virtual_addr a) par q \<longrightarrow> (\<forall>x \<in> set (nodes t) - {par}. ts' x = ts x) \<longrightarrow>
       tree_at ts' p (insert_alloc q a t))"
  using assms(1-3)
proof (induction t arbitrary: p prev)
  case (Node l x r)
  obtain b where x: "x = (p, b)" and p: "p \<noteq> NULL" "t_alloc (ts p) = b"
    and sub: "tree_at ts (t_left (ts p)) l" "tree_at ts (t_right (ts p)) r"
    using Node.prems(1) by (cases x) auto
  have d: "distinct (nodes l)" "distinct (nodes r)" "p \<notin> set (nodes l)" "p \<notin> set (nodes r)"
    "set (nodes l) \<inter> set (nodes r) = {}" using Node.prems(2) x by auto
  let ?va = "al_virtual_addr a" and ?c = "if al_virtual_addr a < al_virtual_addr b then l else r"
  let ?cp = "if ?va < al_virtual_addr b then t_left (ts p) else t_right (ts p)"
  have step: "find_parent ?va p prev ts = find_parent ?va ?cp p ts"
    using p by (subst find_parent.simps) simp
  show ?case
  proof (cases "?c = \<langle>\<rangle>")
    case True
    then have "?cp = NULL" using sub by (auto split: if_splits)
    then have fp: "find_parent ?va p prev ts = Some p" unfolding step by (subst find_parent.simps) simp
    show ?thesis
    proof (intro exI [of _ p] conjI allI impI fp)
      fix ts' assume ts': "t_alloc (ts' q) = a" "t_left (ts' q) = NULL" "t_right (ts' q) = NULL"
        "ts' p = links ts ?va p q" "\<forall>y \<in> set (nodes \<langle>l, x, r\<rangle>) - {p}. ts' y = ts y"
      have "tree_at ts' c l = tree_at ts c l" "tree_at ts' c r = tree_at ts c r" for c
        using ts'(5) d(3,4) by (auto simp: x intro!: tree_at_cong)
      with ts' sub True p assms(4) show "tree_at ts' p (insert_alloc q a \<langle>l, x, r\<rangle>)"
        by (auto simp: x links_def split: if_splits)
    qed (simp add: x)
  next
    case False
    have "\<exists>par. find_parent ?va ?cp p ts = Some par \<and> par \<in> set (nodes ?c) \<and>
      (\<forall>ts'. t_alloc (ts' q) = a \<longrightarrow> t_left (ts' q) = NULL \<longrightarrow> t_right (ts' q) = NULL \<longrightarrow>
         ts' par = links ts ?va par q \<longrightarrow> (\<forall>y \<in> set (nodes ?c) - {par}. ts' y = ts y) \<longrightarrow>
         tree_at ts' ?cp (insert_alloc q a ?c))"
      using False sub d(1,2) Node.IH(1) [of "t_left (ts p)" p] Node.IH(2) [of "t_right (ts p)" p] by presburger
    then obtain par where par: "find_parent ?va ?cp p ts = Some par" "par \<in> set (nodes ?c)"
      and tr: "\<And>ts'. t_alloc (ts' q) = a \<Longrightarrow> t_left (ts' q) = NULL \<Longrightarrow> t_right (ts' q) = NULL \<Longrightarrow>
         ts' par = links ts ?va par q \<Longrightarrow> \<forall>y \<in> set (nodes ?c) - {par}. ts' y = ts y \<Longrightarrow>
         tree_at ts' ?cp (insert_alloc q a ?c)" by blast
    show ?thesis
    proof (intro exI [of _ par] conjI allI impI)
      show "find_parent ?va p prev ts = Some par" using par step by simp
      show "par \<in> set (nodes \<langle>l, x, r\<rangle>)" using par(2) by (auto split: if_splits)
      fix ts' assume ts': "t_alloc (ts' q) = a" "t_left (ts' q) = NULL" "t_right (ts' q) = NULL"
        "ts' par = links ts ?va par q" "\<forall>y \<in> set (nodes \<langle>l, x, r\<rangle>) - {par}. ts' y = ts y"
      have "tree_at ts' ?cp (insert_alloc q a ?c)"
        using ts' by (intro tr) (auto split: if_splits)
      moreover have "ts' p = ts p" using ts'(5) par(2) d(3,4) by (auto simp: x split: if_splits)
      moreover have "tree_at ts' c l = tree_at ts c l" if "par \<in> set (nodes r)" for c
        using ts'(5) that d(5) by (intro tree_at_cong) auto
      moreover have "tree_at ts' c r = tree_at ts c r" if "par \<in> set (nodes l)" for c
        using ts'(5) that d(5) by (intro tree_at_cong) auto
      ultimately show "tree_at ts' p (insert_alloc q a \<langle>l, x, r\<rangle>)"
        using par(2) p sub by (auto simp: x split: if_splits)
    qed
  qed
qed simp

abbreviation allocation :: "u32 \<Rightarrow> u32 \<Rightarrow> u32 \<Rightarrow> u32 \<Rightarrow> vmm_allocation" where
  "allocation va pa pc fl \<equiv> \<lparr>al_virtual_addr = va, al_physical_addr = pa, al_page_count = pc, al_flags = fl\<rparr>"

text \<open>The allocation tree of a context: its nodes are live heap blocks, each used once.\<close>

definition tree_inv :: "vmm_context \<Rightarrow> 'a vmm_state_scheme \<Rightarrow> u32 set \<Rightarrow> alloc_tree \<Rightarrow> bool" where
  "tree_inv ctx s L t \<longleftrightarrow> tree_at (trees s) (allocations ctx) t \<and> distinct (nodes t) \<and> set (nodes t) \<subseteq> L"

lemma add_allocation_inserts:
  assumes heap: "kmalloc_inv s L" and tree: "tree_inv ctx s L \<langle>l, (q, b), r\<rangle>" and used: "al_page_count b \<noteq> 0"
  obtains (full) "add_allocation ctx va pa pc fl s = fail Null_deref"
  | (node) p s' where "add_allocation ctx va pa pc fl s = ret s'" "p \<notin> L" "p \<noteq> NULL" "kmalloc_inv s' (insert p L)"
      "tree_inv ctx s' (insert p L) (insert_alloc p (allocation va pa pc fl) \<langle>l, (q, b), r\<rangle>)" "blocks s' = blocks s"
proof -
  let ?t = "\<langle>l, (q, b), r\<rangle>" and ?a = "allocation va pa pc fl"
  let ?v = "\<lparr>t_alloc = ?a, t_left = NULL, t_right = NULL, t_parent = NULL\<rparr>"
  have root: "allocations ctx \<noteq> NULL" "al_page_count (t_alloc (trees s (allocations ctx))) \<noteq> 0"
    using tree used by (auto simp: tree_inv_def)
  note fp = find_parent_insert [where a = ?a and prev = NULL and ts = "trees s" and t = ?t and p = "allocations ctx"]
  from heap show thesis
  proof (cases rule: new_tree_cases [where v = ?v])
    case full
    obtain par where "find_parent va (allocations ctx) NULL (trees s) = Some par" "par \<in> set (nodes ?t)"
      using fp [of q] tree by (auto simp: tree_inv_def)
    moreover from this(2) have "par \<noteq> NULL" using tree km.live_nonnull [OF heap] by (auto simp: tree_inv_def)
    ultimately have "add_allocation ctx va pa pc fl s = fail Null_deref"
      using root full by (simp add: add_allocation_def Let_def)
    then show thesis by (rule that(1))
  next
    case (node p s1)
    obtain par where par: "find_parent va (allocations ctx) NULL (trees s) = Some par" "par \<in> set (nodes ?t)"
      and tr: "\<And>ts'. t_alloc (ts' p) = ?a \<Longrightarrow> t_left (ts' p) = NULL \<Longrightarrow> t_right (ts' p) = NULL \<Longrightarrow>
         ts' par = links (trees s) va par p \<Longrightarrow> \<forall>x \<in> set (nodes ?t) - {par}. ts' x = trees s x \<Longrightarrow>
         tree_at ts' (allocations ctx) (insert_alloc p ?a ?t)"
      using fp [of p] tree node(2) by (auto simp: tree_inv_def)
    have ne: "par \<noteq> NULL" "par \<noteq> p" "p \<notin> set (nodes ?t)"
      using par(2) tree km.live_nonnull [OF heap] node(3) by (auto simp: tree_inv_def)
    let ?s' = "s1\<lparr>trees := (trees s)(p := ?v\<lparr>t_parent := par\<rparr>, par := links (trees s) va par p)\<rparr>"
    have add: "add_allocation ctx va pa pc fl s = ret ?s'"
      using root node(1,5) par(1) ne by (auto simp: add_allocation_def Let_def links_def fun_upd_twist)
    have "tree_at (trees ?s') (allocations ctx) (insert_alloc p ?a ?t)"
      using ne by (intro tr) auto
    moreover have "distinct (nodes (insert_alloc p ?a ?t))"
      unfolding distinct_insert_alloc using tree ne(3) by (simp only: tree_inv_def simp_thms)
    moreover have "set (nodes (insert_alloc p ?a ?t)) \<subseteq> insert p L"
      using tree by (simp only: set_insert_alloc tree_inv_def) auto
    ultimately have "tree_inv ctx ?s' (insert p L) (insert_alloc p ?a ?t)" by (simp only: tree_inv_def)
    then show thesis using node(4,6) by (intro that(2) [OF add node(3,2)]) simp_all
  qed
qed

section \<open>Looking an address up\<close>

definition interval :: "vmm_allocation \<Rightarrow> nat set" where
  "interval a = {unat (al_virtual_addr a) ..< unat (al_virtual_addr a) + unat (al_page_count a) * 4096}"

text \<open>Allocations are not empty, end below 4 GB and do not overlap.\<close>

definition allocs_ok :: "vmm_allocation set \<Rightarrow> bool" where
  "allocs_ok A \<longleftrightarrow> (\<forall>a \<in> A. 0 < unat (al_page_count a) \<and> unat (al_virtual_addr a) + unat (al_page_count a) * 4096 < 2 ^ 32) \<and>
     (\<forall>a \<in> A. \<forall>b \<in> A. a \<noteq> b \<longrightarrow> interval a \<inter> interval b = {})"

lemma covers_interval:
  assumes "unat (al_virtual_addr a) + unat (al_page_count a) * 4096 < 2 ^ 32"
  shows "al_virtual_addr a \<le> va \<and> va < al_virtual_addr a + al_page_count a * PAGE_SIZE \<longleftrightarrow> unat va \<in> interval a"
proof -
  have "unat (al_page_count a * PAGE_SIZE) = unat (al_page_count a) * 4096"
    using assms by (simp add: c_const unat_simps)
  then have "unat (al_virtual_addr a + al_page_count a * PAGE_SIZE) = unat (al_virtual_addr a) + unat (al_page_count a) * 4096"
    using assms by (simp add: unat_simps)
  then show ?thesis by (simp add: interval_def word_le_nat_alt word_less_nat_alt)
qed

lemma find_allocation_tree:
  assumes "tree_at ts p t" and "search_tree t" and "allocs_ok (set (allocs t))"
  shows "(\<forall>a \<in> set (allocs t). unat va \<in> interval a \<longrightarrow> find_allocation_loop va p ts = Some a) \<and>
    ((\<forall>a \<in> set (allocs t). unat va \<notin> interval a) \<longrightarrow> find_allocation_loop va p ts = Some no_allocation)"
  using assms
proof (induction t arbitrary: p)
  case Leaf
  then show ?case by (simp add: find_allocation_loop.simps)
next
  case (Node l x r)
  obtain b where x: "x = (p, b)" and p: "p \<noteq> NULL" "t_alloc (ts p) = b"
    and sub: "tree_at ts (t_left (ts p)) l" "tree_at ts (t_right (ts p)) r"
    using Node.prems(1) by (cases x) auto
  have ok: "allocs_ok (set (allocs l))" "allocs_ok (set (allocs r))" and st: "search_tree l" "search_tree r"
    using Node.prems(2,3) by (auto simp: allocs_ok_def x)
  have b: "0 < unat (al_page_count b)" "unat (al_virtual_addr b) + unat (al_page_count b) * 4096 < 2 ^ 32"
    using Node.prems(3) by (auto simp: allocs_ok_def x)
  have other: "unat va \<notin> interval a" if "a \<in> set (allocs \<langle>l, x, r\<rangle>)" "unat va \<in> interval b" "a \<noteq> b" for a
    using that Node.prems(3) by (auto simp: allocs_ok_def x)
  let ?next = "find_allocation_loop va (if va < al_virtual_addr b then t_left (ts p) else t_right (ts p)) ts"
  have step: "find_allocation_loop va p ts = (if unat va \<in> interval b then Some b else ?next)"
    using p covers_interval [OF b(2), of va] by (subst find_allocation_loop.simps) (simp add: Let_def)
  show ?case
  proof (cases "unat va \<in> interval b")
    case True
    with step other show ?thesis by (auto simp: x)
  next
    case nb: False
    show ?thesis
    proof (cases "va < al_virtual_addr b")
      case True
      have "unat va \<notin> interval a" if "a \<in> set (allocs r)" for a
        using that Node.prems(2) True by (force simp: x interval_def word_le_nat_alt word_less_nat_alt)
      with Node.IH(1) [OF sub(1) st(1) ok(1)] True nb step show ?thesis by (auto simp: x)
    next
      case False
      have "unat va \<notin> interval a" if a: "a \<in> set (allocs l)" for a
      proof
        assume "unat va \<in> interval a"
        moreover have lt: "unat (al_virtual_addr a) < unat (al_virtual_addr b)"
          using a Node.prems(2) by (auto simp: x word_less_nat_alt)
        ultimately have "unat (al_virtual_addr b) \<in> interval a"
          using False by (auto simp: interval_def word_less_nat_alt)
        moreover have "unat (al_virtual_addr b) \<in> interval b" using b(1) by (simp add: interval_def)
        moreover have "a \<noteq> b" using lt by auto
        ultimately show False using a Node.prems(3) by (auto simp: allocs_ok_def x)
      qed
      with Node.IH(2) [OF sub(2) st(2) ok(2)] False nb step show ?thesis by (auto simp: x)
    qed
  qed
qed

end
