(* ===== verification/Vmm_Free.thy ===== *)
theory Vmm_Free
  imports Vmm_Tree
begin

text \<open>
  The free regions of the virtual memory manager refine a list of (address, page count) pairs:
  \<open>take_region\<close> is what \<open>remove_free_blocks\<close> does to that list. The pages of the list are then a
  set from which an allocation takes its pages.
\<close>

section \<open>The abstract list\<close>

type_synonym region = "u32 \<times> u32"

abbreviation region_block :: "region \<Rightarrow> vmm_free_blocks" where
  "region_block r \<equiv> \<lparr>fb_virtual_addr = fst r, fb_page_count = snd r, fb_next = NULL\<rparr>"

definition carve :: "u32 \<Rightarrow> u32 \<Rightarrow> region \<Rightarrow> (u32 \<times> region list) option" where
  "carve va pc r =
     (let a = fst r; c = snd r; off = (if va \<noteq> 0 then (va - a) div PAGE_SIZE else 0)
      in if c = pc then Some (va, [])
         else if pc > c - off then None
         else if va = 0 \<or> va = a then Some (a, [(a + pc * PAGE_SIZE, c - pc)])
         else if off + pc < c then Some (va, [(a, off), (a + (off + pc) * PAGE_SIZE, c - (off + pc))])
         else Some (va, [(a, c - pc)]))"

fun take_region :: "kernel_meminfo \<Rightarrow> u32 \<Rightarrow> u32 \<Rightarrow> bool \<Rightarrow> region list \<Rightarrow> (u32 \<times> region list) option" where
  "take_region mi va pc user [] = None"
| "take_region mi va pc user (r # rs) =
     (if region_matches mi va pc user (region_block r)
      then map_option (\<lambda>(addr, new). (addr, new @ rs)) (carve va pc r)
      else map_option (\<lambda>(addr, rs'). (addr, r # rs')) (take_region mi va pc user rs))"

section \<open>The list in the store\<close>

definition region_of :: "vmm_free_blocks store \<Rightarrow> u32 \<Rightarrow> region" where
  "region_of bs p = (fb_virtual_addr (bs p), fb_page_count (bs p))"

definition free_inv :: "vmm_context \<Rightarrow> 'a vmm_state_scheme \<Rightarrow> u32 set \<Rightarrow> u32 list \<Rightarrow> bool" where
  "free_inv ctx s L ns \<longleftrightarrow> list_at (fb_next \<circ> blocks s) (free_blocks ctx) ns \<and> set ns \<subseteq> L"

lemma region_matches_of: "region_matches mi va pc user (bs p) = region_matches mi va pc user (region_block (region_of bs p))"
  by (simp add: region_matches_def region_of_def is_addr_in_range_def)

lemma find_region_none:
  assumes "list_at (fb_next \<circ> bs) p ns" and "\<forall>n \<in> set ns. \<not> region_matches mi va pc user (bs n)"
  shows "\<exists>prev'. find_region mi va pc user p prev bs = Some (NULL, prev')"
  using assms
proof (induction ns arbitrary: p prev)
  case (Cons n ns)
  then show ?case by (subst find_region.simps) auto
qed (simp add: find_region.simps)

lemma find_region_found:
  assumes "list_at (fb_next \<circ> bs) p (pre @ x # post)" and "\<forall>n \<in> set pre. \<not> region_matches mi va pc user (bs n)"
    and "region_matches mi va pc user (bs x)"
  shows "find_region mi va pc user p prev bs = Some (x, last (prev # pre))"
  using assms
proof (induction pre arbitrary: p prev)
  case (Cons n pre)
  then show ?case by (subst find_region.simps) auto
qed (simp add: find_region.simps)

lemma take_region_none:
  "\<forall>n \<in> set ns. \<not> region_matches mi va pc user (bs n) \<Longrightarrow> take_region mi va pc user (map (region_of bs) ns) = None"
  by (induction ns) (simp_all add: region_matches_of)

lemma take_region_found:
  "\<forall>n \<in> set pre. \<not> region_matches mi va pc user (bs n) \<Longrightarrow> region_matches mi va pc user (bs x) \<Longrightarrow>
   take_region mi va pc user (map (region_of bs) (pre @ x # post)) =
     map_option (\<lambda>(addr, new). (addr, map (region_of bs) pre @ new @ map (region_of bs) post)) (carve va pc (region_of bs x))"
  by (induction pre) (auto simp: region_matches_of option.map_comp comp_def case_prod_unfold)

text \<open>Replacing the data of one node, keeping its link.\<close>

lemma list_at_data:
  assumes "list_at (fb_next \<circ> bs) p ns" and "fb_next v = fb_next (bs x)"
  shows "list_at (fb_next \<circ> bs(x := v)) p ns"
proof -
  have "fb_next \<circ> bs(x := v) = fb_next \<circ> bs" using assms(2) by (auto simp: fun_eq_iff)
  with assms(1) show ?thesis by simp
qed

lemma map_region_of_upd [simp]: "x \<notin> set ns \<Longrightarrow> map (region_of (bs(x := b))) ns = map (region_of bs) ns"
  by (auto simp: region_of_def)

text \<open>Unlinking a node.\<close>

lemma unlink_block_list:
  assumes "kmalloc_inv s L" and "free_inv ctx s L (pre @ x # post)" and "unlink_block ctx x (last (NULL # pre)) s = (ctx', s')"
  shows "free_inv ctx' s' (L - {x}) (pre @ post)" and "kmalloc_inv s' (L - {x})"
    and "map (region_of (blocks s')) (pre @ post) = map (region_of (blocks s)) (pre @ post)"
    and "trees s' = trees s" and "allocations ctx' = allocations ctx"
proof -
  from assms(2) have path: "list_at (fb_next \<circ> blocks s) (free_blocks ctx) (pre @ x # post)" and sub: "set (pre @ x # post) \<subseteq> L"
    by (simp_all add: free_inv_def)
  note parts = list_at_parts [OF path]
  note redirect = list_at_redirect [OF path parts(3,6)]
  have x: "x \<in> L" using sub by simp
  show "trees s' = trees s" "allocations ctx' = allocations ctx"
    using assms(3) by (auto simp: unlink_block_def split: if_splits)
  show "kmalloc_inv s' (L - {x})"
    using assms(3) km.release_inv [OF _ x] assms(1) by (auto simp: unlink_block_def split: if_splits)
  have nonnull: "pre \<noteq> [] \<Longrightarrow> last pre \<noteq> NULL" using parts(7) by (metis last_in_set)
  have bs': "blocks s' = (if pre = [] then blocks s else (blocks s)(last pre := (blocks s (last pre))\<lparr>fb_next := fb_next (blocks s x)\<rparr>))"
    using assms(3) nonnull by (auto simp: unlink_block_def split: if_splits)
  have "list_at (fb_next \<circ> blocks s') (free_blocks ctx') (pre @ post)"
  proof (cases "pre = []")
    case True
    with assms(3) redirect(1) show ?thesis by (auto simp: unlink_block_def bs' comp_def)
  next
    case False
    have "fb_next \<circ> blocks s' = (fb_next \<circ> blocks s)(last pre := (fb_next \<circ> blocks s) x)"
      using False by (auto simp: bs' fun_eq_iff)
    moreover have "free_blocks ctx' = free_blocks ctx"
      using False nonnull assms(3) by (auto simp: unlink_block_def split: if_splits)
    ultimately show ?thesis using redirect(2) [OF False] by simp
  qed
  then show "free_inv ctx' s' (L - {x}) (pre @ post)" using sub parts(4,5) by (auto simp: free_inv_def)
  show "map (region_of (blocks s')) (pre @ post) = map (region_of (blocks s)) (pre @ post)"
    by (auto simp: bs' region_of_def)
qed

text \<open>Inserting a fresh node \<open>q\<close> behind \<open>x\<close>.\<close>

lemma insert_after_list:
  assumes path: "list_at (fb_next \<circ> bs) p (pre @ x # post)" and q: "q \<noteq> NULL" "q \<notin> set (pre @ x # post)"
    and v: "fb_next v = fb_next (bs x)" and b: "fb_next b = q"
  shows "list_at (fb_next \<circ> bs(q := v, x := b)) p (pre @ x # q # post)"
proof -
  let ?nxt = "(fb_next \<circ> bs)(q := fb_next (bs x))"
  have path': "list_at ?nxt p (pre @ x # post)" using path q(2) by simp
  note parts = list_at_parts [OF path]
  have "list_at (?nxt(x := q)) q (q # post)" using parts(3,5) q by (simp add: fun_upd_twist)
  from list_at_relink [OF path' this] have "list_at (?nxt(x := q)) p (pre @ x # q # post)" .
  moreover have "fb_next \<circ> bs(q := v, x := b) = ?nxt(x := q)" using v b q(2) by (auto simp: fun_eq_iff)
  ultimately show ?thesis by simp
qed

section \<open>Taking pages\<close>

text \<open>A result \<open>r\<close> of taking pages from the list \<open>ns\<close> that agrees with the result \<open>t\<close> on lists of regions.\<close>

definition region_taken ::
  "vmm_context \<Rightarrow> 'a vmm_state_scheme \<Rightarrow> u32 set \<Rightarrow> u32 list \<Rightarrow> (u32 \<times> region list) option \<Rightarrow> (u32 \<times> vmm_context \<times> 'a vmm_state_scheme) comp \<Rightarrow> bool" where
  "region_taken ctx s L ns t r \<longleftrightarrow> (\<exists>addr rs ctx' s' ns' L'. t = Some (addr, rs) \<and> r = ret (addr, ctx', s') \<and>
     free_inv ctx' s' L' ns' \<and> map (region_of (blocks s')) ns' = rs \<and> kmalloc_inv s' L' \<and>
     trees s' = trees s \<and> allocations ctx' = allocations ctx \<and> L - set ns \<subseteq> L' - set ns')"

lemma region_takenI:
  assumes "free_inv ctx' s' L' ns'" and "map (region_of (blocks s')) ns' = rs" and "kmalloc_inv s' L'"
    and "trees s' = trees s" and "allocations ctx' = allocations ctx" and "L - set ns \<subseteq> L' - set ns'"
  shows "region_taken ctx s L ns (Some (addr, rs)) (ret (addr, ctx', s'))"
  using assms by (auto simp: region_taken_def)

text \<open>The three ways: the node is unlinked, its data are changed, or a second node is put behind it.\<close>

lemma region_taken_unlink:
  assumes "kmalloc_inv s L" and "free_inv ctx s L (pre @ x # post)" and "unlink_block ctx x (last (NULL # pre)) s = (ctx', s')"
  shows "region_taken ctx s L (pre @ x # post) (Some (addr, map (region_of (blocks s)) (pre @ post))) (ret (addr, ctx', s'))"
  using unlink_block_list [OF assms] by (intro region_takenI [where L' = "L - {x}"]) auto

lemma region_taken_shrink:
  assumes heap: "kmalloc_inv s L" and free: "free_inv ctx s L (pre @ x # post)" and f: "fb_next (f (blocks s x)) = fb_next (blocks s x)"
    and r: "r = (fb_virtual_addr (f (blocks s x)), fb_page_count (f (blocks s x)))"
  shows "region_taken ctx s L (pre @ x # post) (Some (addr, map (region_of (blocks s)) pre @ r # map (region_of (blocks s)) post))
    (ret (addr, ctx, update_block x f s))"
proof -
  have path: "list_at (fb_next \<circ> blocks s) (free_blocks ctx) (pre @ x # post)" and sub: "set (pre @ x # post) \<subseteq> L"
    using free by (simp_all add: free_inv_def)
  have "free_inv ctx (update_block x f s) L (pre @ x # post)" using list_at_data [OF path f] sub by (simp add: free_inv_def)
  moreover have "map (region_of (blocks (update_block x f s))) (pre @ x # post) =
      map (region_of (blocks s)) pre @ r # map (region_of (blocks s)) post"
    using list_at_parts(4,5) [OF path] by simp (simp add: region_of_def r)
  ultimately show ?thesis using heap by (intro region_takenI) auto
qed

lemma region_taken_split:
  assumes heap: "kmalloc_inv s1 (insert q L)" and free: "free_inv ctx s L (pre @ x # post)" and q: "q \<noteq> NULL" "q \<notin> L"
    and b: "fb_next b = q" and v: "fb_next v = fb_next (blocks s x)"
    and s1: "trees s1 = trees s" and r: "r = (fb_virtual_addr b, fb_page_count b)" "r' = (fb_virtual_addr v, fb_page_count v)"
  shows "region_taken ctx s L (pre @ x # post) (Some (addr, map (region_of (blocks s)) pre @ r # r' # map (region_of (blocks s)) post))
    (ret (addr, ctx, s1\<lparr>blocks := (blocks s)(q := v, x := b)\<rparr>))"
proof -
  let ?s' = "s1\<lparr>blocks := (blocks s)(q := v, x := b)\<rparr>"
  have path: "list_at (fb_next \<circ> blocks s) (free_blocks ctx) (pre @ x # post)" and sub: "set (pre @ x # post) \<subseteq> L"
    using free by (simp_all add: free_inv_def)
  have qns: "q \<notin> set (pre @ x # post)" using q(2) sub by auto
  have "list_at (fb_next \<circ> blocks ?s') (free_blocks ctx) (pre @ x # q # post)"
    using insert_after_list [OF path q(1) qns v b] by simp
  then have "free_inv ctx ?s' (insert q L) (pre @ x # q # post)" using sub by (auto simp: free_inv_def)
  moreover have "map (region_of (blocks ?s')) (pre @ x # q # post) = map (region_of (blocks s)) pre @ r # r' # map (region_of (blocks s)) post"
    using qns list_at_parts(4,5) [OF path] by simp (simp add: region_of_def r)
  ultimately show ?thesis using q(2) by (intro region_takenI) (auto simp: heap s1)
qed

text \<open>A request that the region at \<open>x\<close> matches, by where its pages lie in the region.\<close>

lemma remove_from_block:
  assumes heap: "kmalloc_inv s L" and free: "free_inv ctx s L (pre @ x # post)"
    and fr: "find_region mi va pc user (free_blocks ctx) NULL (blocks s) = Some (x, last (NULL # pre))"
    and ge: "pc \<le> fb_page_count (blocks s x)" and x: "x \<noteq> NULL" "free_blocks ctx \<noteq> NULL"
    and t: "t = map_option (\<lambda>(addr, new). (addr, map (region_of (blocks s)) pre @ new @ map (region_of (blocks s)) post)) (carve va pc (region_of (blocks s) x))"
    and r: "r = remove_free_blocks mi ctx va pc user s"
  shows "t = None \<and> (\<exists>e. r = fail (Panic e)) \<or> r = fail Null_deref \<or> region_taken ctx s L (pre @ x # post) t r"
proof -
  let ?bs = "blocks s"
  define off where "off = (if va \<noteq> 0 then (va - fb_virtual_addr (?bs x)) div PAGE_SIZE else 0)"
  note def = remove_free_blocks_def fr x off_def Let_def and carve = carve_def region_of_def Let_def off_def
  consider (exact) "fb_page_count (?bs x) = pc"
    | (short) "pc < fb_page_count (?bs x)" "fb_page_count (?bs x) - off < pc"
    | (front) "pc < fb_page_count (?bs x)" "\<not> fb_page_count (?bs x) - off < pc" "va = 0 \<or> va = fb_virtual_addr (?bs x)"
    | (mid) "pc < fb_page_count (?bs x)" "\<not> fb_page_count (?bs x) - off < pc" "\<not> (va = 0 \<or> va = fb_virtual_addr (?bs x))"
        "off + pc < fb_page_count (?bs x)"
    | (rear) "pc < fb_page_count (?bs x)" "\<not> fb_page_count (?bs x) - off < pc" "\<not> (va = 0 \<or> va = fb_virtual_addr (?bs x))"
        "\<not> off + pc < fb_page_count (?bs x)"
    using ge by fastforce
  then show ?thesis
  proof cases
    case exact
    obtain ctx' s' where u: "unlink_block ctx x (last (NULL # pre)) s = (ctx', s')" by (metis surj_pair)
    have "r = ret (va, ctx', s')" "carve va pc (region_of ?bs x) = Some (va, [])" using exact u by (simp_all add: r def carve)
    then show ?thesis using region_taken_unlink [OF heap free u, of va] by (simp add: t)
  next
    case short
    then have "carve va pc (region_of ?bs x) = None" "r = fail (Panic ''out of memory'')" by (simp_all add: r def carve)
    then show ?thesis by (simp add: t)
  next
    case front
    let ?f = "\<lambda>b. b\<lparr>fb_virtual_addr := fb_virtual_addr b + pc * PAGE_SIZE, fb_page_count := fb_page_count b - pc\<rparr>"
    have "r = ret (fb_virtual_addr (?bs x), ctx, update_block x ?f s)" using front by (auto simp: r def)
    moreover have "carve va pc (region_of ?bs x) = Some (fb_virtual_addr (?bs x), [(fb_virtual_addr (?bs x) + pc * PAGE_SIZE, fb_page_count (?bs x) - pc)])"
      using front by (auto simp: carve)
    ultimately show ?thesis using region_taken_shrink [OF heap free, of ?f] by (simp add: t)
  next
    case rear
    let ?f = "\<lambda>b. b\<lparr>fb_page_count := fb_page_count b - pc\<rparr>"
    have "r = ret (va, ctx, update_block x ?f s)" using rear by (auto simp: r def)
    moreover have "carve va pc (region_of ?bs x) = Some (va, [(fb_virtual_addr (?bs x), fb_page_count (?bs x) - pc)])"
      using rear by (auto simp: carve)
    ultimately show ?thesis using region_taken_shrink [OF heap free, of ?f] by (simp add: t)
  next
    case mid
    let ?v = "\<lparr>fb_virtual_addr = fb_virtual_addr (?bs x) + (off + pc) * PAGE_SIZE,
               fb_page_count = fb_page_count (?bs x) - (off + pc), fb_next = fb_next (?bs x)\<rparr>"
    from heap show ?thesis
    proof (cases rule: new_block_cases [where v = ?v])
      case full
      with mid have "r = fail Null_deref" by (auto simp: r def)
      then show ?thesis by simp
    next
      case (node q s1)
      let ?b = "(?bs x)\<lparr>fb_next := q, fb_page_count := off\<rparr>"
      have "q \<noteq> x" using node(3) free by (auto simp: free_inv_def)
      then have "r = ret (va, ctx, s1\<lparr>blocks := ?bs(q := ?v, x := ?b)\<rparr>)" using mid node(1,5) by (auto simp: r def)
      moreover have "carve va pc (region_of ?bs x) = Some (va, [(fb_virtual_addr (?bs x), off),
          (fb_virtual_addr (?bs x) + (off + pc) * PAGE_SIZE, fb_page_count (?bs x) - (off + pc))])" using mid by (auto simp: carve)
      ultimately show ?thesis using region_taken_split [OF node(4) free node(2,3), of ?b ?v] node(6) by (simp add: t)
    qed
  qed
qed

lemma remove_free_blocks_refines:
  assumes heap: "kmalloc_inv s L" and free: "free_inv ctx s L ns"
  obtains (panic) e where "take_region mi va pc user (map (region_of (blocks s)) ns) = None"
      "remove_free_blocks mi ctx va pc user s = fail (Panic e)"
  | (full) "remove_free_blocks mi ctx va pc user s = fail Null_deref"
  | (taken) addr rs ctx' s' ns' L' where
      "take_region mi va pc user (map (region_of (blocks s)) ns) = Some (addr, rs)"
      "remove_free_blocks mi ctx va pc user s = ret (addr, ctx', s')"
      "free_inv ctx' s' L' ns'" "map (region_of (blocks s')) ns' = rs" "kmalloc_inv s' L'"
      "trees s' = trees s" "allocations ctx' = allocations ctx" "L - set ns \<subseteq> L' - set ns'"
proof -
  let ?bs = "blocks s"
  have path: "list_at (fb_next \<circ> ?bs) (free_blocks ctx) ns" using free by (simp add: free_inv_def)
  show thesis
  proof (cases "\<forall>n \<in> set ns. \<not> region_matches mi va pc user (?bs n)")
    case True
    obtain prev where "find_region mi va pc user (free_blocks ctx) NULL ?bs = Some (NULL, prev)"
      using find_region_none [OF path True] by blast
    then have "\<exists>e. remove_free_blocks mi ctx va pc user s = fail (Panic e)"
      by (cases "free_blocks ctx = NULL") (auto simp: remove_free_blocks_def)
    then show thesis using panic take_region_none [OF True] by blast
  next
    case False
    then obtain pre x post where ns: "ns = pre @ x # post" and pre: "\<forall>n \<in> set pre. \<not> region_matches mi va pc user (?bs n)"
      and mx: "region_matches mi va pc user (?bs x)" using split_list_first_prop [of ns "\<lambda>n. region_matches mi va pc user (?bs n)"] by blast
    have "pc \<le> fb_page_count (?bs x)" using mx by (simp add: region_matches_def Let_def)
    moreover have "x \<noteq> NULL" "free_blocks ctx \<noteq> NULL" using list_at_parts(2) [OF path [unfolded ns]] path ns by auto
    ultimately show thesis
      using remove_from_block [OF heap free [unfolded ns] find_region_found [OF path [unfolded ns] pre mx] _ _ _
          take_region_found [OF pre mx, of post] refl, folded ns] that unfolding region_taken_def by blast
  qed
qed

section \<open>The pages of the list\<close>

definition pages :: "region \<Rightarrow> nat set" where
  "pages r = {unat (fst r) div 4096 ..< unat (fst r) div 4096 + unat (snd r)}"

definition region_ok :: "region \<Rightarrow> bool" where
  "region_ok r \<longleftrightarrow> paging_is_aligned (fst r) \<and> 0 < unat (snd r) \<and> unat (fst r) + unat (snd r) * 4096 \<le> 2 ^ 32"

primrec regions_ok :: "region list \<Rightarrow> bool" where
  "regions_ok [] \<longleftrightarrow> True"
| "regions_ok (r # rs) \<longleftrightarrow> region_ok r \<and> (\<forall>q \<in> set rs. pages r \<inter> pages q = {}) \<and> regions_ok rs"

definition free_pages :: "region list \<Rightarrow> nat set" where
  "free_pages rs = (\<Union>r \<in> set rs. pages r)"

lemma free_pages_simps [simp]:
  "free_pages [] = {}" "free_pages (r # rs) = pages r \<union> free_pages rs" "free_pages (rs @ qs) = free_pages rs \<union> free_pages qs"
  by (auto simp: free_pages_def)

lemma regions_ok_append:
  "regions_ok (rs @ qs) \<longleftrightarrow> regions_ok rs \<and> regions_ok qs \<and> free_pages rs \<inter> free_pages qs = {}"
  by (induction rs) (auto simp: free_pages_def)

lemma region_addr:
  assumes "paging_is_aligned a" and "unat a + k * 4096 < 2 ^ 32"
  shows "unat (a + of_nat k * PAGE_SIZE) = unat a + k * 4096"
    and "unat (a + of_nat k * PAGE_SIZE) div 4096 = unat a div 4096 + k"
    and "paging_is_aligned (a + of_nat k * PAGE_SIZE)"
proof -
  have "unat (of_nat k * 4096 :: u32) = k * 4096" using assms(2) by (simp add: unat_word_ariths unat_of_nat)
  with assms(2) show u: "unat (a + of_nat k * PAGE_SIZE) = unat a + k * 4096" by (simp add: c_const unat_word_ariths)
  show "unat (a + of_nat k * PAGE_SIZE) div 4096 = unat a div 4096 + k" by (simp add: u)
  show "paging_is_aligned (a + of_nat k * PAGE_SIZE)" using assms(1) by (simp add: paging_is_aligned_unat u)
qed

lemma is_addr_in_range_unat:
  "is_addr_in_range va b \<longleftrightarrow> unat (fb_virtual_addr b) \<le> unat va \<and> unat va < unat (fb_virtual_addr b) + unat (fb_page_count b) * 4096"
proof -
  have "unat (fb_virtual_addr b) < 4294967296" "unat (fb_page_count b) < 4294967296" by simp_all
  then have "unat (ucast (fb_virtual_addr b) + ucast (fb_page_count b) * 4096 :: u64) = unat (fb_virtual_addr b) + unat (fb_page_count b) * 4096"
    by (simp add: unat_word_ariths del: unat_u32_less)
  then show ?thesis by (simp add: is_addr_in_range_def Let_def word_le_nat_alt word_less_nat_alt)
qed

text \<open>
  The four ways to carve pages out of a region, with the addresses counted in pages: \<open>A\<close> and \<open>C\<close> are the first page
  and the size of the region, \<open>P\<close> pages are requested at page \<open>V\<close>.
\<close>

lemma carve_cases:
  assumes A: "unat a = 4096 * A" and V: "unat va = 4096 * V" and C: "C = unat c" "0 < C" and P: "P = unat pc" "P \<le> C"
    and lim: "4096 * A + C * 4096 \<le> 2 ^ 32" and inr: "va \<noteq> 0 \<longrightarrow> A \<le> V \<and> V < A + C"
    and fit: "c = pc \<longrightarrow> va = a" and r: "carve va pc (a, c) = Some (addr, new)"
  obtains (exact) "C = P" "addr = a" "va = a" "new = []"
    | (front) "P < C" "addr = a" "va = 0 \<or> va = a" "new = [(a + pc * PAGE_SIZE, c - pc)]"
    | (mid) off where "addr = va" "va \<noteq> 0" "va \<noteq> a" "unat off = V - A" "V - A + P < C"
        "new = [(a, off), (a + (off + pc) * PAGE_SIZE, c - (off + pc))]"
    | (rear) "addr = va" "va \<noteq> 0" "va \<noteq> a" "P < C" "V - A + P = C" "new = [(a, c - pc)]"
proof -
  define off where "off = (if va \<noteq> 0 then (va - a) div PAGE_SIZE else 0)"
  define F where "F = (if va \<noteq> 0 then V - A else 0)"
  have "a \<le> va" if "va \<noteq> 0" using inr that A V by (simp add: word_le_nat_alt)
  then have off: "unat off = F" using inr A V
    by (auto simp: off_def F_def c_const unat_div unat_sub diff_mult_distrib2 [symmetric])
  have FC: "F < C" using inr C(2) by (auto simp: F_def)
  have exact_iff: "c = pc \<longleftrightarrow> C = P" by (simp add: C P word_unat_eq_iff)
  have "unat (c - off) = C - F" using FC off by (simp add: C unat_sub word_le_nat_alt)
  then have short_iff: "pc > c - off \<longleftrightarrow> P > C - F" by (simp add: word_less_nat_alt P)
  have "F + P < 2 ^ 32" using FC P(2) lim by simp
  then have split_iff: "off + pc < c \<longleftrightarrow> F + P < C" by (simp add: word_less_nat_alt unat_simps off P C)
  have "(if c = pc then Some (va, [])
       else if pc > c - off then None
       else if va = 0 \<or> va = a then Some (a, [(a + pc * PAGE_SIZE, c - pc)])
       else if off + pc < c then Some (va, [(a, off), (a + (off + pc) * PAGE_SIZE, c - (off + pc))])
       else Some (va, [(a, c - pc)])) = Some (addr, new)"
    using r by (simp only: carve_def Let_def fst_conv snd_conv off_def)
  then show thesis
    using P(2) fit exact_iff short_iff split_iff FC off that by (auto split: if_splits simp: F_def)
qed

text \<open>The pages that are carved out of a region leave it, and only they do.\<close>

lemma carve_pages:
  assumes ok: "region_ok (a, c)" and al: "paging_is_aligned va" and pc: "0 < unat pc"
    and m: "region_matches mi va pc user (region_block (a, c))"
    and fit: "c = pc \<longrightarrow> va = a" and r: "carve va pc (a, c) = Some (addr, new)"
  shows "pages (addr, pc) \<subseteq> pages (a, c) \<and> free_pages new = pages (a, c) - pages (addr, pc) \<and> regions_ok new \<and>
    (va \<noteq> 0 \<longrightarrow> addr = va) \<and> region_ok (addr, pc)"
proof -
  obtain A where A: "unat a = 4096 * A" using ok by (auto simp: region_ok_def paging_is_aligned_unat)
  obtain V where V: "unat va = 4096 * V" using al by (auto simp: paging_is_aligned_unat)
  define C P where "C = unat c" and "P = unat pc"
  have lim: "4096 * A + C * 4096 \<le> 2 ^ 32" and C0: "0 < C" using ok A by (auto simp: region_ok_def C_def)
  have PC: "P \<le> C" "0 < P" using m pc by (auto simp: region_matches_def Let_def C_def P_def word_le_nat_alt)
  have inr: "va \<noteq> 0 \<longrightarrow> A \<le> V \<and> V < A + C"
    using m A V by (auto simp: region_matches_def Let_def is_addr_in_range_unat C_def)
  have pa: "unat (a + x * PAGE_SIZE) = 4096 * (A + unat x)" "paging_is_aligned (a + x * PAGE_SIZE)" if "unat x < C" for x
    using region_addr [of a "unat x"] that lim ok A by (simp_all add: region_ok_def algebra_simps)
  have diff: "unat (c - x) = C - unat x" if "unat x \<le> C" for x
    using that by (simp add: C_def unat_sub word_le_nat_alt)
  note pages = pages_def region_ok_def C_def [symmetric] P_def [symmetric]
  from A V C_def C0 P_def PC(1) lim inr fit r show ?thesis
  proof (cases rule: carve_cases)
    case exact
    then have "c = pc" by (simp add: C_def P_def word_unat_eq_iff)
    with exact ok show ?thesis by simp
  next
    case front
    have "unat (a + pc * PAGE_SIZE) = 4096 * (A + P)" "paging_is_aligned (a + pc * PAGE_SIZE)" "unat (c - pc) = C - P"
      using pa [of pc] diff [of pc] front(1) by (simp_all add: P_def)
    with front A lim PC ok show ?thesis by (auto simp: pages)
  next
    case (mid off)
    have "unat (off + pc) = V - A + P" using mid(4,5) lim by (simp add: unat_simps P_def)
    then have "unat (a + (off + pc) * PAGE_SIZE) = 4096 * (A + (V - A + P))" "paging_is_aligned (a + (off + pc) * PAGE_SIZE)"
      "unat (c - (off + pc)) = C - (V - A + P)"
      using pa [of "off + pc"] diff [of "off + pc"] mid(5) by simp_all
    moreover have "A < V" using inr mid(2,3) A V by (auto simp: word_unat_eq_iff)
    ultimately show ?thesis using mid A V lim PC ok al by (auto simp: pages)
  next
    case rear
    have "unat (c - pc) = C - P" using diff [of pc] PC(1) by (simp add: P_def)
    moreover have "A < V" using inr rear(2,3) A V by (auto simp: word_unat_eq_iff)
    ultimately show ?thesis using rear A V lim PC ok al by (auto simp: pages)
  qed
qed

text \<open>A region of exactly the requested size is handed out only if it starts at the requested address.\<close>

definition fits_at_start :: "kernel_meminfo \<Rightarrow> u32 \<Rightarrow> u32 \<Rightarrow> bool \<Rightarrow> region list \<Rightarrow> bool" where
  "fits_at_start mi va pc user rs \<longleftrightarrow>
     (\<forall>r \<in> set rs. region_matches mi va pc user (region_block r) \<and> snd r = pc \<longrightarrow> fst r = va)"

lemma take_region_pages:
  assumes "regions_ok rs" and "paging_is_aligned va" and "0 < unat pc" and "fits_at_start mi va pc user rs"
    and "take_region mi va pc user rs = Some (addr, rs')"
  shows "pages (addr, pc) \<subseteq> free_pages rs \<and> free_pages rs' = free_pages rs - pages (addr, pc) \<and> regions_ok rs' \<and>
    (va \<noteq> 0 \<longrightarrow> addr = va) \<and> region_ok (addr, pc)"
  using assms(1,4,5)
proof (induction rs arbitrary: rs')
  case (Cons r rs)
  obtain a c where r: "r = (a, c)" by (cases r)
  have disj: "pages r \<inter> free_pages rs = {}" using Cons.prems(1) by (auto simp: free_pages_def)
  show ?case
  proof (cases "region_matches mi va pc user (region_block r)")
    case True
    with Cons.prems(3) obtain new where cv: "carve va pc (a, c) = Some (addr, new)" and rs': "rs' = new @ rs"
      by (auto simp: r)
    have ok: "region_ok (a, c)" and "c = pc \<longrightarrow> va = a" using Cons.prems(1,2) True by (auto simp: fits_at_start_def r)
    then have c: "pages (addr, pc) \<subseteq> pages (a, c)" "free_pages new = pages (a, c) - pages (addr, pc)" "regions_ok new"
        "va \<noteq> 0 \<longrightarrow> addr = va" "region_ok (addr, pc)"
      using carve_pages [OF ok assms(2,3) True [unfolded r] _ cv] by blast+
    have "free_pages rs' = free_pages (r # rs) - pages (addr, pc)" "pages (addr, pc) \<subseteq> free_pages (r # rs)"
      using c(1,2) disj by (auto simp: rs' r)
    moreover have "regions_ok rs'" using c(2,3) Cons.prems(1) disj by (auto simp: rs' r regions_ok_append)
    ultimately show ?thesis using c(4,5) by auto
  next
    case False
    with Cons.prems(3) obtain qs where qs: "take_region mi va pc user rs = Some (addr, qs)" "rs' = r # qs" by auto
    have IH: "pages (addr, pc) \<subseteq> free_pages rs" "free_pages qs = free_pages rs - pages (addr, pc)" "regions_ok qs"
      "va \<noteq> 0 \<longrightarrow> addr = va" "region_ok (addr, pc)"
      using Cons.IH [OF _ _ qs(1)] Cons.prems(1,2) by (auto simp: fits_at_start_def)
    then have "pages r \<inter> pages q = {}" if "q \<in> set qs" for q
      using that disj by (auto simp: free_pages_def)
    with IH disj Cons.prems(1) show ?thesis by (auto simp: qs(2))
  qed
qed simp

section \<open>Mapping pages\<close>

definition alloc_pages :: "vmm_allocation \<Rightarrow> nat set" where
  "alloc_pages a = pages (al_virtual_addr a, al_page_count a)"

text \<open>
  The invariant of an address space: both structures are made of different live heap blocks, the
  free regions are well formed and disjoint, the tree is a search tree of disjoint allocations,
  and no allocated page is free.
\<close>

definition vmm_inv :: "vmm_context \<Rightarrow> 'a vmm_state_scheme \<Rightarrow> u32 set \<Rightarrow> u32 list \<Rightarrow> alloc_tree \<Rightarrow> bool" where
  "vmm_inv ctx s L ns t \<longleftrightarrow>
     kmalloc_inv s L \<and> free_inv ctx s L ns \<and> tree_inv ctx s L t \<and> set ns \<inter> set (nodes t) = {} \<and> t \<noteq> \<langle>\<rangle> \<and>
     regions_ok (map (region_of (blocks s)) ns) \<and> search_tree t \<and> allocs_ok (set (allocs t)) \<and>
     (\<forall>a \<in> set (allocs t). paging_is_aligned (al_virtual_addr a) \<and>
        alloc_pages a \<inter> free_pages (map (region_of (blocks s)) ns) = {})"

lemma interval_pages:
  assumes "paging_is_aligned (al_virtual_addr a)"
  shows "x \<in> interval a \<longleftrightarrow> x div 4096 \<in> alloc_pages a"
proof -
  obtain k where "unat (al_virtual_addr a) = 4096 * k" using assms by (auto simp: paging_is_aligned_unat)
  then show ?thesis by (simp add: interval_def alloc_pages_def pages_def) linarith
qed

lemma intervals_disjoint:
  assumes "paging_is_aligned (al_virtual_addr a)" and "paging_is_aligned (al_virtual_addr b)"
    and "alloc_pages a \<inter> alloc_pages b = {}"
  shows "interval a \<inter> interval b = {}"
  using assms(3) interval_pages [OF assms(1)] interval_pages [OF assms(2)] by auto

text \<open>An allocation whose pages were free goes into the tree.\<close>

lemma insert_alloc_ok:
  assumes st: "search_tree t" and ok: "allocs_ok (set (allocs t))" and al: "paging_is_aligned (al_virtual_addr a)"
    and a: "0 < unat (al_page_count a)" "unat (al_virtual_addr a) + unat (al_page_count a) * 4096 < 2 ^ 32"
    and sep: "\<forall>b \<in> set (allocs t). paging_is_aligned (al_virtual_addr b) \<and> alloc_pages a \<inter> alloc_pages b = {}"
  shows "search_tree (insert_alloc p a t)" and "allocs_ok (set (allocs (insert_alloc p a t)))"
proof -
  have apart: "interval a \<inter> interval b = {}" if "b \<in> set (allocs t)" for b
    using that sep al by (intro intervals_disjoint) auto
  have "al_virtual_addr b \<noteq> al_virtual_addr a" if "b \<in> set (allocs t)" for b
    using apart [OF that] that ok a(1) by (force simp: interval_def allocs_ok_def)
  then show "search_tree (insert_alloc p a t)" using st by (intro search_tree_insert) simp_all
  show "allocs_ok (set (allocs (insert_alloc p a t)))" using ok a apart by (auto simp: allocs_ok_def Int_commute)
qed

lemma vmm_map_pages_refines:
  assumes inv: "vmm_inv ctx s L ns t" and al: "paging_is_aligned va" "paging_is_aligned pa" and pc: "0 < unat pc"
    and fit: "fits_at_start mi va pc (fl AND PAGE_FLAG_USER \<noteq> 0) (map (region_of (blocks s)) ns)"
  obtains (panic) e where "vmm_map_pages mi ctx va pa pc fl s = fail (Panic e)"
      "take_region mi va pc (fl AND PAGE_FLAG_USER \<noteq> 0) (map (region_of (blocks s)) ns) = None"
  | (full) "vmm_map_pages mi ctx va pa pc fl s = fail Null_deref"
  | (mapped) addr ctx' s' L' ns' p where "vmm_map_pages mi ctx va pa pc fl s = ret (addr, ctx', s')"
      "take_region mi va pc (fl AND PAGE_FLAG_USER \<noteq> 0) (map (region_of (blocks s)) ns) = Some (addr, map (region_of (blocks s')) ns')"
      "va \<noteq> 0 \<Longrightarrow> addr = va" "paging_is_aligned addr" "pages (addr, pc) \<subseteq> free_pages (map (region_of (blocks s)) ns)"
      "free_pages (map (region_of (blocks s')) ns') = free_pages (map (region_of (blocks s)) ns) - pages (addr, pc)"
      "unat addr + unat pc * 4096 < 2 ^ 32 \<Longrightarrow> vmm_inv ctx' s' L' ns' (insert_alloc p (allocation addr pa pc fl) t)"
proof -
  let ?user = "fl AND PAGE_FLAG_USER \<noteq> 0" and ?rs = "map (region_of (blocks s)) ns"
  from inv have heap: "kmalloc_inv s L" and free: "free_inv ctx s L ns" and tree: "tree_inv ctx s L t"
    and disj: "set ns \<inter> set (nodes t) = {}" and ok: "regions_ok ?rs" and st: "search_tree t" "allocs_ok (set (allocs t))"
    and sep: "\<forall>a \<in> set (allocs t). paging_is_aligned (al_virtual_addr a) \<and> alloc_pages a \<inter> free_pages ?rs = {}"
    and ne: "t \<noteq> \<langle>\<rangle>" by (auto simp: vmm_inv_def)
  show thesis
  proof (cases "free_blocks ctx = NULL")
    case True
    then have "ns = []" using free by (simp add: free_inv_def)
    then show thesis using True al by (intro panic) (simp_all add: vmm_map_pages_def)
  next
    case nonnull: False
    note def = vmm_map_pages_def al nonnull Let_def
    from heap free show thesis
    proof (cases rule: remove_free_blocks_refines [where mi = mi and va = va and pc = pc and user = ?user])
      case (panic e)
      then show thesis using that(1) by (simp add: def)
    next
      case full
      then show thesis using that(2) by (simp add: def)
    next
      case (taken addr rs ctx' s1 ns' L')
      note tp = take_region_pages [OF ok al(1) pc fit taken(1)]
      obtain l q b r where t: "t = \<langle>l, (q, b), r\<rangle>" using ne by (metis neq_Leaf_iff surj_pair)
      have "al_page_count b \<noteq> 0" using st(2) by (auto simp: t allocs_ok_def)
      have nodes: "set (nodes t) \<subseteq> L' - set ns'" using tree disj taken(8) by (auto simp: tree_inv_def)
      then have tree': "tree_inv ctx' s1 L' \<langle>l, (q, b), r\<rangle>"
        using tree taken(6,7) by (auto simp: tree_inv_def t)
      from taken(5) tree' \<open>al_page_count b \<noteq> 0\<close> show thesis
      proof (cases rule: add_allocation_inserts [where va = addr and pa = pa and pc = pc and fl = fl])
        case full
        then show thesis using that(2) taken(2) by (simp add: def)
      next
        case (node p s')
        let ?a = "allocation addr pa pc fl"
        have r: "vmm_map_pages mi ctx va pa pc fl s = ret (addr, ctx', s')" using taken(2) node(1) by (simp add: def)
        have rs': "map (region_of (blocks s')) ns' = rs" using taken(4) node(6) by simp
        have "vmm_inv ctx' s' (insert p L') ns' (insert_alloc p ?a t)" if lim: "unat addr + unat pc * 4096 < 2 ^ 32"
        proof -
          have "\<forall>c \<in> set (allocs t). paging_is_aligned (al_virtual_addr c) \<and> alloc_pages ?a \<inter> alloc_pages c = {}"
            using sep tp by (auto simp: alloc_pages_def)
          then have "search_tree (insert_alloc p ?a t)" "allocs_ok (set (allocs (insert_alloc p ?a t)))"
            using insert_alloc_ok [OF st, of ?a p] tp lim pc by (simp_all add: region_ok_def)
          moreover have "free_inv ctx' s' (insert p L') ns'" "set ns' \<inter> set (nodes (insert_alloc p ?a t)) = {}"
            using taken(3) node(2,6) nodes by (auto simp: free_inv_def)
          moreover have "insert_alloc p ?a t \<noteq> \<langle>\<rangle>" by (simp add: t)
          ultimately show ?thesis
            using node(4,5) sep tp rs' by (auto simp: vmm_inv_def t [symmetric] alloc_pages_def region_ok_def)
        qed
        then show thesis using tp rs' taken(1) by (intro that(3) [OF r]) (auto simp: region_ok_def)
      qed
    qed
  qed
qed

end
