(* ===== verification/Address_Spec.thy ===== *)
theory Address_Spec
  imports Kernel_Prelude
begin

text \<open>
  What the page-fault handler and the creation of tasks rely on when they ask an address space what
  an address belongs to. The abstract state is the set of objects that are mapped; the law of the
  lookup after a mapping follows from the laws of the lookup alone, once a mapping is known to add
  one object.
\<close>

locale address_map =
  fixes inv :: "'s \<Rightarrow> 'a set \<Rightarrow> bool"
    and extent :: "'a \<Rightarrow> nat set"
    and find :: "u32 \<Rightarrow> 's \<Rightarrow> 'a comp"
    and none :: 'a
  assumes find_in: "inv s A \<Longrightarrow> a \<in> A \<Longrightarrow> unat va \<in> extent a \<Longrightarrow> find va s = ret a"
    and find_out: "inv s A \<Longrightarrow> \<forall>a \<in> A. unat va \<notin> extent a \<Longrightarrow> find va s = ret none"
    and none_extent: "extent none = {}"
begin

lemma find_returns:
  assumes "inv s A"
  obtains (found) a where "a \<in> A" "unat va \<in> extent a" "find va s = ret a"
  | (absent) "\<forall>a \<in> A. unat va \<notin> extent a" "find va s = ret none"
  using find_in [OF assms] find_out [OF assms] by blast

lemma find_iff:
  assumes "inv s A" and "a \<noteq> none"
  shows "find va s = ret a \<longleftrightarrow> a \<in> A \<and> unat va \<in> extent a"
  using assms(1)
proof (cases rule: find_returns [where va = va])
  case (found b)
  then show ?thesis using find_in [OF assms(1), of a va] by (auto simp: ret_def)
next
  case absent
  then show ?thesis using assms(2) by (auto simp: ret_def)
qed

lemma find_insert:
  assumes "inv s A" and "inv s' (insert b A)"
  shows "find va s' = (if unat va \<in> extent b then ret b else find va s)"
proof (cases "unat va \<in> extent b")
  case True
  with find_in [OF assms(2)] show ?thesis by simp
next
  case out: False
  from assms(1) show ?thesis
  proof (cases rule: find_returns [where va = va])
    case (found a)
    with find_in [OF assms(2), of a va] out show ?thesis by simp
  next
    case absent
    with find_out [OF assms(2), of va] out show ?thesis by simp
  qed
qed

end

text \<open>An address space that also hands out addresses.\<close>

locale address_space = address_map inv extent find none
  for inv :: "'s \<Rightarrow> 'a set \<Rightarrow> bool" and extent :: "'a \<Rightarrow> nat set" and find :: "u32 \<Rightarrow> 's \<Rightarrow> 'a comp" and none :: 'a +
  fixes admissible :: "'r \<Rightarrow> 's \<Rightarrow> bool"
    and map_region :: "'r \<Rightarrow> 's \<Rightarrow> (u32 \<times> 's) comp"
    and object :: "'r \<Rightarrow> u32 \<Rightarrow> 'a"
    and bounded :: "'a \<Rightarrow> bool"
  assumes map_inserts: "inv s A \<Longrightarrow> admissible r s \<Longrightarrow> map_region r s = ret (addr, s') \<Longrightarrow> bounded (object r addr) \<Longrightarrow>
        inv s' (insert (object r addr) A)"
    and map_fresh: "inv s A \<Longrightarrow> admissible r s \<Longrightarrow> map_region r s = ret (addr, s') \<Longrightarrow> a \<in> A \<Longrightarrow>
        extent a \<inter> extent (object r addr) = {}"
begin

lemma map_then_find:
  assumes "inv s A" and "admissible r s" and "map_region r s = ret (addr, s')" and "bounded (object r addr)"
  shows "find va s' = (if unat va \<in> extent (object r addr) then ret (object r addr) else find va s)"
  using assms(1) map_inserts [OF assms] by (rule find_insert)

lemma map_was_absent:
  assumes "inv s A" and "admissible r s" and "map_region r s = ret (addr, s')" and "unat va \<in> extent (object r addr)"
  shows "find va s = ret none"
  using map_fresh [OF assms(1-3)] assms(4) by (intro find_out [OF assms(1)]) auto

end

end
