(* ===== verification/Vmm_Map.thy ===== *)
theory Vmm_Map
  imports Vmm_Free Address_Spec
begin

text \<open>
  The address spaces of the virtual memory manager as implementations of \<open>address_space\<close>, and what
  this means for \<^verbatim>\<open>vmm_map_pages\<close>, \<^verbatim>\<open>vmm_find_allocation\<close> and \<^verbatim>\<open>vmm_new_context\<close> of \<^verbatim>\<open>src/kernel/arch/i386/mm/vmm.c\<close>.
\<close>

section \<open>The interface\<close>

text \<open>An address space and its set of allocations.\<close>

definition space_inv :: "vmm_context \<times> 'a vmm_state_scheme \<Rightarrow> vmm_allocation set \<Rightarrow> bool" where
  "space_inv cs A \<longleftrightarrow> (\<exists>L ns t. vmm_inv (fst cs) (snd cs) L ns t \<and> A = set (allocs t))"

abbreviation find_in_space :: "u32 \<Rightarrow> vmm_context \<times> 'a vmm_state_scheme \<Rightarrow> vmm_allocation comp" where
  "find_in_space va cs \<equiv> vmm_find_allocation (fst cs) va (snd cs)"

text \<open>A request: requested and physical address, page count, flags.\<close>

record request =
  rq_virtual_addr :: u32
  rq_physical_addr :: u32
  rq_page_count :: u32
  rq_flags :: u32

abbreviation for_user :: "u32 \<Rightarrow> bool" where
  "for_user flags \<equiv> flags AND PAGE_FLAG_USER \<noteq> 0"

definition free_regions :: "vmm_context \<Rightarrow> 'a vmm_state_scheme \<Rightarrow> region list \<Rightarrow> bool" where
  "free_regions ctx s rs \<longleftrightarrow> (\<exists>ns. list_at (fb_next \<circ> blocks s) (free_blocks ctx) ns \<and> rs = map (region_of (blocks s)) ns)"

definition admissible_request :: "kernel_meminfo \<Rightarrow> request \<Rightarrow> vmm_context \<times> 'a vmm_state_scheme \<Rightarrow> bool" where
  "admissible_request mi r cs \<longleftrightarrow>
     paging_is_aligned (rq_virtual_addr r) \<and> paging_is_aligned (rq_physical_addr r) \<and> rq_page_count r \<noteq> 0 \<and>
     (\<exists>rs. free_regions (fst cs) (snd cs) rs \<and> fits_at_start mi (rq_virtual_addr r) (rq_page_count r) (for_user (rq_flags r)) rs)"

definition map_in_space :: "kernel_meminfo \<Rightarrow> request \<Rightarrow> vmm_context \<times> 'a vmm_state_scheme \<Rightarrow> (u32 \<times> vmm_context \<times> 'a vmm_state_scheme) comp" where
  "map_in_space mi r cs =
     vmm_map_pages mi (fst cs) (rq_virtual_addr r) (rq_physical_addr r) (rq_page_count r) (rq_flags r) (snd cs)"

abbreviation granted :: "request \<Rightarrow> u32 \<Rightarrow> vmm_allocation" where
  "granted r addr \<equiv> allocation addr (rq_physical_addr r) (rq_page_count r) (rq_flags r)"

definition ends_in_range :: "vmm_allocation \<Rightarrow> bool" where
  "ends_in_range a \<longleftrightarrow> unat (al_virtual_addr a) + unat (al_page_count a) * 4096 < 2 ^ 32"

lemma vmm_find_allocation_covers:
  assumes "space_inv cs A"
  shows "a \<in> A \<Longrightarrow> unat va \<in> interval a \<Longrightarrow> find_in_space va cs = ret a"
    and "\<forall>a \<in> A. unat va \<notin> interval a \<Longrightarrow> find_in_space va cs = ret no_allocation"
proof -
  obtain L ns t where "vmm_inv (fst cs) (snd cs) L ns t" "A = set (allocs t)" using assms by (auto simp: space_inv_def)
  then show "a \<in> A \<Longrightarrow> unat va \<in> interval a \<Longrightarrow> find_in_space va cs = ret a"
    and "\<forall>a \<in> A. unat va \<notin> interval a \<Longrightarrow> find_in_space va cs = ret no_allocation"
    using find_allocation_tree [of "trees (snd cs)" "allocations (fst cs)" t va]
    by (auto simp: vmm_inv_def tree_inv_def vmm_find_allocation_def)
qed

lemma admissible_fits:
  assumes "vmm_inv (fst cs) (snd cs) L ns t" and "admissible_request mi r cs"
  shows "fits_at_start mi (rq_virtual_addr r) (rq_page_count r) (for_user (rq_flags r)) (map (region_of (blocks (snd cs))) ns)"
    and "paging_is_aligned (rq_virtual_addr r)" "paging_is_aligned (rq_physical_addr r)" "0 < unat (rq_page_count r)"
  using assms list_at_unique
  by (fastforce simp: admissible_request_def free_regions_def vmm_inv_def free_inv_def unat_gt_0)+

lemma map_in_space_inserts:
  assumes inv: "vmm_inv (fst cs) (snd cs) L ns t" and adm: "admissible_request mi r cs" and res: "map_in_space mi r cs = ret (addr, cs')"
  obtains L' ns' p where
    "ends_in_range (granted r addr) \<Longrightarrow> vmm_inv (fst cs') (snd cs') L' ns' (insert_alloc p (granted r addr) t)"
    "alloc_pages (granted r addr) \<subseteq> free_pages (map (region_of (blocks (snd cs))) ns)"
    "rq_virtual_addr r \<noteq> 0 \<Longrightarrow> addr = rq_virtual_addr r" "paging_is_aligned addr"
    "free_pages (map (region_of (blocks (snd cs'))) ns') = free_pages (map (region_of (blocks (snd cs))) ns) - alloc_pages (granted r addr)"
proof -
  note fits = admissible_fits [OF inv adm]
  from inv fits(2,3,4,1) show thesis
  proof (cases rule: vmm_map_pages_refines)
    case (mapped addr' ctx' s' L' ns' p)
    then have eq: "addr' = addr" "cs' = (ctx', s')" using res by (auto simp: map_in_space_def ret_def)
    show thesis by (rule that [of L' ns' p]) (use mapped eq in \<open>simp_all add: ends_in_range_def alloc_pages_def\<close>)
  qed (use res in \<open>simp_all add: map_in_space_def ret_def fail_def\<close>)
qed

interpretation sp: address_space space_inv interval find_in_space no_allocation
  "admissible_request mi" "map_in_space mi" granted ends_in_range for mi
proof
  fix cs :: "vmm_context \<times> 'a vmm_state_scheme" and A a va
  assume inv: "space_inv cs A"
  show "a \<in> A \<Longrightarrow> unat va \<in> interval a \<Longrightarrow> find_in_space va cs = ret a"
    and "\<forall>a \<in> A. unat va \<notin> interval a \<Longrightarrow> find_in_space va cs = ret no_allocation"
    using vmm_find_allocation_covers [OF inv] by blast+
  fix r addr cs'
  assume adm: "admissible_request mi r cs" and res: "map_in_space mi r cs = ret (addr, cs')"
  obtain L ns t where t: "vmm_inv (fst cs) (snd cs) L ns t" "A = set (allocs t)" using inv by (auto simp: space_inv_def)
  from map_in_space_inserts [OF t(1) adm res] obtain L' ns' p where m:
    "ends_in_range (granted r addr) \<Longrightarrow> vmm_inv (fst cs') (snd cs') L' ns' (insert_alloc p (granted r addr) t)"
    "alloc_pages (granted r addr) \<subseteq> free_pages (map (region_of (blocks (snd cs))) ns)" "paging_is_aligned addr" by metis
  show "ends_in_range (granted r addr) \<Longrightarrow> space_inv cs' (insert (granted r addr) A)"
    using m(1) t(2) unfolding space_inv_def by (metis set_insert_alloc(2))
  show "interval a \<inter> interval (granted r addr) = {}" if "a \<in> A"
    using that t m(2,3) by (intro intervals_disjoint) (auto simp: vmm_inv_def)
qed (simp add: interval_def no_allocation_def)

section \<open>New address spaces\<close>

text \<open>A space without allocations: the tree is one node with page count 0.\<close>

definition empty_space :: "vmm_context \<Rightarrow> 'a vmm_state_scheme \<Rightarrow> u32 set \<Rightarrow> u32 list \<Rightarrow> bool" where
  "empty_space ctx s L ns \<longleftrightarrow>
     kmalloc_inv s L \<and> free_inv ctx s L ns \<and> regions_ok (map (region_of (blocks s)) ns) \<and>
     allocations ctx \<in> L - set ns \<and> trees s (allocations ctx) = \<lparr>t_alloc = no_allocation, t_left = NULL, t_right = NULL, t_parent = NULL\<rparr>"

lemma add_free_blocks_empty:
  assumes "kmalloc_inv s L" and "free_blocks ctx = NULL"
  obtains (full) "add_free_blocks mi ctx va pc s = fail Null_deref"
  | (block) p s' where "add_free_blocks mi ctx va pc s = ret (ctx\<lparr>free_blocks := p\<rparr>, s')" "p \<noteq> NULL" "p \<notin> L" "kmalloc_inv s' (insert p L)"
      "blocks s' = (blocks s)(p := \<lparr>fb_virtual_addr = va, fb_page_count = pc, fb_next = NULL\<rparr>)" "trees s' = trees s"
  using assms(1)
proof (cases rule: new_block_cases [where v = "\<lparr>fb_virtual_addr = va, fb_page_count = pc, fb_next = NULL\<rparr>"])
  case full
  then show thesis using that(1) assms(2) by (simp add: add_free_blocks_def find_insert_pos.simps)
next
  case (node p s')
  then show thesis using that(2) assms(2) by (simp add: add_free_blocks_def find_insert_pos.simps)
qed

text \<open>A second region of the same mode behind the only one is never merged with it.\<close>

lemma add_free_blocks_second:
  assumes "kmalloc_inv s L" and "list_at (fb_next \<circ> blocks s) (free_blocks ctx) [q]" and "q \<in> L" and "fb_virtual_addr (blocks s q) < va"
    and "is_addr_in_user_range mi (fb_virtual_addr (blocks s q)) (fb_page_count (blocks s q)) = is_addr_in_user_range mi va pc"
  obtains (full) "add_free_blocks mi ctx va pc s = fail Null_deref"
  | (block) p s' where "add_free_blocks mi ctx va pc s = ret (ctx, s')" "p \<noteq> NULL" "p \<notin> L" "kmalloc_inv s' (insert p L)"
      "blocks s' = (blocks s)(p := \<lparr>fb_virtual_addr = va, fb_page_count = pc, fb_next = NULL\<rparr>, q := (blocks s q)\<lparr>fb_next := p\<rparr>)"
      "trees s' = trees s"
proof -
  have q: "free_blocks ctx = q" "q \<noteq> NULL" "fb_next (blocks s q) = NULL" using assms(2) by auto
  have pos: "find_insert_pos va q NULL (blocks s) = Some (NULL, q)"
    using q assms(4) by (simp add: find_insert_pos.simps)
  have merge: "merge_free_blocks mi q va pc s = (False, s)" using assms(5) by (simp add: merge_free_blocks_def Let_def)
  note def = add_free_blocks_def merge_or_insert_free_blocks_def q pos merge
  from assms(1) show thesis
  proof (cases rule: new_block_cases [where v = "\<lparr>fb_virtual_addr = va, fb_page_count = pc, fb_next = NULL\<rparr>"])
    case full
    then show thesis using that(1) by (simp add: def)
  next
    case (node p s1)
    moreover have "p \<noteq> q" using node(3) assms(3) by auto
    ultimately show thesis by (intro that(2) [of "update_block q (\<lambda>b. b\<lparr>fb_next := p\<rparr>) s1" p]) (simp_all add: def)
  qed
qed

text \<open>The two free regions of a new context: everything below the kernel and everything above.\<close>

definition initial_regions :: "kernel_meminfo \<Rightarrow> region list" where
  "initial_regions mi =
     [(0, higher_half_base mi div PAGE_SIZE),
      (higher_half_base mi, ucast (push_bit 32 1 div 4096 - ucast (higher_half_base mi div PAGE_SIZE) :: u64))]"

lemma initial_regions_unat:
  assumes "paging_is_aligned (higher_half_base mi)"
  shows "unat (higher_half_base mi div PAGE_SIZE) = unat (higher_half_base mi) div 4096"
    and "unat (ucast (push_bit 32 1 div 4096 - ucast (higher_half_base mi div PAGE_SIZE) :: u64) :: u32) = 1048576 - unat (higher_half_base mi) div 4096"
proof -
  show u: "unat (higher_half_base mi div PAGE_SIZE) = unat (higher_half_base mi) div 4096"
    by (simp add: c_const unat_div)
  have "unat (higher_half_base mi) < 4294967296" by simp
  then have "unat (higher_half_base mi) div 4096 < 1048576" by linarith
  then have "unat (push_bit 32 1 div 4096 - ucast (higher_half_base mi div PAGE_SIZE) :: u64) = 1048576 - unat (higher_half_base mi) div 4096"
    using u by (subst unat_sub) (simp_all add: word_le_nat_alt push_bit_eq_mult unat_div)
  then show "unat (ucast (push_bit 32 1 div 4096 - ucast (higher_half_base mi div PAGE_SIZE) :: u64) :: u32) = 1048576 - unat (higher_half_base mi) div 4096"
    by (simp add: unat_ucast_u32)
qed

lemma initial_regions_ok:
  assumes "paging_is_aligned (higher_half_base mi)" and "higher_half_base mi \<noteq> 0"
  shows "regions_ok (initial_regions mi)"
proof -
  obtain k where k: "unat (higher_half_base mi) = 4096 * k" using assms(1) by (auto simp: paging_is_aligned_unat)
  moreover have "k \<noteq> 0" using assms(2) k unat_gt_0 [of "higher_half_base mi"] by auto
  moreover have "unat (higher_half_base mi) < 4294967296" by simp
  then have "k < 1048576" using k by linarith
  moreover have "paging_is_aligned 0" by (simp add: paging_is_aligned_def)
  ultimately show ?thesis using assms(1)
    by (simp add: initial_regions_def region_ok_def pages_def initial_regions_unat(1) [OF assms(1)]
        initial_regions_unat(2) [OF assms(1), simplified])
qed

lemma initial_not_user:
  assumes "paging_is_aligned (higher_half_base mi)"
  shows "\<not> is_addr_in_user_range mi 0 (higher_half_base mi div PAGE_SIZE)" and "\<not> is_addr_in_user_range mi (higher_half_base mi) pc"
proof -
  have "unat (ucast (0::u32) + ucast (higher_half_base mi div PAGE_SIZE) * 4096 :: u64) = unat (higher_half_base mi) div 4096 * 4096"
    using initial_regions_unat(1) [OF assms] by (simp add: unat_word_ariths)
  then show "\<not> is_addr_in_user_range mi 0 (higher_half_base mi div PAGE_SIZE)"
    using assms by (auto simp: is_addr_in_user_range_def word_less_nat_alt paging_is_aligned_unat)
  have "unat (ucast (higher_half_base mi) + ucast pc * 4096 :: u64) = unat (higher_half_base mi) + unat pc * 4096"
    using unat_u32_less [of pc] unat_u32_less [of "higher_half_base mi"] by (simp add: unat_word_ariths del: unat_u32_less)
  then show "\<not> is_addr_in_user_range mi (higher_half_base mi) pc"
    by (simp add: is_addr_in_user_range_def word_less_nat_alt)
qed

lemma vmm_new_context_starts:
  assumes heap: "kmalloc_inv s L" and hh: "paging_is_aligned (higher_half_base mi)" "higher_half_base mi \<noteq> 0"
  obtains (full) "vmm_new_context mi es s = fail Null_deref"
  | (start) ctx s' L' ns where "vmm_new_context mi es s = map_addr_space mi es ctx s'" "empty_space ctx s' L' ns"
      "map (region_of (blocks s')) ns = initial_regions mi"
proof -
  let ?root = "\<lparr>t_alloc = no_allocation, t_left = NULL, t_right = NULL, t_parent = NULL\<rparr>"
  note def = vmm_new_context_def create_empty_ctx_def Let_def
  from heap show thesis
  proof (cases rule: new_tree_cases [where v = ?root])
    case full
    then show thesis using that(1) by (simp add: def)
  next
    case (node r s0)
    let ?ctx = "\<lparr>allocations = r, free_blocks = NULL\<rparr>" and ?U = "higher_half_base mi div PAGE_SIZE"
    let ?K = "ucast (push_bit 32 1 div 4096 - ucast ?U :: u64) :: u32"
    have "free_blocks ?ctx = NULL" by simp
    with node(4) show thesis
    proof (cases rule: add_free_blocks_empty [where mi = mi and va = 0 and pc = ?U])
      case full
      then show thesis using that(1) node(1) by (simp add: def)
    next
      case (block b1 s1)
      note block(4)
      moreover have "list_at (fb_next \<circ> blocks s1) (free_blocks (?ctx\<lparr>free_blocks := b1\<rparr>)) [b1]" using block by simp
      moreover have "b1 \<in> insert b1 (insert r L)" by simp
      moreover have "fb_virtual_addr (blocks s1 b1) < higher_half_base mi" using hh(2) block(5) by (simp add: word_gt_0)
      moreover have "is_addr_in_user_range mi (fb_virtual_addr (blocks s1 b1)) (fb_page_count (blocks s1 b1)) =
          is_addr_in_user_range mi (higher_half_base mi) ?K" using block(5) initial_not_user [OF hh(1)] by simp
      ultimately show thesis
      proof (cases rule: add_free_blocks_second)
        case full
        then show thesis using that(1) node(1) block(1) by (simp add: def)
      next
        case second: (block b2 s2)
        have run: "vmm_new_context mi es s = map_addr_space mi es (?ctx\<lparr>free_blocks := b1\<rparr>) s2"
          using node(1) block(1) second(1) by (simp add: def)
        have ne: "b1 \<noteq> b2" "b1 \<noteq> r" "b2 \<noteq> r" using block(3) second(3) by auto
        have rs: "map (region_of (blocks s2)) [b1, b2] = initial_regions mi"
          using second(5) block(5) ne by (simp add: region_of_def initial_regions_def)
        have "empty_space (?ctx\<lparr>free_blocks := b1\<rparr>) s2 (insert b2 (insert b1 (insert r L))) [b1, b2]"
          using second block node ne rs initial_regions_ok [OF hh] by (simp add: empty_space_def free_inv_def)
        then show thesis using that(2) [OF run] rs by blast
      qed
    qed
  qed
qed

text \<open>The first mapping fills the empty root.\<close>

lemma vmm_map_pages_first:
  assumes inv: "empty_space ctx s L ns" and al: "paging_is_aligned va" "paging_is_aligned pa" and pc: "0 < unat pc"
    and fit: "fits_at_start mi va pc (for_user fl) (map (region_of (blocks s)) ns)"
    and take: "take_region mi va pc (for_user fl) (map (region_of (blocks s)) ns) = Some (addr, rs)"
    and bound: "ends_in_range (allocation addr pa pc fl)"
  obtains (full) "vmm_map_pages mi ctx va pa pc fl s = fail Null_deref"
  | (mapped) ctx' s' L' ns' where "vmm_map_pages mi ctx va pa pc fl s = ret (addr, ctx', s')"
      "map (region_of (blocks s')) ns' = rs" "vmm_inv ctx' s' L' ns' \<langle>\<langle>\<rangle>, (allocations ctx, allocation addr pa pc fl), \<langle>\<rangle>\<rangle>"
proof -
  let ?rs = "map (region_of (blocks s)) ns" and ?q = "allocations ctx" and ?a = "allocation addr pa pc fl"
  from inv have heap: "kmalloc_inv s L" and free: "free_inv ctx s L ns" and ok: "regions_ok ?rs" and q: "?q \<in> L - set ns"
    and root: "trees s ?q = \<lparr>t_alloc = no_allocation, t_left = NULL, t_right = NULL, t_parent = NULL\<rparr>"
    by (auto simp: empty_space_def)
  have qn: "?q \<noteq> NULL" using q km.live_nonnull [OF heap] by auto
  have "free_blocks ctx \<noteq> NULL" using take free by (cases ns) (auto simp: free_inv_def)
  note def = vmm_map_pages_def al this Let_def
  note tp = take_region_pages [OF ok al(1) pc fit take]
  from heap free show thesis
  proof (cases rule: remove_free_blocks_refines [where mi = mi and va = va and pc = pc and user = "for_user fl"])
    case (panic e)
    then show thesis using take by simp
  next
    case full
    then show thesis using that(1) by (simp add: def)
  next
    case (taken addr' rs' ctx' s1 ns' L')
    have eq: "addr' = addr" "rs' = rs" using taken(1) take by auto
    let ?s' = "update_tree ?q (\<lambda>t. t\<lparr>t_alloc := ?a\<rparr>) s1"
    have r: "vmm_map_pages mi ctx va pa pc fl s = ret (addr, ctx', ?s')"
      using taken(2,6,7) root qn by (simp add: def eq add_allocation_def no_allocation_def)
    have "?q \<in> L' - set ns'" using taken(8) q by auto
    moreover have "interval ?a \<noteq> {}" using pc by (simp add: interval_def)
    ultimately have "vmm_inv ctx' ?s' L' ns' \<langle>\<langle>\<rangle>, (?q, ?a), \<langle>\<rangle>\<rangle>"
      using taken(3-7) tp bound pc root qn
      by (auto simp: vmm_inv_def free_inv_def tree_inv_def allocs_ok_def ends_in_range_def alloc_pages_def eq region_ok_def)
    then show thesis using that(2) [OF r] taken(4) eq by simp
  qed
qed

text \<open>The conditions on the address space template, checked against the list of free regions.\<close>

abbreviation entry_allocation :: "addr_space_entry \<Rightarrow> vmm_allocation" where
  "entry_allocation e \<equiv> allocation (as_virtual_start e) (as_physical_start e) (as_page_count e) (as_flags e)"

definition entry_ok :: "addr_space_entry \<Rightarrow> bool" where
  "entry_ok e \<longleftrightarrow> paging_is_aligned (as_virtual_start e) \<and> paging_is_aligned (as_physical_start e) \<and> as_page_count e \<noteq> 0 \<and>
     as_virtual_start e \<noteq> 0 \<and> ends_in_range (entry_allocation e)"

fun template_ok :: "kernel_meminfo \<Rightarrow> addr_space_entry list \<Rightarrow> region list \<Rightarrow> bool" where
  "template_ok mi [] rs \<longleftrightarrow> True"
| "template_ok mi (e # es) rs \<longleftrightarrow> entry_ok e \<and>
     fits_at_start mi (as_virtual_start e) (as_page_count e) (for_user (as_flags e)) rs \<and>
     (case take_region mi (as_virtual_start e) (as_page_count e) (for_user (as_flags e)) rs of
        None \<Rightarrow> False
      | Some (addr, rs') \<Rightarrow> addr = as_virtual_start e \<and> template_ok mi es rs')"

lemma map_addr_space_maps:
  assumes "vmm_inv ctx s L ns t" and "template_ok mi es (map (region_of (blocks s)) ns)"
  shows "map_addr_space mi es ctx s = fail Null_deref \<or>
    (\<exists>ctx' s'. map_addr_space mi es ctx s = ret (ctx', s') \<and> space_inv (ctx', s') (set (allocs t) \<union> entry_allocation ` set es))"
  using assms
proof (induction es arbitrary: ctx s L ns t)
  case Nil
  then show ?case by (auto simp: space_inv_def)
next
  case (Cons e es)
  from Cons.prems(2) have al: "paging_is_aligned (as_virtual_start e)" "paging_is_aligned (as_physical_start e)"
    and pc: "0 < unat (as_page_count e)"
    and fit: "fits_at_start mi (as_virtual_start e) (as_page_count e) (for_user (as_flags e)) (map (region_of (blocks s)) ns)"
    by (simp_all add: entry_ok_def unat_gt_0)
  from Cons.prems(1) al pc fit show ?case
  proof (cases rule: vmm_map_pages_refines)
    case (mapped addr ctx' s' L' ns' p)
    have inv': "vmm_inv ctx' s' L' ns' (insert_alloc p (entry_allocation e) t)" and rest: "template_ok mi es (map (region_of (blocks s')) ns')"
      using mapped(2,7) Cons.prems(2) by (auto simp: entry_ok_def ends_in_range_def)
    have r: "map_addr_space mi (e # es) ctx s = map_addr_space mi es ctx' s'" using mapped(1) by simp
    have A: "set (allocs t) \<union> entry_allocation ` set (e # es) =
        set (allocs (insert_alloc p (entry_allocation e) t)) \<union> entry_allocation ` set es" by auto
    show ?thesis unfolding r A by (rule Cons.IH [OF inv' rest])
  qed (use Cons.prems(2) in simp_all)
qed

text \<open>The first entry of the template goes into the empty root, the others are added to the tree.\<close>

lemma vmm_new_context_space:
  assumes "kmalloc_inv s L" and "paging_is_aligned (higher_half_base mi)" and "higher_half_base mi \<noteq> 0"
    and "ADDR_SPACE \<noteq> []" and "template_ok mi ADDR_SPACE (initial_regions mi)"
  shows "vmm_new_context mi ADDR_SPACE s = fail Null_deref \<or>
    (\<exists>ctx s'. vmm_new_context mi ADDR_SPACE s = ret (ctx, s') \<and> space_inv (ctx, s') (entry_allocation ` set ADDR_SPACE))"
  using assms(1-3)
proof (cases rule: vmm_new_context_starts [where es = ADDR_SPACE])
  case (start ctx s' L' ns)
  obtain e es where es: "ADDR_SPACE = e # es" using assms(4) by (cases ADDR_SPACE) auto
  obtain rs where e: "entry_ok e" "0 < unat (as_page_count e)"
    and fit: "fits_at_start mi (as_virtual_start e) (as_page_count e) (for_user (as_flags e)) (map (region_of (blocks s')) ns)"
    and take: "take_region mi (as_virtual_start e) (as_page_count e) (for_user (as_flags e)) (map (region_of (blocks s')) ns)
      = Some (as_virtual_start e, rs)" and rest: "template_ok mi es rs"
    using assms(5) start(3) by (auto simp: es entry_ok_def unat_gt_0 split: option.splits)
  have al: "paging_is_aligned (as_virtual_start e)" "paging_is_aligned (as_physical_start e)"
    and bound: "ends_in_range (entry_allocation e)" using e(1) by (simp_all add: entry_ok_def)
  from start(2) al e(2) fit take bound show ?thesis
  proof (cases rule: vmm_map_pages_first [where pa = "as_physical_start e"])
    case full
    then show ?thesis using start(1) by (simp add: es)
  next
    case (mapped ctx1 s1 L1 ns1)
    then show ?thesis using map_addr_space_maps [OF mapped(3), of mi es] rest start(1) by (simp add: es)
  qed
qed simp

section \<open>Properties\<close>

text \<open>C16. \<open>vmm_new_context\<close> builds an address space with exactly the regions of the template: unless
  the kernel heap is exhausted it returns a context that satisfies the invariant, in which looking up
  an address of a template entry finds that entry and any other address is not allocated.\<close>

theorem vmm_new_context_allocates:
  assumes "kmalloc_inv s L" and "paging_is_aligned (higher_half_base mi)" and "higher_half_base mi \<noteq> 0"
    and "ADDR_SPACE \<noteq> []" and "template_ok mi ADDR_SPACE (initial_regions mi)"
  shows "vmm_new_context mi ADDR_SPACE s = fail Null_deref \<or>
    (\<exists>ctx s'. vmm_new_context mi ADDR_SPACE s = ret (ctx, s') \<and> space_inv (ctx, s') (entry_allocation ` set ADDR_SPACE) \<and>
       (\<forall>va. \<forall>e \<in> set ADDR_SPACE. unat va \<in> interval (entry_allocation e) \<longrightarrow> vmm_find_allocation ctx va s' = ret (entry_allocation e)) \<and>
       (\<forall>va. (\<forall>e \<in> set ADDR_SPACE. unat va \<notin> interval (entry_allocation e)) \<longrightarrow> vmm_find_allocation ctx va s' = ret no_allocation))"
  using vmm_new_context_space [OF assms] sp.find_in sp.find_out by fastforce

definition blank_vmm :: vmm_state where
  "blank_vmm = \<lparr>headers = (\<lambda>_. \<lparr>hdr_size = 0, hdr_next = 0\<rparr>), KMALLOC_HEAD = 0,
     blocks = (\<lambda>_. region_block (0, 0)),
     trees = (\<lambda>_. \<lparr>t_alloc = no_allocation, t_left = NULL, t_right = NULL, t_parent = NULL\<rparr>)\<rparr>"

definition example_template :: "addr_space_entry list" where
  "example_template = [\<lparr>as_virtual_start = 0xC0106000, as_physical_start = 0x106000, as_page_count = 5, as_flags = 1\<rparr>,
     \<lparr>as_virtual_start = 0xE0000000, as_physical_start = 0x800000, as_page_count = 0x3000, as_flags = 3\<rparr>]"

lemma example_template_ok: "template_ok example_meminfo example_template (initial_regions example_meminfo)"
  by (simp add: example_template_def initial_regions_def example_meminfo_def entry_ok_def ends_in_range_def
      paging_is_aligned_def fits_at_start_def region_matches_def is_addr_ok_for_mode_def is_addr_in_range_def carve_def c_const
      push_bit_eq_mult)

lemma example_context_returns:
  "\<exists>ctx s. vmm_new_context example_meminfo example_template (kmalloc_init blank_vmm) = ret (ctx, s)"
  apply (simp add: vmm_new_context_def create_empty_ctx_def new_tree_def kmallocK_def kmalloc_def kmalloc_loop.simps
      kmalloc_split_def kmalloc_init_def blank_vmm_def c_const add_free_blocks_def find_insert_pos.simps new_block_def Let_def
      example_template_def example_meminfo_def push_bit_eq_mult merge_or_insert_free_blocks_def merge_free_blocks_def
      is_addr_in_user_range_def)
  apply (simp add: vmm_map_pages_def paging_is_aligned_def c_const remove_free_blocks_def find_region.simps region_matches_def
      is_addr_ok_for_mode_def is_addr_in_range_def Let_def new_block_def kmallocK_def kmalloc_def kmalloc_loop.simps
      kmalloc_split_def add_allocation_def no_allocation_def find_parent.simps new_tree_def)
  done

theorem vmm_new_context_allocates_witness:
  "\<exists>ctx s'. vmm_new_context example_meminfo example_template (kmalloc_init blank_vmm) = ret (ctx, s') \<and>
     vmm_find_allocation ctx 0xC0107000 s' = ret (allocation 0xC0106000 0x106000 5 1)"
proof -
  have "paging_is_aligned (higher_half_base example_meminfo)" "higher_half_base example_meminfo \<noteq> 0"
    by (simp_all add: paging_is_aligned_def example_meminfo_def c_const)
  from vmm_new_context_allocates [OF heap_reach_inv [OF heap_reach.init] this _ example_template_ok, of blank_vmm]
    example_context_returns
  show ?thesis by (auto simp: example_template_def interval_def ret_def fail_def)
qed


text \<open>A small address space: one allocation of two pages, one free region of sixteen.\<close>

definition example_space :: vmm_context where
  "example_space = \<lparr>allocations = 0xE0000008, free_blocks = 0xE000002C\<rparr>"

definition example_vmm :: vmm_state where
  "example_vmm = blank_vmm
     \<lparr>headers := (headers (kmalloc_init blank_vmm))
        (0xE0000000 := \<lparr>hdr_size = 28, hdr_next = 0\<rparr>, 0xE0000024 := \<lparr>hdr_size = 12, hdr_next = 0\<rparr>,
         0xE0000038 := \<lparr>hdr_size = 0x02FFFFC0, hdr_next = 0\<rparr>), KMALLOC_HEAD := 0xE0000038,
      blocks := (\<lambda>_. region_block (0, 0))(0xE000002C := region_block (0xD8000000, 16)),
      trees := (\<lambda>_. \<lparr>t_alloc = no_allocation, t_left = NULL, t_right = NULL, t_parent = NULL\<rparr>)
        (0xE0000008 := \<lparr>t_alloc = allocation 0x400000 0x900000 2 7, t_left = NULL, t_right = NULL, t_parent = NULL\<rparr>)\<rparr>"

lemma example_vmm_heap: "kmalloc_inv example_vmm {0xE0000008, 0xE000002C}"
proof -
  obtain s1 :: vmm_state where s1: "kmalloc 28 (kmalloc_init blank_vmm) = Some (0xE0000008, s1)"
    and s1_def: "s1 = blank_vmm\<lparr>headers := (headers (kmalloc_init blank_vmm))(0xE0000024 := \<lparr>hdr_size = 0x02FFFFD4, hdr_next = 0\<rparr>,
        0xE0000000 := \<lparr>hdr_size = 28, hdr_next = 0\<rparr>), KMALLOC_HEAD := 0xE0000024\<rparr>"
    by (simp add: kmalloc_def kmalloc_loop.simps kmalloc_split_def kmalloc_init_def blank_vmm_def c_const)
  let ?s2 = "blank_vmm\<lparr>headers := headers example_vmm, KMALLOC_HEAD := 0xE0000038\<rparr>"
  have s2: "kmalloc 12 s1 = Some (0xE000002C, ?s2)"
    by (simp add: kmalloc_def kmalloc_loop.simps kmalloc_split_def kmalloc_init_def blank_vmm_def example_vmm_def s1_def c_const fun_eq_iff)
  have "heap_reach ?s2 {0xE0000008, 0xE000002C}"
    using heap_reach.alloc [OF heap_reach.alloc [OF heap_reach.init _ s1] _ s2] by (simp add: insert_commute)
  from heap_reach_inv [OF this] have "kmalloc_inv (?s2\<lparr>blocks := blocks example_vmm, trees := trees example_vmm\<rparr>) {0xE0000008, 0xE000002C}"
    by simp
  then show ?thesis by (simp add: example_vmm_def)
qed

lemma example_space_inv: "space_inv (example_space, example_vmm) {allocation 0x400000 0x900000 2 7}"
proof -
  have "vmm_inv example_space example_vmm {0xE0000008, 0xE000002C} [0xE000002C]
      \<langle>\<langle>\<rangle>, (0xE0000008, allocation 0x400000 0x900000 2 7), \<langle>\<rangle>\<rangle>"
    using example_vmm_heap
    by (simp add: vmm_inv_def free_inv_def tree_inv_def example_space_def region_of_def region_ok_def paging_is_aligned_def
        allocs_ok_def alloc_pages_def pages_def c_const) (simp add: example_vmm_def)
  then show ?thesis by (force simp: space_inv_def)
qed

lemma example_regions: "free_regions example_space example_vmm [(0xD8000000, 16)]"
  unfolding free_regions_def
  by (rule exI [of _ "[0xE000002C]"]) (simp add: example_space_def example_vmm_def region_of_def)


text \<open>A kernel request without an address is not kept out of the user half: on an address space
  whose first free region starts at address 0 and is larger than the request, \<open>vmm_map_pages\<close>
  with address 0 and kernel flags returns address 0 unless the kernel heap is exhausted.\<close>

theorem vmm_kernel_request_gets_address_zero:
  assumes "space_inv (ctx, s) A" and "free_regions ctx s ((0, c) # rs)" and "pc < c" and "0 < pc"
    and "paging_is_aligned pa" and "\<not> for_user fl"
  shows "vmm_map_pages mi ctx 0 pa pc fl s = fail Null_deref \<or> (\<exists>ctx' s'. vmm_map_pages mi ctx 0 pa pc fl s = ret (0, ctx', s'))"
proof -
  obtain L ns t where inv: "vmm_inv ctx s L ns t" using assms(1) by (auto simp: space_inv_def)
  with assms(2) have ns: "map (region_of (blocks s)) ns = (0, c) # rs"
    by (auto simp: free_regions_def vmm_inv_def free_inv_def dest: list_at_unique)
  have "0 < c" using assms(3,4) by (rule order.strict_trans [rotated])
  then have m: "region_matches mi 0 pc False (region_block (0, c))"
    using assms(3) by (simp add: region_matches_def is_addr_in_range_unat Let_def word_less_nat_alt word_le_nat_alt)
  then have take: "take_region mi 0 pc False ((0, c) # rs) = Some (0, (0 + pc * PAGE_SIZE, c - pc) # rs)"
    using assms(3) by (auto simp: carve_def Let_def)
  have heap: "kmalloc_inv s L" and free: "free_inv ctx s L ns" and tree: "tree_inv ctx s L t"
    and disj: "set ns \<inter> set (nodes t) = {}" and st: "allocs_ok (set (allocs t))" and ne: "t \<noteq> \<langle>\<rangle>"
    using inv by (auto simp: vmm_inv_def)
  have "free_blocks ctx \<noteq> NULL" using free ns by (auto simp: free_inv_def)
  note def = vmm_map_pages_def assms(5,6) this paging_is_aligned_def [of 0]
  from heap free show ?thesis
  proof (cases rule: remove_free_blocks_refines [where mi = mi and va = 0 and pc = pc and user = False])
    case (taken addr rs' ctx' s1 ns' L')
    obtain l q b r where t: "t = \<langle>l, (q, b), r\<rangle>" using ne by (metis neq_Leaf_iff surj_pair)
    have used: "al_page_count b \<noteq> 0" using st by (auto simp: t allocs_ok_def)
    have "tree_inv ctx' s1 L' \<langle>l, (q, b), r\<rangle>"
      using tree disj taken(6,7,8) by (auto simp: tree_inv_def t)
    with taken(5) show ?thesis using used
    proof (cases rule: add_allocation_inserts [where va = addr and pa = pa and pc = pc and fl = fl])
      case full
      then show ?thesis using taken(2) by (simp add: def)
    next
      case (node p s')
      then show ?thesis using taken(1,2) take ns by (simp add: def)
    qed
  qed (use take ns in \<open>simp_all add: def\<close>)
qed

definition example_low :: vmm_state where
  "example_low = example_vmm\<lparr>blocks := (blocks example_vmm)(0xE000002C := region_block (0, 16))\<rparr>"

theorem vmm_kernel_request_gets_address_zero_witness:
  "vmm_map_pages example_meminfo example_space 0 0x7000 10 3 example_low = fail Null_deref \<or>
   (\<exists>ctx' s'. vmm_map_pages example_meminfo example_space 0 0x7000 10 3 example_low = ret (0, ctx', s'))"
proof -
  have "vmm_inv example_space example_low {0xE0000008, 0xE000002C} [0xE000002C]
      \<langle>\<langle>\<rangle>, (0xE0000008, allocation 0x400000 0x900000 2 7), \<langle>\<rangle>\<rangle>"
    using example_vmm_heap
    by (simp add: vmm_inv_def free_inv_def tree_inv_def example_space_def example_low_def region_of_def region_ok_def paging_is_aligned_def
        allocs_ok_def alloc_pages_def pages_def c_const) (simp add: example_vmm_def)
  then have inv: "space_inv (example_space, example_low) {allocation 0x400000 0x900000 2 7}" by (force simp: space_inv_def)
  have "free_regions example_space example_low [(0, 16)]" unfolding free_regions_def
    by (rule exI [of _ "[0xE000002C]"]) (simp add: example_space_def example_low_def region_of_def)
  from vmm_kernel_request_gets_address_zero [OF inv this, of 10 "0x7000" 3 example_meminfo] show ?thesis
    by (simp add: paging_is_aligned_def c_const)
qed

end
