(* ===== verification/Gdt.thy ===== *)
theory Gdt
  imports Paging
begin

text \<open>
  The global descriptor table and the task-state segment, \<^verbatim>\<open>src/kernel/arch/i386/gdt.c\<close> and
  \<^verbatim>\<open>include/gdt.h\<close>, with the two loaders of \<^verbatim>\<open>load_gdt.S\<close>. A descriptor scatters its base and
  limit over several fields; \<open>seg_base\<close> and \<open>seg_limit\<close> read them the way the processor does.
\<close>

section \<open>Constants and data\<close>

definition GDT_ENTRY_COUNT :: u32 where [c_const]: "GDT_ENTRY_COUNT = 6"
definition GDT_KERNEL_CODE_SEGMENT :: u16 where [c_const]: "GDT_KERNEL_CODE_SEGMENT = 0x8"
definition GDT_KERNEL_DATA_SEGMENT :: u16 where [c_const]: "GDT_KERNEL_DATA_SEGMENT = 0x10"
definition GDT_USER_CODE_SEGMENT :: u16 where [c_const]: "GDT_USER_CODE_SEGMENT = 0x18"
definition GDT_USER_DATA_SEGMENT :: u16 where [c_const]: "GDT_USER_DATA_SEGMENT = 0x20"
definition GDT_TASK_STATE_SEGMENT :: u16 where [c_const]: "GDT_TASK_STATE_SEGMENT = 0x28"
definition GDT_GRANULARITY_FLAG :: u8 where [c_const]: "GDT_GRANULARITY_FLAG = 0b1000"
definition GDT_DB_FLAG :: u8 where [c_const]: "GDT_DB_FLAG = 0b100"
definition GDT_SEGMENT_PRESENT_FLAG :: u8 where [c_const]: "GDT_SEGMENT_PRESENT_FLAG = 0b10000000"
definition GDT_CODE_OR_DATA_DESCRIPTOR_FLAG :: u8 where [c_const]: "GDT_CODE_OR_DATA_DESCRIPTOR_FLAG = 0b00010000"
definition GDT_DPL3_FLAG :: u8 where [c_const]: "GDT_DPL3_FLAG = 0b01100000"
definition GDT_CODE_EXECUTE_READ_SEG_TYPE :: u8 where [c_const]: "GDT_CODE_EXECUTE_READ_SEG_TYPE = 0b1010"
definition GDT_CODE_EXECUTE_ONLY_ACCESSED :: u8 where [c_const]: "GDT_CODE_EXECUTE_ONLY_ACCESSED = 0b1001"
definition GDT_DATA_READ_WRITE_SEG_TYPE :: u8 where [c_const]: "GDT_DATA_READ_WRITE_SEG_TYPE = 0b0010"

record segment_descriptor =
  limit_low :: u16
  base_low :: u16
  base_middle :: u8
  access_type :: u8
  seg_flags :: u8
  base_high :: u8

record gdt_descriptor =
  gdt_limit :: u16
  gdt_base :: u32

record task_state_segment =
  tss_previous_task_link :: u16
  tss_previous_task_link_reserved :: u16
  tss_esp0 :: u32
  tss_ss0 :: u16
  tss_ss0_reserved :: u16
  tss_esp1 :: u32
  tss_ss1 :: u16
  tss_ss1_reserved :: u16
  tss_esp2 :: u32
  tss_ss2 :: u16
  tss_ss2_reserved :: u16
  tss_cr3 :: u32
  tss_eip :: u32
  tss_eflags :: u32
  tss_eax :: u32
  tss_ecx :: u32
  tss_edx :: u32
  tss_ebx :: u32
  tss_esp :: u32
  tss_ebp :: u32
  tss_esi :: u32
  tss_edi :: u32
  tss_es :: u16
  tss_es_reserved :: u16
  tss_cs :: u16
  tss_cs_reserved :: u16
  tss_ss :: u16
  tss_ss_reserved :: u16
  tss_ds :: u16
  tss_ds_reserved :: u16
  tss_fs :: u16
  tss_fs_reserved :: u16
  tss_gs :: u16
  tss_gs_reserved :: u16
  tss_ldt_segment_selector :: u16
  tss_ldt_segment_selector_reserved :: u16
  tss_debug_trap :: u16
  tss_io_map_base_address :: u16
  tss_ssp :: u32

definition sizeof_tss :: u32 where [c_const]: "sizeof_tss = 108"
definition sizeof_segment_descriptor :: u32 where [c_const]: "sizeof_segment_descriptor = 8"

text \<open>The three static objects, and the processor registers that the loaders set.\<close>

record gdt_state =
  gdt_entries :: "u32 \<Rightarrow> segment_descriptor"
  gdt :: gdt_descriptor
  tss :: task_state_segment
  cpu_gdtr :: gdt_descriptor
  cpu_cs :: u16
  cpu_ds :: u16
  cpu_es :: u16
  cpu_fs :: u16
  cpu_gs :: u16
  cpu_ss :: u16
  cpu_tr :: u16

section \<open>Operations\<close>

definition zero_tss :: task_state_segment where
  "zero_tss = \<lparr>tss_previous_task_link = 0, tss_previous_task_link_reserved = 0, tss_esp0 = 0, tss_ss0 = 0,
     tss_ss0_reserved = 0, tss_esp1 = 0, tss_ss1 = 0, tss_ss1_reserved = 0, tss_esp2 = 0, tss_ss2 = 0,
     tss_ss2_reserved = 0, tss_cr3 = 0, tss_eip = 0, tss_eflags = 0, tss_eax = 0, tss_ecx = 0, tss_edx = 0,
     tss_ebx = 0, tss_esp = 0, tss_ebp = 0, tss_esi = 0, tss_edi = 0, tss_es = 0, tss_es_reserved = 0,
     tss_cs = 0, tss_cs_reserved = 0, tss_ss = 0, tss_ss_reserved = 0, tss_ds = 0, tss_ds_reserved = 0,
     tss_fs = 0, tss_fs_reserved = 0, tss_gs = 0, tss_gs_reserved = 0, tss_ldt_segment_selector = 0,
     tss_ldt_segment_selector_reserved = 0, tss_debug_trap = 0, tss_io_map_base_address = 0, tss_ssp = 0\<rparr>"

definition tss_init :: "kernel_meminfo \<Rightarrow> gdt_state \<Rightarrow> gdt_state" where
  "tss_init KERNEL_MEMINFO s =
     s\<lparr>tss := zero_tss\<lparr>tss_ss0 := GDT_KERNEL_DATA_SEGMENT, tss_esp0 := stack_top KERNEL_MEMINFO\<rparr>\<rparr>"

definition set_segment_descriptor :: "u32 \<Rightarrow> u32 \<Rightarrow> u32 \<Rightarrow> u8 \<Rightarrow> u8 \<Rightarrow> gdt_state \<Rightarrow> gdt_state" where
  "set_segment_descriptor i base limit access flags s =
     s\<lparr>gdt_entries := (gdt_entries s)(i :=
        \<lparr>limit_low = ucast (limit AND 0xffff),
         base_low = ucast (base AND 0xffff),
         base_middle = ucast (drop_bit 16 base AND 0xff),
         access_type = access,
         seg_flags = ucast (drop_bit 16 limit AND 0x0f) OR ucast (push_bit 4 (ucast flags :: u32)),
         base_high = ucast (drop_bit 24 base)\<rparr>)\<rparr>"

text \<open>\<^verbatim>\<open>load_gdt\<close> and \<^verbatim>\<open>load_tss\<close> of \<^verbatim>\<open>load_gdt.S\<close>; the first takes the descriptor itself instead of its address.\<close>

definition load_gdt :: "gdt_descriptor \<Rightarrow> u16 \<Rightarrow> u16 \<Rightarrow> gdt_state \<Rightarrow> gdt_state" where
  "load_gdt d code data s =
     s\<lparr>cpu_gdtr := d, cpu_ds := data, cpu_es := data, cpu_fs := data, cpu_gs := data, cpu_ss := data, cpu_cs := code\<rparr>"

definition load_tss :: "u16 \<Rightarrow> gdt_state \<Rightarrow> gdt_state" where
  "load_tss sel s = s\<lparr>cpu_tr := sel\<rparr>"

text \<open>\<open>tss_addr\<close> and \<open>entries_addr\<close> are the addresses of the two static objects.\<close>

definition gdt_init :: "kernel_meminfo \<Rightarrow> u32 \<Rightarrow> u32 \<Rightarrow> gdt_state \<Rightarrow> gdt_state" where
  "gdt_init mi tss_addr entries_addr s =
     (let s0 = tss_init mi s;
          s1 = set_segment_descriptor 0 0 0 0 0 s0;
          kernel_code_desc_flags =
            GDT_SEGMENT_PRESENT_FLAG OR GDT_CODE_OR_DATA_DESCRIPTOR_FLAG OR GDT_CODE_EXECUTE_READ_SEG_TYPE;
          s2 = set_segment_descriptor 1 0 0xFFFFFFFF kernel_code_desc_flags (GDT_GRANULARITY_FLAG OR GDT_DB_FLAG) s1;
          kernel_data_desc_flags =
            GDT_SEGMENT_PRESENT_FLAG OR GDT_CODE_OR_DATA_DESCRIPTOR_FLAG OR GDT_DATA_READ_WRITE_SEG_TYPE;
          s3 = set_segment_descriptor 2 0 0xFFFFFFFF kernel_data_desc_flags (GDT_GRANULARITY_FLAG OR GDT_DB_FLAG) s2;
          s4 = set_segment_descriptor 3 0 0xFFFFFFFF (kernel_code_desc_flags OR GDT_DPL3_FLAG)
                 (GDT_GRANULARITY_FLAG OR GDT_DB_FLAG) s3;
          s5 = set_segment_descriptor 4 0 0xFFFFFFFF (kernel_data_desc_flags OR GDT_DPL3_FLAG)
                 (GDT_GRANULARITY_FLAG OR GDT_DB_FLAG) s4;
          tss_desc_flags = GDT_SEGMENT_PRESENT_FLAG OR GDT_CODE_EXECUTE_ONLY_ACCESSED;
          s6 = set_segment_descriptor 5 tss_addr (sizeof_tss - 1) tss_desc_flags 0 s5;
          s7 = s6\<lparr>gdt := \<lparr>gdt_limit = ucast (sizeof_segment_descriptor * GDT_ENTRY_COUNT - 1), gdt_base = entries_addr\<rparr>\<rparr>;
          s8 = load_gdt (gdt s7) GDT_KERNEL_CODE_SEGMENT GDT_KERNEL_DATA_SEGMENT s7
      in load_tss GDT_TASK_STATE_SEGMENT s8)"

section \<open>Reading a descriptor\<close>

definition seg_base :: "segment_descriptor \<Rightarrow> u32" where
  "seg_base d = ucast (base_low d) OR push_bit 16 (ucast (base_middle d)) OR push_bit 24 (ucast (base_high d))"

definition seg_limit :: "segment_descriptor \<Rightarrow> u32" where
  "seg_limit d = ucast (limit_low d) OR push_bit 16 (ucast (seg_flags d AND 0x0f))"

text \<open>Number of bytes the segment spans: pages if the granularity flag is set.\<close>

definition seg_bytes :: "segment_descriptor \<Rightarrow> nat" where
  "seg_bytes d = (unat (seg_limit d) + 1) * (if bit (seg_flags d) 7 then 4096 else 1)"

definition seg_dpl :: "segment_descriptor \<Rightarrow> u8" where
  "seg_dpl d = drop_bit 5 (access_type d) AND 3"

text \<open>The descriptor a selector refers to.\<close>

definition gdt_lookup :: "gdt_state \<Rightarrow> u16 \<Rightarrow> segment_descriptor" where
  "gdt_lookup s sel = gdt_entries s (drop_bit 3 (ucast sel))"

section \<open>Properties\<close>

lemma seg_fields:
  fixes base limit :: u32 and flags :: u8
  shows "(ucast (ucast (base AND 0xffff) :: u16) :: u32) OR push_bit 16 (ucast (ucast (drop_bit 16 base AND 0xff) :: u8)) OR
      push_bit 24 (ucast (ucast (drop_bit 24 base) :: u8)) = base"
    and "(ucast (ucast (limit AND 0xffff) :: u16) :: u32) OR
      push_bit 16 (ucast ((ucast (drop_bit 16 limit AND 0x0f) OR ucast (push_bit 4 (ucast flags :: u32)) :: u8) AND 0x0f)) = limit AND 0xfffff"
    and "drop_bit 4 (ucast (drop_bit 16 limit AND 0x0f) OR ucast (push_bit 4 (ucast flags :: u32)) :: u8) = flags AND 0x0f"
proof -
  note masks = mask_eq_exp_minus_1
  have high_bit: "n - 16 < 8" if "bit base n" "\<not> bit base (24 + (n - 24))" for n
    using that by (cases "24 \<le> n") auto
  have m: "(0xffff :: u32) = mask 16" "(0xff :: u32) = mask 8" "(0x0f :: u32) = mask 4" "(0xfffff :: u32) = mask 20"
    "(0x0f :: u8) = mask 4" by (simp_all add: masks)
  show "(ucast (ucast (base AND 0xffff) :: u16) :: u32) OR push_bit 16 (ucast (ucast (drop_bit 16 base AND 0xff) :: u8)) OR
      push_bit 24 (ucast (ucast (drop_bit 24 base) :: u8)) = base"
    unfolding m by (rule bit_word_eqI) (auto simp: bit_simps dest: high_bit)
  show "(ucast (ucast (limit AND 0xffff) :: u16) :: u32) OR
      push_bit 16 (ucast ((ucast (drop_bit 16 limit AND 0x0f) OR ucast (push_bit 4 (ucast flags :: u32)) :: u8) AND 0x0f)) = limit AND 0xfffff"
    unfolding m by (rule bit_word_eqI) (auto simp: bit_simps)
  show "drop_bit 4 (ucast (drop_bit 16 limit AND 0x0f) OR ucast (push_bit 4 (ucast flags :: u32)) :: u8) = flags AND 0x0f"
    unfolding m by (rule bit_word_eqI) (auto simp: bit_simps)
qed

text \<open>A descriptor written by \<open>set_segment_descriptor\<close> is read back by the processor with the
  base, the low 20 bits of the limit, the access byte and the four flags it was given, and no other
  descriptor changes.\<close>

theorem segment_descriptor_roundtrip:
  "let s' = set_segment_descriptor i base limit access flags s; d = gdt_entries s' i
   in seg_base d = base \<and> seg_limit d = limit AND 0xfffff \<and> access_type d = access \<and>
      drop_bit 4 (seg_flags d) = flags AND 0x0f \<and> gdt_entries s' = (gdt_entries s)(i := d)"
  using seg_fields by (simp add: set_segment_descriptor_def Let_def seg_base_def seg_limit_def)

lemma gdt_init_lookup:
  "gdt_lookup (gdt_init mi ta ea s) GDT_KERNEL_CODE_SEGMENT =
     \<lparr>limit_low = 0xffff, base_low = 0, base_middle = 0, access_type = 0x9A, seg_flags = 0xCF, base_high = 0\<rparr>"
  "gdt_lookup (gdt_init mi ta ea s) GDT_KERNEL_DATA_SEGMENT =
     \<lparr>limit_low = 0xffff, base_low = 0, base_middle = 0, access_type = 0x92, seg_flags = 0xCF, base_high = 0\<rparr>"
  "gdt_lookup (gdt_init mi ta ea s) GDT_USER_CODE_SEGMENT =
     \<lparr>limit_low = 0xffff, base_low = 0, base_middle = 0, access_type = 0xFA, seg_flags = 0xCF, base_high = 0\<rparr>"
  "gdt_lookup (gdt_init mi ta ea s) GDT_USER_DATA_SEGMENT =
     \<lparr>limit_low = 0xffff, base_low = 0, base_middle = 0, access_type = 0xF2, seg_flags = 0xCF, base_high = 0\<rparr>"
  by (simp_all add: gdt_init_def gdt_lookup_def Let_def set_segment_descriptor_def load_gdt_def load_tss_def c_const)


end
