(* ===== verification/Portio.thy ===== *)
theory Portio
  imports Kernel_Prelude
begin

text \<open>
  Port input and output, \<^verbatim>\<open>src/kernel/arch/i386/portio.c\<close>, and the kernel log. What the drivers do
  to the hardware is a trace of port accesses. The hardware is not part of the program: it is a
  parameter \<open>dev\<close> that answers a read from the history of the trace. The second field lists the calls
  of the \<^verbatim>\<open>printk\<close> family with their arguments; what such a call puts on the screen is in the theory
  of the console.
\<close>

section \<open>State\<close>

datatype io_event = In u16 u8 | Out u16 u8 | Wait

datatype printk_log_level = PRINTK_DEBUG | PRINTK_INFO | PRINTK_WARN | PRINTK_ERROR

datatype printk_arg = Num u64 | Str string

type_synonym message = "printk_log_level \<times> string \<times> printk_arg list"

record io_state =
  io_trace :: "io_event list"
  messages :: "message list"

type_synonym device = "io_event list \<Rightarrow> u16 \<Rightarrow> u8"

text \<open>A format string that ends in a newline.\<close>

abbreviation line :: "string \<Rightarrow> string" where
  "line fmt \<equiv> fmt @ [CHR 0x0A]"

abbreviation n32 :: "u32 \<Rightarrow> printk_arg" where
  "n32 x \<equiv> Num (ucast x)"

abbreviation n8 :: "u8 \<Rightarrow> printk_arg" where
  "n8 x \<equiv> Num (ucast x)"

definition log_message :: "printk_log_level \<Rightarrow> string \<Rightarrow> printk_arg list \<Rightarrow> io_state \<Rightarrow> io_state" where
  "log_message level fmt args s = s\<lparr>messages := messages s @ [(level, fmt, args)]\<rparr>"

lemma log_message_simps [simp]:
  "io_trace (log_message l f a s) = io_trace s"
  "messages (log_message l f a s) = messages s @ [(l, f, a)]"
  by (simp_all add: log_message_def)

section \<open>Operations\<close>

text \<open>\<^verbatim>\<open>io_wait\<close> writes whatever is in AL to the unused port 0x80; only the delay is recorded.\<close>

definition io_wait :: "io_state \<Rightarrow> io_state" where
  "io_wait s = s\<lparr>io_trace := io_trace s @ [Wait]\<rparr>"

definition inb :: "device \<Rightarrow> u16 \<Rightarrow> io_state \<Rightarrow> u8 \<times> io_state" where
  "inb dev port s =
     (let v = dev (io_trace s) port in (v, s\<lparr>io_trace := io_trace s @ [In port v]\<rparr>))"

definition outb :: "u16 \<Rightarrow> u8 \<Rightarrow> io_state \<Rightarrow> io_state" where
  "outb port v s = io_wait (s\<lparr>io_trace := io_trace s @ [Out port v]\<rparr>)"

lemma outb_simps [simp]:
  "io_trace (outb p v s) = io_trace s @ [Out p v, Wait]" "messages (outb p v s) = messages s"
  by (simp_all add: outb_def io_wait_def)

lemma inb_simps [simp]:
  "fst (inb dev p s) = dev (io_trace s) p"
  "io_trace (snd (inb dev p s)) = io_trace s @ [In p (dev (io_trace s) p)]" "messages (snd (inb dev p s)) = messages s"
  by (simp_all add: inb_def Let_def)

text \<open>The bytes written, in order, with their ports.\<close>

fun writes :: "io_event list \<Rightarrow> (u16 \<times> u8) list" where
  "writes [] = []"
| "writes (Out p v # es) = (p, v) # writes es"
| "writes (In p v # es) = writes es"
| "writes (Wait # es) = writes es"

lemma writes_append [simp]: "writes (es @ fs) = writes es @ writes fs"
  by (induction es rule: writes.induct) simp_all

end
