(* ===== verification/Pic.thy ===== *)
theory Pic
  imports Portio
begin

text \<open>
  The driver of the two interrupt controllers, \<^verbatim>\<open>src/drivers/pic.c\<close>.
\<close>

section \<open>Constants\<close>

definition PIC1_CONTROL :: u16 where [c_const]: "PIC1_CONTROL = 0x20"
definition PIC1_DATA :: u16 where [c_const]: "PIC1_DATA = 0x21"
definition PIC2_CONTROL :: u16 where [c_const]: "PIC2_CONTROL = 0xa0"
definition PIC2_DATA :: u16 where [c_const]: "PIC2_DATA = 0xa1"
definition PIC1_INT_OFFSET :: u8 where [c_const]: "PIC1_INT_OFFSET = 0x20"
definition PIC2_INT_OFFSET :: u8 where [c_const]: "PIC2_INT_OFFSET = PIC1_INT_OFFSET + 8"
definition PIC_ICW1_IC4 :: u8 where [c_const]: "PIC_ICW1_IC4 = 1"
definition PIC_ICW1_INIT :: u8 where [c_const]: "PIC_ICW1_INIT = push_bit 4 1"
definition PIC_ICW4_X86 :: u8 where [c_const]: "PIC_ICW4_X86 = 1"
definition PIC_OCW2_EOI :: u8 where [c_const]: "PIC_OCW2_EOI = push_bit 5 1"
definition PIC_IRQ0 :: u8 where [c_const]: "PIC_IRQ0 = 0"
definition PIC_IRQ1 :: u8 where [c_const]: "PIC_IRQ1 = 1"

section \<open>Operations\<close>

definition pic_init :: "device \<Rightarrow> io_state \<Rightarrow> io_state" where
  "pic_init dev s =
     (let (mask1, s1) = inb dev PIC1_DATA s;
          (mask2, s2) = inb dev PIC2_DATA s1;
          s3 = outb PIC1_CONTROL (PIC_ICW1_IC4 OR PIC_ICW1_INIT) s2;
          s4 = outb PIC2_CONTROL (PIC_ICW1_IC4 OR PIC_ICW1_INIT) s3;
          s5 = outb PIC1_DATA PIC1_INT_OFFSET s4;
          s6 = outb PIC2_DATA PIC2_INT_OFFSET s5;
          s7 = outb PIC1_DATA (push_bit 2 1) s6;
          s8 = outb PIC2_DATA 2 s7;
          s9 = outb PIC1_DATA PIC_ICW4_X86 s8;
          s10 = outb PIC2_DATA PIC_ICW4_X86 s9;
          s11 = outb PIC1_DATA mask1 s10
      in outb PIC2_DATA mask2 s11)"

definition pic_send_eoi :: "u8 \<Rightarrow> io_state \<Rightarrow> io_state" where
  "pic_send_eoi irq s =
     (let s1 = (if irq \<ge> 8 then outb PIC2_CONTROL PIC_OCW2_EOI s else s)
      in outb PIC1_CONTROL PIC_OCW2_EOI s1)"

text \<open>The shift is done on \<^verbatim>\<open>int\<close> and the result narrowed to a byte.\<close>

definition pic_clear_mask :: "device \<Rightarrow> u8 \<Rightarrow> io_state \<Rightarrow> io_state" where
  "pic_clear_mask dev irq s =
     (let (port, irq) = (if irq < 8 then (PIC1_DATA, irq) else (PIC2_DATA, irq - 8));
          (v, s1) = inb dev port s;
          new_mask = ucast ((ucast v :: u32) AND NOT (push_bit (unat irq) 1))
      in outb port new_mask s1)"

section \<open>A model of the mask registers\<close>

text \<open>
  The two controllers as the data sheet describes them, as far as the interrupt mask is concerned:
  after the first initialisation word on the control port, the next three words on the data port
  are not masks; any other word on the data port is, and reading the data port returns it. The
  state counts the initialisation words still expected.
\<close>

record pic_unit =
  pic_pending :: nat
  pic_vector :: u8
  pic_mask :: u8

fun pic_step :: "u16 \<Rightarrow> u16 \<Rightarrow> pic_unit \<Rightarrow> io_event \<Rightarrow> pic_unit" where
  "pic_step control data u (Out p v) =
     (if p = control \<and> bit v 4 then u\<lparr>pic_pending := 3, pic_mask := 0\<rparr>
      else if p = data then
        if pic_pending u = 3 then u\<lparr>pic_pending := 2, pic_vector := v\<rparr>
        else if 0 < pic_pending u then u\<lparr>pic_pending := pic_pending u - 1\<rparr>
        else u\<lparr>pic_mask := v\<rparr>
      else u)"
| "pic_step control data u (In p v) = u"
| "pic_step control data u Wait = u"

definition pic_run :: "u16 \<Rightarrow> u16 \<Rightarrow> pic_unit \<Rightarrow> io_event list \<Rightarrow> pic_unit" where
  "pic_run control data u es = fold (\<lambda>e u. pic_step control data u e) es u"

lemma pic_run_simps [simp]:
  "pic_run c d u [] = u" "pic_run c d u (e # es) = pic_run c d (pic_step c d u e) es"
  "pic_run c d u (es @ fs) = pic_run c d (pic_run c d u es) fs"
  by (simp_all add: pic_run_def)

abbreviation pic1 :: "pic_unit \<Rightarrow> io_event list \<Rightarrow> pic_unit" where
  "pic1 u es \<equiv> pic_run 0x20 0x21 u es"

abbreviation pic2 :: "pic_unit \<Rightarrow> io_event list \<Rightarrow> pic_unit" where
  "pic2 u es \<equiv> pic_run 0xa0 0xa1 u es"

text \<open>The data ports answer with the masks.\<close>

definition pic_device :: "pic_unit \<Rightarrow> pic_unit \<Rightarrow> device \<Rightarrow> bool" where
  "pic_device u1 u2 dev \<longleftrightarrow>
     (\<forall>es. dev es PIC1_DATA = pic_mask (pic1 u1 es) \<and> dev es PIC2_DATA = pic_mask (pic2 u2 es))"

definition pic_units :: "pic_unit \<Rightarrow> pic_unit \<Rightarrow> device" where
  "pic_units u1 u2 es p = (if p = PIC1_DATA then pic_mask (pic1 u1 es) else if p = PIC2_DATA then pic_mask (pic2 u2 es) else 0)"

lemma pic_device_units: "pic_device u1 u2 (pic_units u1 u2)"
  by (simp add: pic_device_def pic_units_def c_const)

lemma clear_mask_byte:
  assumes "k < 8"
  shows "bit (ucast ((ucast (v :: u8) :: u32) AND NOT (push_bit k 1)) :: u8) n \<longleftrightarrow> bit v n \<and> n \<noteq> k"
  using assms by (auto simp: bit_simps dest: bit_imp_le_length)

section \<open>Properties\<close>

text \<open>C37. On controllers that behave as their data sheet says, \<open>pic_init\<close> moves the interrupts of the
  first controller to the vectors from 32 and those of the second to the vectors from 40, ends the
  initialisation of both and leaves both interrupt masks as they were.\<close>

theorem pic_init_remaps:
  assumes "pic_device u1 u2 dev" and "pic_pending (pic1 u1 (io_trace s)) = 0" and "pic_pending (pic2 u2 (io_trace s)) = 0"
  shows "pic1 u1 (io_trace (pic_init dev s)) = (pic1 u1 (io_trace s))\<lparr>pic_vector := 32\<rparr> \<and>
    pic2 u2 (io_trace (pic_init dev s)) = (pic2 u2 (io_trace s))\<lparr>pic_vector := 40\<rparr>"
proof -
  have "dev (io_trace s) 0x21 = pic_mask (pic1 u1 (io_trace s))"
    "dev (io_trace s @ [In 0x21 (dev (io_trace s) 0x21)]) 0xa1 = pic_mask (pic2 u2 (io_trace s))"
    using assms(1) by (simp_all add: pic_device_def c_const)
  then show ?thesis
    using assms(2,3) by (cases "pic1 u1 (io_trace s)"; cases "pic2 u2 (io_trace s)")
      (simp add: pic_init_def Let_def case_prod_unfold c_const bit_simps)
qed

definition idle_unit :: pic_unit where
  "idle_unit = \<lparr>pic_pending = 0, pic_vector = 8, pic_mask = 0xff\<rparr>"

theorem pic_init_remaps_witness:
  "pic_vector (pic1 idle_unit (io_trace (pic_init (pic_units idle_unit idle_unit) \<lparr>io_trace = [], messages = []\<rparr>))) = 32 \<and>
   pic_mask (pic2 idle_unit (io_trace (pic_init (pic_units idle_unit idle_unit) \<lparr>io_trace = [], messages = []\<rparr>))) = 0xff"
  using pic_init_remaps [OF pic_device_units, of idle_unit "\<lparr>io_trace = [], messages = []\<rparr>" idle_unit]
  by (simp add: idle_unit_def)

lemma pic_clear_mask_trace:
  "io_trace (pic_clear_mask dev irq s) =
     (let port = (if irq < 8 then 0x21 else 0xa1); k = (if irq < 8 then irq else irq - 8); v = dev (io_trace s) port
      in io_trace s @ [In port v, Out port (ucast ((ucast v :: u32) AND NOT (push_bit (unat k) 1))), Wait])"
  by (simp add: pic_clear_mask_def Let_def case_prod_unfold c_const)

text \<open>For an interrupt line below 16, \<open>pic_clear_mask\<close> unmasks exactly that line: it clears its bit
  in the mask of the controller it belongs to and leaves the other bits and the other controller alone.\<close>

theorem pic_clear_mask_unmasks:
  assumes "pic_device u1 u2 dev" and "irq < 16"
    and "pic_pending (pic1 u1 (io_trace s)) = 0" and "pic_pending (pic2 u2 (io_trace s)) = 0"
  shows "(irq < 8 \<longrightarrow> (\<forall>n. bit (pic_mask (pic1 u1 (io_trace (pic_clear_mask dev irq s)))) n \<longleftrightarrow>
             bit (pic_mask (pic1 u1 (io_trace s))) n \<and> n \<noteq> unat irq) \<and>
           pic2 u2 (io_trace (pic_clear_mask dev irq s)) = pic2 u2 (io_trace s)) \<and>
    (8 \<le> irq \<longrightarrow> (\<forall>n. bit (pic_mask (pic2 u2 (io_trace (pic_clear_mask dev irq s)))) n \<longleftrightarrow>
             bit (pic_mask (pic2 u2 (io_trace s))) n \<and> n \<noteq> unat irq - 8) \<and>
           pic1 u1 (io_trace (pic_clear_mask dev irq s)) = pic1 u1 (io_trace s))"
proof -
  have "dev (io_trace s) 0x21 = pic_mask (pic1 u1 (io_trace s))" "dev (io_trace s) 0xa1 = pic_mask (pic2 u2 (io_trace s))"
    using assms(1) by (simp_all add: pic_device_def c_const)
  moreover have "unat irq < 8" if "irq < 8" using that by (simp add: word_less_nat_alt)
  moreover have "unat (irq - 8) = unat irq - 8" "unat (irq - 8) < 8" if "8 \<le> irq"
    using that assms(2) by (simp_all add: unat_sub word_le_nat_alt word_less_nat_alt)
  ultimately show ?thesis
    using assms(3,4) clear_mask_byte [of "unat irq"] clear_mask_byte [of "unat (irq - 8)"]
    by (auto simp: pic_clear_mask_trace Let_def not_less not_le)
qed

theorem pic_clear_mask_unmasks_witness:
  "\<not> bit (pic_mask (pic1 idle_unit (io_trace (pic_clear_mask (pic_units idle_unit idle_unit) 1 \<lparr>io_trace = [], messages = []\<rparr>)))) 1"
  using pic_clear_mask_unmasks [OF pic_device_units, of 1 idle_unit "\<lparr>io_trace = [], messages = []\<rparr>" idle_unit]
  by (simp add: idle_unit_def)

end
