(* ===== verification/Ps2.thy ===== *)
theory Ps2
  imports Pic
begin

text \<open>
  The keyboard driver, \<^verbatim>\<open>src/drivers/ps2.c\<close>. The controller is part of the device parameter; the
  loops that wait for it may not end. Scancodes go to a ring buffer of ten bytes.
\<close>

section \<open>Constants and data\<close>

definition PS2_DATA :: u16 where [c_const]: "PS2_DATA = 0x60"
definition PS2_CTRL_CMD_REGISTER :: u16 where [c_const]: "PS2_CTRL_CMD_REGISTER = 0x64"
definition PS2_CTRL_STATUS_REGISTER :: u16 where [c_const]: "PS2_CTRL_STATUS_REGISTER = 0x64"
definition PS2_CMD_CTRL_SELF_TEST :: u8 where [c_const]: "PS2_CMD_CTRL_SELF_TEST = 0xaa"
definition PS2_CMD_PORT1_SELF_TEST :: u8 where [c_const]: "PS2_CMD_PORT1_SELF_TEST = 0xab"
definition PS2_CMD_DISABLE_PORT1 :: u8 where [c_const]: "PS2_CMD_DISABLE_PORT1 = 0xad"
definition PS2_CMD_ENABLE_PORT1 :: u8 where [c_const]: "PS2_CMD_ENABLE_PORT1 = 0xae"
definition PS2_CMD_DISABLE_PORT2 :: u8 where [c_const]: "PS2_CMD_DISABLE_PORT2 = 0xa7"
definition PS2_CMD_ENABLE_PORT2 :: u8 where [c_const]: "PS2_CMD_ENABLE_PORT2 = 0xa8"
definition PS2_CMD_CTRL_READ_CONFIG_BYTE :: u8 where [c_const]: "PS2_CMD_CTRL_READ_CONFIG_BYTE = 0x20"
definition PS2_CMD_CTRL_WRITE_CONFIG_BYTE :: u8 where [c_const]: "PS2_CMD_CTRL_WRITE_CONFIG_BYTE = 0x60"
definition PS2_CTRL_STATUS_OUT_BUF_FULL :: u8 where [c_const]: "PS2_CTRL_STATUS_OUT_BUF_FULL = 1"
definition PS2_CTRL_STATUS_IN_BUF_FULL :: u8 where [c_const]: "PS2_CTRL_STATUS_IN_BUF_FULL = 2"
definition PS2_CTRL_SELF_TEST_OK :: u8 where [c_const]: "PS2_CTRL_SELF_TEST_OK = 0x55"
definition PS2_PORT1_SELF_TEST_OK :: u8 where [c_const]: "PS2_PORT1_SELF_TEST_OK = 0"
definition PS2_PORT1_RESEND :: u8 where [c_const]: "PS2_PORT1_RESEND = 0xfe"
definition PS2_CTRL_CONFIG_PORT1_INTERRUPTS :: u8 where [c_const]: "PS2_CTRL_CONFIG_PORT1_INTERRUPTS = 1"
definition PS2_CTRL_CONFIG_PORT2_INTERRUPTS :: u8 where [c_const]: "PS2_CTRL_CONFIG_PORT2_INTERRUPTS = 2"
definition PS2_CTRL_CONFIG_SYSTEM_FLAG :: u8 where [c_const]: "PS2_CTRL_CONFIG_SYSTEM_FLAG = 4"
definition PS2_CTRL_CONFIG_PORT1_CLOCK :: u8 where [c_const]: "PS2_CTRL_CONFIG_PORT1_CLOCK = 0x10"
definition PS2_CTRL_CONFIG_PORT1_TRANSLATION :: u8 where [c_const]: "PS2_CTRL_CONFIG_PORT1_TRANSLATION = 0x40"
definition PS2_SCANCODE_QUEUE_SIZE :: u32 where [c_const]: "PS2_SCANCODE_QUEUE_SIZE = 10"

record scancode_queue_context =
  q_start :: u32
  q_end :: u32
  q_buf :: "u32 \<Rightarrow> u8"

section \<open>Operations\<close>

definition init_scancode_queue :: "scancode_queue_context \<Rightarrow> scancode_queue_context" where
  "init_scancode_queue q = q\<lparr>q_start := 0, q_end := 0\<rparr>"

definition ps2_controller_input_buffer_full :: "device \<Rightarrow> io_state \<Rightarrow> bool \<times> io_state" where
  "ps2_controller_input_buffer_full dev s =
     (let (v, s1) = inb dev PS2_CTRL_STATUS_REGISTER s in (v AND PS2_CTRL_STATUS_IN_BUF_FULL \<noteq> 0, s1))"

definition ps2_controller_output_buffer_full :: "device \<Rightarrow> io_state \<Rightarrow> bool \<times> io_state" where
  "ps2_controller_output_buffer_full dev s =
     (let (v, s1) = inb dev PS2_CTRL_STATUS_REGISTER s in (v AND PS2_CTRL_STATUS_OUT_BUF_FULL \<noteq> 0, s1))"

partial_function (option) ps2_controller_wait_ready_for_cmd :: "device \<Rightarrow> io_state \<Rightarrow> io_state option" where [code]:
  "ps2_controller_wait_ready_for_cmd dev s =
     (let (full, s1) = ps2_controller_input_buffer_full dev s
      in if full then ps2_controller_wait_ready_for_cmd dev (log_message PRINTK_WARN ''PS/2 controller not ready'' [] s1)
         else Some s1)"

partial_function (option) ps2_flush_controller_output_buffer :: "device \<Rightarrow> io_state \<Rightarrow> io_state option" where [code]:
  "ps2_flush_controller_output_buffer dev s =
     (let (full, s1) = ps2_controller_output_buffer_full dev s
      in if full then ps2_flush_controller_output_buffer dev (snd (inb dev PS2_DATA s1))
         else Some s1)"

definition ps2_controller_send_cmd :: "device \<Rightarrow> u8 \<Rightarrow> io_state \<Rightarrow> io_state option" where
  "ps2_controller_send_cmd dev cmd s =
     map_option (outb PS2_CTRL_CMD_REGISTER cmd) (ps2_controller_wait_ready_for_cmd dev s)"

definition ps2_keyboard_send_cmd :: "device \<Rightarrow> u8 \<Rightarrow> io_state \<Rightarrow> io_state option" where
  "ps2_keyboard_send_cmd dev cmd s = map_option (outb PS2_DATA cmd) (ps2_controller_wait_ready_for_cmd dev s)"

text \<open>The configuration byte is read from the port whose number is the code of the read command.\<close>

definition ps2_controller_configure :: "device \<Rightarrow> io_state \<Rightarrow> (u8 \<times> io_state) option" where
  "ps2_controller_configure dev s =
     (let (config, s1) = inb dev (ucast PS2_CMD_CTRL_READ_CONFIG_BYTE) s
      in Option.bind (ps2_controller_send_cmd dev PS2_CMD_CTRL_WRITE_CONFIG_BYTE s1) (\<lambda>s2.
         let config1 = config OR PS2_CTRL_CONFIG_PORT1_INTERRUPTS;
             config2 = config1 OR PS2_CTRL_CONFIG_PORT2_INTERRUPTS;
             config3 = config2 OR PS2_CTRL_CONFIG_SYSTEM_FLAG;
             config4 = config3 OR PS2_CTRL_CONFIG_PORT1_CLOCK;
             config5 = config4 OR PS2_CTRL_CONFIG_SYSTEM_FLAG;
             config6 = config5 AND NOT PS2_CTRL_CONFIG_PORT1_TRANSLATION
         in Some (config6, outb PS2_DATA config6 s2)))"

definition ps2_controller_self_test :: "device \<Rightarrow> u8 \<Rightarrow> io_state \<Rightarrow> io_state option" where
  "ps2_controller_self_test dev ps2_controller_config s =
     Option.bind (ps2_controller_send_cmd dev PS2_CMD_CTRL_SELF_TEST s) (\<lambda>s1.
     let (err, s2) = inb dev PS2_DATA s1;
         s3 = (if err \<noteq> PS2_CTRL_SELF_TEST_OK
               then log_message PRINTK_WARN (line ''PS/2 controller self-test: failed (err=%d)'') [n8 err] s2
               else log_message PRINTK_INFO (line ''PS/2 controller self-test: OK'') [] s2)
     in Some (outb PS2_DATA ps2_controller_config s3))"

text \<open>The loop of \<^verbatim>\<open>ps2_interface_self_test\<close>: the last answer that was not a request to resend.\<close>

partial_function (option) self_test_loop :: "device \<Rightarrow> io_state \<Rightarrow> (u8 \<times> io_state) option" where [code]:
  "self_test_loop dev s =
     (let (err, s1) = inb dev PS2_DATA s
      in if err = PS2_PORT1_RESEND
         then Option.bind (ps2_controller_send_cmd dev PS2_CMD_PORT1_SELF_TEST s1) (\<lambda>s2.
              self_test_loop dev (log_message PRINTK_WARN (line ''PS/2 keyboard self-test: failed (err=%d)'') [n8 err] s2))
         else Some (err, s1))"

definition ps2_interface_self_test :: "device \<Rightarrow> io_state \<Rightarrow> io_state option" where
  "ps2_interface_self_test dev s =
     Option.bind (ps2_controller_send_cmd dev PS2_CMD_PORT1_SELF_TEST s) (\<lambda>s1.
     let (_, s2) = inb dev PS2_DATA s1
     in Option.bind (self_test_loop dev s2) (\<lambda>(err, s3).
        Some (if err \<noteq> PS2_PORT1_SELF_TEST_OK
              then log_message PRINTK_WARN (line ''PS/2 keyboard self-test: failed (err=%d)'') [n8 err] s3
              else log_message PRINTK_INFO (line ''PS/2 keyboard self-test: OK'') [] s3)))"

definition ps2_handle_irq1 :: "device \<Rightarrow> scancode_queue_context \<Rightarrow> io_state \<Rightarrow> scancode_queue_context \<times> io_state" where
  "ps2_handle_irq1 dev q s =
     (let (scancode, s1) = inb dev PS2_DATA s;
          q1 = q\<lparr>q_buf := (q_buf q)(q_end q := scancode), q_end := (q_end q + 1) mod PS2_SCANCODE_QUEUE_SIZE\<rparr>;
          s2 = for_range 0 PS2_SCANCODE_QUEUE_SIZE (\<lambda>i. log_message PRINTK_DEBUG (line ''%d: %d'') [n32 i, n8 (q_buf q1 i)]) s1
      in (q1, pic_send_eoi PIC_IRQ1 s2))"

definition ps2_init_devices :: "device \<Rightarrow> scancode_queue_context \<Rightarrow> io_state \<Rightarrow> (scancode_queue_context \<times> io_state) option" where
  "ps2_init_devices dev q s =
     Option.bind (ps2_controller_send_cmd dev PS2_CMD_DISABLE_PORT1 s) (\<lambda>s1.
     Option.bind (ps2_controller_send_cmd dev PS2_CMD_DISABLE_PORT2 s1) (\<lambda>s2.
     Option.bind (ps2_flush_controller_output_buffer dev s2) (\<lambda>s3.
     Option.bind (ps2_controller_configure dev s3) (\<lambda>(ps2_controller_config, s4).
     Option.bind (ps2_controller_self_test dev ps2_controller_config s4) (\<lambda>s5.
     Option.bind (ps2_interface_self_test dev s5) (\<lambda>s6.
     Option.bind (ps2_controller_send_cmd dev PS2_CMD_ENABLE_PORT1 s6) (\<lambda>s7.
     Option.bind (ps2_controller_send_cmd dev PS2_CMD_ENABLE_PORT2 s7) (\<lambda>s8.
     Some (init_scancode_queue q, s8)))))))))"

section \<open>The ring buffer\<close>

text \<open>Scancode bytes read from the data port, and \<open>n\<close> interrupts in a row.\<close>

fun reads :: "u16 \<Rightarrow> io_event list \<Rightarrow> u8 list" where
  "reads p [] = []"
| "reads p (In p' v # es) = (if p' = p then v # reads p es else reads p es)"
| "reads p (Out p' v # es) = reads p es"
| "reads p (Wait # es) = reads p es"

lemma reads_append [simp]: "reads p (es @ fs) = reads p es @ reads p fs"
  by (induction p es rule: reads.induct) simp_all

primrec handle_irqs :: "device \<Rightarrow> nat \<Rightarrow> scancode_queue_context \<times> io_state \<Rightarrow> scancode_queue_context \<times> io_state" where
  "handle_irqs dev 0 qs = qs"
| "handle_irqs dev (Suc n) qs = (case handle_irqs dev n qs of (q, s) \<Rightarrow> ps2_handle_irq1 dev q s)"

lemma handle_irq1_result:
  "fst (ps2_handle_irq1 dev q s) =
     q\<lparr>q_buf := (q_buf q)(q_end q := dev (io_trace s) 0x60), q_end := (q_end q + 1) mod 10\<rparr>"
  "io_trace (snd (ps2_handle_irq1 dev q s)) =
     io_trace s @ [In 0x60 (dev (io_trace s) 0x60), Out 0x20 0x20, Wait]"
  by (simp_all add: ps2_handle_irq1_def Let_def case_prod_unfold pic_send_eoi_def for_range_keeps [where g = io_trace] word_le_nat_alt c_const)

lemma mod10_less: "i < n \<Longrightarrow> n < i + 10 \<Longrightarrow> (e + i) mod 10 \<noteq> (e + n) mod (10 :: nat)"
  using mod_eq_dvd_iff_nat [of "e + i" "e + n" 10] by (auto dest: dvd_imp_le)

lemma handle_irqs_ring:
  assumes "unat (q_end q) < 10" and "handle_irqs dev n (q, s) = (q', s')"
  shows "\<exists>cs. reads 0x60 (io_trace s') = reads 0x60 (io_trace s) @ cs \<and> length cs = n \<and>
    unat (q_end q') = (unat (q_end q) + n) mod 10 \<and>
    (\<forall>i < n. n \<le> i + 10 \<longrightarrow> q_buf q' (of_nat ((unat (q_end q) + i) mod 10)) = cs ! i) \<and>
    writes (io_trace s') = writes (io_trace s) @ replicate n (0x20, 0x20)"
  using assms(2)
proof (induction n arbitrary: q' s')
  case 0
  then show ?case using assms(1) by simp
next
  case (Suc n)
  obtain q1 s1 where h: "handle_irqs dev n (q, s) = (q1, s1)" by (cases "handle_irqs dev n (q, s)")
  from Suc.IH [OF h] obtain cs where cs: "reads 0x60 (io_trace s1) = reads 0x60 (io_trace s) @ cs" "length cs = n"
    "unat (q_end q1) = (unat (q_end q) + n) mod 10"
    "\<forall>i < n. n \<le> i + 10 \<longrightarrow> q_buf q1 (of_nat ((unat (q_end q) + i) mod 10)) = cs ! i"
    "writes (io_trace s1) = writes (io_trace s) @ replicate n (0x20, 0x20)" by blast
  let ?c = "dev (io_trace s1) 0x60" and ?e = "unat (q_end q)"
  have q': "q' = q1\<lparr>q_buf := (q_buf q1)(q_end q1 := ?c), q_end := (q_end q1 + 1) mod 10\<rparr>"
    and s': "io_trace s' = io_trace s1 @ [In 0x60 ?c, Out 0x20 0x20, Wait]"
    using Suc.prems h handle_irq1_result [of dev q1 s1] by simp_all
  have e1: "q_end q1 = of_nat ((?e + n) mod 10)" by (simp flip: cs(3))
  have "unat ((q_end q1 + 1) mod 10) = ((?e + n) mod 10 + 1) mod 10"
    using cs(3) by (simp add: unat_mod unat_word_ariths)
  then have end': "unat (q_end q') = (?e + Suc n) mod 10" by (simp add: q' mod_simps)
  have "q_buf q' (of_nat ((?e + i) mod 10)) = (cs @ [?c]) ! i" if i: "i < Suc n" "Suc n \<le> i + 10" for i
  proof (cases "i = n")
    case False
    have "(?e + i) mod 10 \<noteq> (?e + n) mod 10" using mod10_less [of i n ?e] i False by simp
    then have "(of_nat ((?e + i) mod 10) :: u32) \<noteq> of_nat ((?e + n) mod 10)"
      by (simp add: word_unat_eq_iff unat_of_nat)
    with i False cs(2,4) show ?thesis by (simp add: q' e1 nth_append)
  qed (simp add: q' e1 cs(2) nth_append)
  then show ?case using cs end' by (intro exI [of _ "cs @ [?c]"]) (auto simp: s' replicate_append_same)
qed

section \<open>Polling the controller\<close>

text \<open>The state after \<open>k\<close> polls that found the controller busy.\<close>

primrec busy_polls :: "device \<Rightarrow> nat \<Rightarrow> io_state \<Rightarrow> io_state" where
  "busy_polls dev 0 s = s"
| "busy_polls dev (Suc k) s =
     busy_polls dev k (log_message PRINTK_WARN ''PS/2 controller not ready'' [] (snd (inb dev 0x64 s)))"

abbreviation ready :: "device \<Rightarrow> io_state \<Rightarrow> bool" where
  "ready dev s \<equiv> dev (io_trace s) 0x64 AND 2 = 0"

lemma wait_step:
  "ps2_controller_wait_ready_for_cmd dev s =
     (if ready dev s then Some (snd (inb dev 0x64 s))
      else ps2_controller_wait_ready_for_cmd dev (busy_polls dev 1 s))"
  by (subst ps2_controller_wait_ready_for_cmd.simps)
    (simp add: ps2_controller_input_buffer_full_def case_prod_unfold Let_def c_const)

lemma wait_returns:
  assumes "ready dev (busy_polls dev k s)" shows "\<exists>s'. ps2_controller_wait_ready_for_cmd dev s = Some s'"
  using assms by (induction k arbitrary: s) (subst wait_step, simp)+

lemma wait_returned:
  assumes "ps2_controller_wait_ready_for_cmd dev s = Some s'"
  shows "\<exists>k. ready dev (busy_polls dev k s) \<and> s' = snd (inb dev 0x64 (busy_polls dev k s)) \<and>
    (\<forall>j < k. \<not> ready dev (busy_polls dev j s))"
proof (rule ps2_controller_wait_ready_for_cmd.raw_induct [OF _ assms])
  fix f dev s s'
  assume 1: "\<And>dev s s'. f dev s = Some s' \<Longrightarrow> \<exists>k. ready dev (busy_polls dev k s) \<and> s' = snd (inb dev 0x64 (busy_polls dev k s)) \<and>
      (\<forall>j < k. \<not> ready dev (busy_polls dev j s))"
    and 2: "(let (full, s1) = ps2_controller_input_buffer_full dev s
      in if full then f dev (log_message PRINTK_WARN ''PS/2 controller not ready'' [] s1) else Some s1) = Some s'"
  show "\<exists>k. ready dev (busy_polls dev k s) \<and> s' = snd (inb dev 0x64 (busy_polls dev k s)) \<and>
    (\<forall>j < k. \<not> ready dev (busy_polls dev j s))"
  proof (cases "ready dev s")
    case True
    with 2 have "s' = snd (inb dev 0x64 s)"
      by (simp add: ps2_controller_input_buffer_full_def case_prod_unfold Let_def c_const)
    with True show ?thesis by (intro exI [of _ 0]) simp
  next
    case False
    with 2 have "f dev (busy_polls dev 1 s) = Some s'"
      by (simp add: ps2_controller_input_buffer_full_def case_prod_unfold Let_def c_const)
    from 1 [OF this] obtain k where k: "ready dev (busy_polls dev k (busy_polls dev 1 s))"
      "s' = snd (inb dev 0x64 (busy_polls dev k (busy_polls dev 1 s)))"
      "\<forall>j < k. \<not> ready dev (busy_polls dev j (busy_polls dev 1 s))" by blast
    have "\<forall>j < Suc k. \<not> ready dev (busy_polls dev j s)" using k(3) False by (auto simp: less_Suc_eq_0_disj)
    with k(1,2) show ?thesis by (intro exI [of _ "Suc k"]) simp
  qed
qed

lemma send_cmd_ready:
  assumes "ready dev s"
  shows "ps2_controller_send_cmd dev cmd s = Some (outb 0x64 cmd (snd (inb dev 0x64 s)))"
  using assms by (simp add: ps2_controller_send_cmd_def wait_step c_const)

section \<open>Properties\<close>

text \<open>C38. After \<open>n\<close> keyboard interrupts the queue holds the last ten scancodes read from the data port,
  the one of the \<open>i\<close>-th interrupt at position \<open>(end + i) mod 10\<close>; older ones are overwritten, nothing
  checks the start of the queue, and every interrupt is acknowledged once.\<close>

theorem ps2_queue_keeps_last_ten:
  assumes "unat (q_end q) < 10" and "handle_irqs dev n (q, s) = (q', s')"
  shows "\<exists>cs. reads 0x60 (io_trace s') = reads 0x60 (io_trace s) @ cs \<and> length cs = n \<and>
    unat (q_end q') = (unat (q_end q) + n) mod 10 \<and>
    (\<forall>i < n. n \<le> i + 10 \<longrightarrow> q_buf q' (of_nat ((unat (q_end q) + i) mod 10)) = cs ! i) \<and>
    writes (io_trace s') = writes (io_trace s) @ replicate n (0x20, 0x20)"
  by (rule handle_irqs_ring [OF assms])

definition example_queue :: scancode_queue_context where
  "example_queue = \<lparr>q_start = 0, q_end = 0, q_buf = (\<lambda>_. 0)\<rparr>"

theorem ps2_queue_keeps_last_ten_witness:
  "\<exists>cs. reads 0x60 (io_trace (snd (handle_irqs (\<lambda>_ _. 7) 12 (example_queue, \<lparr>io_trace = [], messages = []\<rparr>)))) = cs \<and>
     length cs = 12 \<and> unat (q_end (fst (handle_irqs (\<lambda>_ _. 7) 12 (example_queue, \<lparr>io_trace = [], messages = []\<rparr>)))) = 2"
  using ps2_queue_keeps_last_ten [of example_queue "\<lambda>_ _. 7" 12 "\<lparr>io_trace = [], messages = []\<rparr>", OF _ prod.collapse [symmetric]]
  by (auto simp: example_queue_def)

text \<open>Waiting for the controller returns exactly if some poll of the status register finds the
  input buffer empty, and then it stops at the first such poll; with a controller that stays busy it
  never returns.\<close>

theorem ps2_wait_returns_iff_ready:
  "(\<exists>s'. ps2_controller_wait_ready_for_cmd dev s = Some s') \<longleftrightarrow> (\<exists>k. ready dev (busy_polls dev k s))"
  using wait_returns wait_returned by blast

text \<open>With a controller that is always ready, has nothing to read and does not ask for a resend,
  \<open>ps2_init_devices\<close> returns with an empty queue and writes exactly the nine bytes below. The
  configuration byte it writes is built from a read of port 0x20, which is the first interrupt
  controller: the read command is never sent.\<close>

theorem ps2_init_commands:
  assumes "\<forall>es. dev es 0x64 AND 3 = 0" and "\<forall>es. dev es 0x60 \<noteq> 0xfe"
  shows "\<exists>q' s' es cfg. ps2_init_devices dev q s = Some (q', s') \<and> q_start q' = 0 \<and> q_end q' = 0 \<and>
    cfg = (dev es 0x20 OR 0x17) AND NOT 0x40 \<and>
    writes (io_trace s') = writes (io_trace s) @
      [(0x64, 0xad), (0x64, 0xa7), (0x64, 0x60), (0x60, cfg), (0x64, 0xaa), (0x60, cfg), (0x64, 0xab), (0x64, 0xae), (0x64, 0xa8)]"
proof -
  have "x AND 2 = 0 \<and> x AND 1 = 0" if "x AND 3 = 0" for x :: u8
  proof -
    have "x AND 2 = (x AND 3) AND 2" "x AND 1 = (x AND 3) AND 1" by (simp_all add: and.assoc)
    with that show ?thesis by simp
  qed
  then have rdy: "dev es 0x64 AND 2 = 0" "dev es 0x64 AND 1 = 0" for es using assms(1) by auto
  have cmd: "ps2_controller_send_cmd dev c s = Some (outb 0x64 c (snd (inb dev 0x64 s)))" for c s
    by (rule send_cmd_ready) (rule rdy)
  have flush: "ps2_flush_controller_output_buffer dev s = Some (snd (inb dev 0x64 s))" for s
    using rdy(2) by (subst ps2_flush_controller_output_buffer.simps)
      (simp add: ps2_controller_output_buffer_full_def case_prod_unfold Let_def c_const)
  have loop: "self_test_loop dev s = Some (dev (io_trace s) 0x60, snd (inb dev 0x60 s))" for s
    using assms(2) by (subst self_test_loop.simps) (simp add: case_prod_unfold Let_def c_const)
  let ?w = "\<lambda>s. writes (io_trace s)"
  have send: "\<exists>s'. ps2_controller_send_cmd dev c s = Some s' \<and> ?w s' = ?w s @ [(0x64, c)]" for c s by (simp add: cmd)
  have conf: "\<exists>es s'. ps2_controller_configure dev s = Some ((dev es 0x20 OR 0x17) AND NOT 0x40, s') \<and>
      ?w s' = ?w s @ [(0x64, 0x60), (0x60, (dev es 0x20 OR 0x17) AND NOT 0x40)]" for s
    by (intro exI [of _ "io_trace s"]) (simp add: ps2_controller_configure_def cmd case_prod_unfold Let_def c_const or.assoc)
  have ctest: "\<exists>s'. ps2_controller_self_test dev c s = Some s' \<and> ?w s' = ?w s @ [(0x64, 0xaa), (0x60, c)]" for c s
    by (simp add: ps2_controller_self_test_def cmd case_prod_unfold Let_def c_const)
  have itest: "\<exists>s'. ps2_interface_self_test dev s = Some s' \<and> ?w s' = ?w s @ [(0x64, 0xab)]" for s
    by (simp add: ps2_interface_self_test_def cmd loop case_prod_unfold Let_def c_const)
  obtain s1 where s1: "ps2_controller_send_cmd dev 0xad s = Some s1" "?w s1 = ?w s @ [(0x64, 0xad)]" using send by blast
  obtain s2 where s2: "ps2_controller_send_cmd dev 0xa7 s1 = Some s2" "?w s2 = ?w s1 @ [(0x64, 0xa7)]" using send by blast
  obtain s3 where s3: "ps2_flush_controller_output_buffer dev s2 = Some s3" "?w s3 = ?w s2" by (simp add: flush)
  obtain es s4 where s4: "ps2_controller_configure dev s3 = Some ((dev es 0x20 OR 0x17) AND NOT 0x40, s4)"
    "?w s4 = ?w s3 @ [(0x64, 0x60), (0x60, (dev es 0x20 OR 0x17) AND NOT 0x40)]" using conf by blast
  let ?c = "(dev es 0x20 OR 0x17) AND NOT 0x40"
  obtain s5 where s5: "ps2_controller_self_test dev ?c s4 = Some s5" "?w s5 = ?w s4 @ [(0x64, 0xaa), (0x60, ?c)]" using ctest by blast
  obtain s6 where s6: "ps2_interface_self_test dev s5 = Some s6" "?w s6 = ?w s5 @ [(0x64, 0xab)]" using itest by blast
  obtain s7 where s7: "ps2_controller_send_cmd dev 0xae s6 = Some s7" "?w s7 = ?w s6 @ [(0x64, 0xae)]" using send by blast
  obtain s8 where s8: "ps2_controller_send_cmd dev 0xa8 s7 = Some s8" "?w s8 = ?w s7 @ [(0x64, 0xa8)]" using send by blast
  have "ps2_init_devices dev q s = Some (init_scancode_queue q, s8)"
    using s1(1) s2(1) s3(1) s4(1) s5(1) s6(1) s7(1) s8(1) by (simp add: ps2_init_devices_def c_const)
  moreover have "?w s8 = ?w s @ [(0x64, 0xad), (0x64, 0xa7), (0x64, 0x60), (0x60, ?c), (0x64, 0xaa), (0x60, ?c), (0x64, 0xab), (0x64, 0xae), (0x64, 0xa8)]"
    using s1(2) s2(2) s3(2) s4(2) s5(2) s6(2) s7(2) s8(2) by simp
  ultimately show ?thesis by (auto simp: init_scancode_queue_def)
qed

theorem ps2_init_commands_witness:
  "\<exists>q' s'. ps2_init_devices (\<lambda>_ _. 0) example_queue \<lparr>io_trace = [], messages = []\<rparr> = Some (q', s') \<and>
     writes (io_trace s') = [(0x64, 0xad), (0x64, 0xa7), (0x64, 0x60), (0x60, 0x17), (0x64, 0xaa), (0x60, 0x17), (0x64, 0xab), (0x64, 0xae), (0x64, 0xa8)]"
  using ps2_init_commands [of "\<lambda>_ _. 0" example_queue "\<lparr>io_trace = [], messages = []\<rparr>"] by auto

end
