(* ===== verification/Handlers.thy ===== *)
theory Handlers
  imports Kernel_Prelude
begin

text \<open>
  The exception handlers of \<^verbatim>\<open>src/kernel/arch/i386/interrupts/handlers.c\<close> other than the one for page
  faults: each of them panics with its own message.
\<close>

text \<open>The structure the handlers are given.\<close>

record interrupt_state =
  is_eflags :: u32
  is_cs :: u32
  is_eip :: u32

definition divide_error_exception_handler :: "interrupt_state \<Rightarrow> 'a comp" where
  "divide_error_exception_handler state = fail (Panic (''divide_error_exception (eflags=%#x, cs=%d, eip=%d)'' @ [CHR 0x0A]))"

definition debug_exception_handler :: "interrupt_state \<Rightarrow> 'a comp" where
  "debug_exception_handler state = fail (Panic (''debug_exception (eflags=%#x, cs=%d, eip=%d)'' @ [CHR 0x0A]))"

definition nmi_interrupt_handler :: "interrupt_state \<Rightarrow> 'a comp" where
  "nmi_interrupt_handler state = fail (Panic (''nmi_interrupt (eflags=%#x, cs=%d, eip=%d)'' @ [CHR 0x0A]))"

definition breakpoint_exception_handler :: "interrupt_state \<Rightarrow> 'a comp" where
  "breakpoint_exception_handler state = fail (Panic (''breakpoint_exception (eflags=%#x, cs=%d, eip=%d)'' @ [CHR 0x0A]))"

definition overflow_exception_handler :: "interrupt_state \<Rightarrow> 'a comp" where
  "overflow_exception_handler state = fail (Panic (''overflow_exception (eflags=%#x, cs=%d, eip=%d)'' @ [CHR 0x0A]))"

definition bound_range_exceeded_exception_handler :: "interrupt_state \<Rightarrow> 'a comp" where
  "bound_range_exceeded_exception_handler state = fail (Panic (''bound_range_exceeded_exception (eflags=%#x, cs=%d, eip=%d)'' @ [CHR 0x0A]))"

definition invalid_opcode_exception_handler :: "interrupt_state \<Rightarrow> 'a comp" where
  "invalid_opcode_exception_handler state = fail (Panic (''invalid_opcode_exception (eflags=%#x, cs=%d, eip=%d)'' @ [CHR 0x0A]))"

definition device_not_available_exception_handler :: "interrupt_state \<Rightarrow> 'a comp" where
  "device_not_available_exception_handler state = fail (Panic (''device_not_available_exception (eflags=%#x, cs=%d, eip=%d)'' @ [CHR 0x0A]))"

definition double_fault_exception_handler :: "interrupt_state \<Rightarrow> u32 \<Rightarrow> 'a comp" where
  "double_fault_exception_handler state err_code = fail (Panic (''double_fault_exception (eflags=%#x, cs=%d, eip=%d, error=%d)'' @ [CHR 0x0A]))"

definition coprocessor_segment_overrun_handler :: "interrupt_state \<Rightarrow> 'a comp" where
  "coprocessor_segment_overrun_handler state = fail (Panic (''coprocessor_segment_overrun (eflags=%#x, cs=%d, eip=%d)'' @ [CHR 0x0A]))"

definition invalid_tss_exception_handler :: "interrupt_state \<Rightarrow> u32 \<Rightarrow> 'a comp" where
  "invalid_tss_exception_handler state err_code = fail (Panic (''invalid_tss_exception (eflags=%#x, cs=%d, eip=%d, error=%d)'' @ [CHR 0x0A]))"

definition segment_not_present_handler :: "interrupt_state \<Rightarrow> u32 \<Rightarrow> 'a comp" where
  "segment_not_present_handler state err_code = fail (Panic (''segment_not_present (eflags=%#x, cs=%d, eip=%d, error=%d)'' @ [CHR 0x0A]))"

definition stack_fault_exception_handler :: "interrupt_state \<Rightarrow> u32 \<Rightarrow> 'a comp" where
  "stack_fault_exception_handler state err_code = fail (Panic (''stack_fault_exception (eflags=%#x, cs=%d, eip=%d, error=%d)'' @ [CHR 0x0A]))"

definition general_protection_exception_handler :: "interrupt_state \<Rightarrow> u32 \<Rightarrow> 'a comp" where
  "general_protection_exception_handler state err_code = fail (Panic (''general_protection_exception (eflags=%#x, cs=%d, eip=%d, error=%d)'' @ [CHR 0x0A]))"

definition x87_fpu_floating_point_error_handler :: "interrupt_state \<Rightarrow> 'a comp" where
  "x87_fpu_floating_point_error_handler state = fail (Panic (''x87_fpu_floating_point_error (eflags=%#x, cs=%d, eip=%d)'' @ [CHR 0x0A]))"

definition alignment_check_exception_handler :: "interrupt_state \<Rightarrow> u32 \<Rightarrow> 'a comp" where
  "alignment_check_exception_handler state err_code = fail (Panic (''alignment_check_exception (eflags=%#x, cs=%d, eip=%d, error=%d)'' @ [CHR 0x0A]))"

definition machine_check_exception_handler :: "interrupt_state \<Rightarrow> 'a comp" where
  "machine_check_exception_handler state = fail (Panic (''machine_check_exception (eflags=%#x, cs=%d, eip=%d)'' @ [CHR 0x0A]))"

definition simd_floating_point_exception_handler :: "interrupt_state \<Rightarrow> 'a comp" where
  "simd_floating_point_exception_handler state = fail (Panic (''simd_floating_point_exception (eflags=%#x, cs=%d, eip=%d)'' @ [CHR 0x0A]))"

definition virtualization_exception_handler :: "interrupt_state \<Rightarrow> 'a comp" where
  "virtualization_exception_handler state = fail (Panic (''virtualization_exception (eflags=%#x, cs=%d, eip=%d)'' @ [CHR 0x0A]))"

definition control_protection_exception_handler :: "interrupt_state \<Rightarrow> u32 \<Rightarrow> 'a comp" where
  "control_protection_exception_handler state err_code = fail (Panic (''control_protection_exception (eflags=%#x, cs=%d, eip=%d, error=%d)'' @ [CHR 0x0A]))"

end
