(* ===== verification/Idt.thy ===== *)
theory Idt
  imports Gdt Ps2 Handlers
begin

text \<open>
  The interrupt descriptor table, \<^verbatim>\<open>src/kernel/arch/i386/interrupts/idt.c\<close>. The addresses of the
  handler functions are a parameter \<open>addr\<close>; \<open>gate_addr\<close> is the address the processor jumps to.
\<close>

section \<open>Constants and data\<close>

definition INT_DIVIDE_ERROR_EXCEPTION :: u8 where [c_const]: "INT_DIVIDE_ERROR_EXCEPTION = 0"
definition INT_DEBUG_EXCEPTION :: u8 where [c_const]: "INT_DEBUG_EXCEPTION = 1"
definition INT_NMI_INTERRUPT :: u8 where [c_const]: "INT_NMI_INTERRUPT = 2"
definition INT_BREAKPOINT_EXCEPTION :: u8 where [c_const]: "INT_BREAKPOINT_EXCEPTION = 3"
definition INT_OVERFLOW_EXCEPTION :: u8 where [c_const]: "INT_OVERFLOW_EXCEPTION = 4"
definition INT_BOUND_RANGE_EXCEEDED_EXCEPTION :: u8 where [c_const]: "INT_BOUND_RANGE_EXCEEDED_EXCEPTION = 5"
definition INT_INVALID_OPCODE_EXCEPTION :: u8 where [c_const]: "INT_INVALID_OPCODE_EXCEPTION = 6"
definition INT_DEVICE_NOT_AVAILABLE_EXCEPTION :: u8 where [c_const]: "INT_DEVICE_NOT_AVAILABLE_EXCEPTION = 7"
definition INT_DOUBLE_FAULT_EXCEPTION :: u8 where [c_const]: "INT_DOUBLE_FAULT_EXCEPTION = 8"
definition INT_COPROCESSOR_SEGMENT_OVERRUN :: u8 where [c_const]: "INT_COPROCESSOR_SEGMENT_OVERRUN = 9"
definition INT_INVALID_TSS_EXCEPTION :: u8 where [c_const]: "INT_INVALID_TSS_EXCEPTION = 10"
definition INT_SEGMENT_NOT_PRESENT :: u8 where [c_const]: "INT_SEGMENT_NOT_PRESENT = 11"
definition INT_STACK_FAULT_EXCEPTION :: u8 where [c_const]: "INT_STACK_FAULT_EXCEPTION = 12"
definition INT_GENERAL_PROTECTION_EXCEPTION :: u8 where [c_const]: "INT_GENERAL_PROTECTION_EXCEPTION = 13"
definition INT_PAGE_FAULT_EXCEPTION :: u8 where [c_const]: "INT_PAGE_FAULT_EXCEPTION = 14"
definition INT_X87_FPU_FLOATING_POINT_ERROR :: u8 where [c_const]: "INT_X87_FPU_FLOATING_POINT_ERROR = 16"
definition INT_ALIGNMENT_CHECK_EXCEPTION :: u8 where [c_const]: "INT_ALIGNMENT_CHECK_EXCEPTION = 17"
definition INT_MACHINE_CHECK_EXCEPTION :: u8 where [c_const]: "INT_MACHINE_CHECK_EXCEPTION = 18"
definition INT_SIMD_FLOATING_POINT_EXCEPTION :: u8 where [c_const]: "INT_SIMD_FLOATING_POINT_EXCEPTION = 19"
definition INT_VIRTUALIZATION_EXCEPTION :: u8 where [c_const]: "INT_VIRTUALIZATION_EXCEPTION = 20"
definition INT_CONTROL_PROTECTION_EXCEPTION :: u8 where [c_const]: "INT_CONTROL_PROTECTION_EXCEPTION = 21"

definition IDT_INT_GATE_FLAGS :: u8 where [c_const]: "IDT_INT_GATE_FLAGS = 0b00000110"
definition IDT_TRAP_GATE_FLAGS :: u8 where [c_const]: "IDT_TRAP_GATE_FLAGS = 0b00000111"
definition IDT_32_BIT_GATE_SIZE :: u8 where [c_const]: "IDT_32_BIT_GATE_SIZE = 0b00001000"
definition IDT_USER_DPL :: u8 where [c_const]: "IDT_USER_DPL = 0b01100000"
definition IDT_KERNEL_DPL :: u8 where [c_const]: "IDT_KERNEL_DPL = 0b00000000"
definition IDT_SEG_PRESENT :: u8 where [c_const]: "IDT_SEG_PRESENT = 0b10000000"
definition IDT_RESERVED_INT_COUNT :: u8 where [c_const]: "IDT_RESERVED_INT_COUNT = 32"
definition IDT_SYSCALL_INT :: u8 where [c_const]: "IDT_SYSCALL_INT = 80"
definition IDT_GATE_DESCRIPTOR_COUNT :: u16 where [c_const]: "IDT_GATE_DESCRIPTOR_COUNT = 256"

text \<open>The functions whose addresses go into the table.\<close>

datatype isr =
    ISR_divide_error_exception_handler
  | ISR_debug_exception_handler
  | ISR_nmi_interrupt_handler
  | ISR_breakpoint_exception_handler
  | ISR_overflow_exception_handler
  | ISR_bound_range_exceeded_exception_handler
  | ISR_invalid_opcode_exception_handler
  | ISR_device_not_available_exception_handler
  | ISR_double_fault_exception_handler
  | ISR_coprocessor_segment_overrun_handler
  | ISR_invalid_tss_exception_handler
  | ISR_segment_not_present_handler
  | ISR_stack_fault_exception_handler
  | ISR_general_protection_exception_handler
  | ISR_page_fault_exception_handler
  | ISR_x87_fpu_floating_point_error_handler
  | ISR_alignment_check_exception_handler
  | ISR_machine_check_exception_handler
  | ISR_simd_floating_point_exception_handler
  | ISR_virtualization_exception_handler
  | ISR_control_protection_exception_handler
  | ISR_timer_irq_handler
  | ISR_keyboard_irq_handler
  | ISR_default_exception_handler
  | ISR_syscall_interrupt_handler

record idt_gate_descriptor =
  addr_low :: u16
  segment_selector :: u16
  gate_reserved :: u8
  gate_flags :: u8
  addr_high :: u16

record idt_register =
  idt_limit :: u16
  idt_base :: u32

text \<open>The static table and register, and the processor state set by \<^verbatim>\<open>lidt\<close> and \<^verbatim>\<open>sti\<close>.\<close>

record idt_state =
  idt_descriptors :: "u8 \<Rightarrow> idt_gate_descriptor"
  idtr :: idt_register
  cpu_idtr :: idt_register
  cpu_if :: bool

section \<open>Operations\<close>

definition set_idt_gate :: "u8 \<Rightarrow> u32 \<Rightarrow> u8 \<Rightarrow> idt_state \<Rightarrow> idt_state" where
  "set_idt_gate vector isr_addr flags s =
     s\<lparr>idt_descriptors := (idt_descriptors s)(vector :=
        \<lparr>addr_low = ucast (isr_addr AND 0xffff), segment_selector = GDT_KERNEL_CODE_SEGMENT, gate_reserved = 0,
         gate_flags = flags, addr_high = ucast (drop_bit 16 isr_addr AND 0xffff)\<rparr>)\<rparr>"

definition init_hardware_interrupts :: "(isr \<Rightarrow> u32) \<Rightarrow> device \<Rightarrow> idt_state \<Rightarrow> io_state \<Rightarrow> idt_state \<times> io_state" where
  "init_hardware_interrupts addr dev s io =
     (let flags = IDT_TRAP_GATE_FLAGS OR IDT_SEG_PRESENT OR IDT_KERNEL_DPL OR IDT_32_BIT_GATE_SIZE;
          s1 = set_idt_gate IDT_RESERVED_INT_COUNT (addr ISR_timer_irq_handler) flags s;
          s2 = set_idt_gate (IDT_RESERVED_INT_COUNT + 1) (addr ISR_keyboard_irq_handler) flags s1;
          io1 = pic_init dev io;
          io2 = pic_clear_mask dev PIC_IRQ0 io1
      in (s2, pic_clear_mask dev PIC_IRQ1 io2))"

text \<open>The calls of \<^verbatim>\<open>set_idt_gate\<close> for the exceptions, in the order of the source.\<close>

definition exception_gates :: "(u8 \<times> isr) list" where
  "exception_gates =
     [(INT_DIVIDE_ERROR_EXCEPTION, ISR_divide_error_exception_handler),
      (INT_DEBUG_EXCEPTION, ISR_debug_exception_handler),
      (INT_NMI_INTERRUPT, ISR_nmi_interrupt_handler),
      (INT_BREAKPOINT_EXCEPTION, ISR_breakpoint_exception_handler),
      (INT_OVERFLOW_EXCEPTION, ISR_overflow_exception_handler),
      (INT_BOUND_RANGE_EXCEEDED_EXCEPTION, ISR_bound_range_exceeded_exception_handler),
      (INT_INVALID_OPCODE_EXCEPTION, ISR_invalid_opcode_exception_handler),
      (INT_DEVICE_NOT_AVAILABLE_EXCEPTION, ISR_device_not_available_exception_handler),
      (INT_DOUBLE_FAULT_EXCEPTION, ISR_double_fault_exception_handler),
      (INT_COPROCESSOR_SEGMENT_OVERRUN, ISR_coprocessor_segment_overrun_handler),
      (INT_INVALID_TSS_EXCEPTION, ISR_invalid_tss_exception_handler),
      (INT_SEGMENT_NOT_PRESENT, ISR_segment_not_present_handler),
      (INT_STACK_FAULT_EXCEPTION, ISR_stack_fault_exception_handler),
      (INT_GENERAL_PROTECTION_EXCEPTION, ISR_general_protection_exception_handler),
      (INT_PAGE_FAULT_EXCEPTION, ISR_page_fault_exception_handler),
      (INT_X87_FPU_FLOATING_POINT_ERROR, ISR_x87_fpu_floating_point_error_handler),
      (INT_ALIGNMENT_CHECK_EXCEPTION, ISR_alignment_check_exception_handler),
      (INT_MACHINE_CHECK_EXCEPTION, ISR_machine_check_exception_handler),
      (INT_SIMD_FLOATING_POINT_EXCEPTION, ISR_simd_floating_point_exception_handler),
      (INT_VIRTUALIZATION_EXCEPTION, ISR_virtualization_exception_handler),
      (INT_CONTROL_PROTECTION_EXCEPTION, ISR_control_protection_exception_handler)]"

text \<open>\<open>table\<close> is the address of the static table.\<close>

definition idt_init :: "(isr \<Rightarrow> u32) \<Rightarrow> u32 \<Rightarrow> device \<Rightarrow> idt_state \<Rightarrow> io_state \<Rightarrow> idt_state \<times> io_state" where
  "idt_init addr table dev s io =
     (let s0 = s\<lparr>idtr := \<lparr>idt_limit = 8 * IDT_GATE_DESCRIPTOR_COUNT - 1, idt_base = table\<rparr>\<rparr>;
          flags = IDT_TRAP_GATE_FLAGS OR IDT_SEG_PRESENT OR IDT_KERNEL_DPL OR IDT_32_BIT_GATE_SIZE;
          s1 = fold (\<lambda>(v, h). set_idt_gate v (addr h) flags) exception_gates s0;
          (s2, io1) = init_hardware_interrupts addr dev s1 io;
          flags = IDT_INT_GATE_FLAGS OR IDT_SEG_PRESENT OR IDT_USER_DPL OR IDT_32_BIT_GATE_SIZE;
          s3 = for_range (ucast IDT_RESERVED_INT_COUNT + 2) (ucast IDT_SYSCALL_INT :: u16)
                 (\<lambda>i. set_idt_gate (ucast i) (addr ISR_default_exception_handler) flags) s2;
          s4 = set_idt_gate IDT_SYSCALL_INT (addr ISR_syscall_interrupt_handler) flags s3;
          s5 = for_range (ucast IDT_SYSCALL_INT + 1) IDT_GATE_DESCRIPTOR_COUNT
                 (\<lambda>i. set_idt_gate (ucast i) (addr ISR_default_exception_handler) flags) s4
      in (s5\<lparr>cpu_idtr := idtr s5, cpu_if := True\<rparr>, io1))"

section \<open>Reading the table\<close>

definition gate_addr :: "idt_gate_descriptor \<Rightarrow> u32" where
  "gate_addr g = ucast (addr_low g) OR push_bit 16 (ucast (addr_high g))"

definition gate_dpl :: "idt_gate_descriptor \<Rightarrow> u8" where
  "gate_dpl g = drop_bit 5 (gate_flags g) AND 3"

abbreviation gate_of :: "u32 \<Rightarrow> u8 \<Rightarrow> idt_gate_descriptor" where
  "gate_of a f \<equiv> \<lparr>addr_low = ucast (a AND 0xffff), segment_selector = 8, gate_reserved = 0,
     gate_flags = f, addr_high = ucast (drop_bit 16 a AND 0xffff)\<rparr>"

lemma gate_addr_of [simp]: "gate_addr (gate_of a f) = a"
proof -
  have m: "(0xffff :: u32) = mask 16" by (simp add: mask_eq_exp_minus_1)
  show ?thesis unfolding m gate_addr_def by (rule bit_word_eqI) (auto simp: bit_simps)
qed

text \<open>The handler and the flags the table is meant to hold for a vector.\<close>

definition vector_handler :: "u8 \<Rightarrow> isr option" where
  "vector_handler v =
     (if v < 32 then map_of exception_gates v
      else if v = 32 then Some ISR_timer_irq_handler else if v = 33 then Some ISR_keyboard_irq_handler
      else if v = 80 then Some ISR_syscall_interrupt_handler else Some ISR_default_exception_handler)"

lemma fold_gates:
  "distinct (map fst gs) \<Longrightarrow> idt_descriptors (fold (\<lambda>(v, h). set_idt_gate v (addr h) f) gs s) v =
     (case map_of gs v of None \<Rightarrow> idt_descriptors s v | Some h \<Rightarrow> gate_of (addr h) f)"
  by (induction gs arbitrary: s)
    (auto simp: set_idt_gate_def c_const split: option.splits dest: map_of_SomeD intro: rev_image_eqI)

lemma list_gates:
  "idt_descriptors (fold (\<lambda>i. set_idt_gate (ucast i) a f) is s) v =
     (if v \<in> ucast ` set is then gate_of a f else idt_descriptors s v)"
  by (induction "is" arbitrary: s) (auto simp: set_idt_gate_def c_const)

lemma range_gates:
  assumes "unat (hi :: u16) \<le> 256"
  shows "idt_descriptors (for_range lo hi (\<lambda>i. set_idt_gate (ucast i) a f) s) v =
    (if unat lo \<le> unat v \<and> unat v < unat hi then gate_of a f else idt_descriptors s v)"
proof -
  have "v \<in> ucast ` set (map (of_nat :: nat \<Rightarrow> u16) [unat lo..<unat hi]) \<longleftrightarrow> unat lo \<le> unat v \<and> unat v < unat hi" (is "?l \<longleftrightarrow> ?r")
  proof
    assume ?l
    then obtain k where "unat lo \<le> k" "k < unat hi" "v = ucast (of_nat k :: u16)" by auto
    moreover from this(2,3) assms have "unat v = k"
      by (simp add: unsigned_ucast_eq unsigned_of_nat take_bit_nat_eq_self)
    ultimately show ?r by simp
  next
    assume ?r
    then have "v = ucast (of_nat (unat v) :: u16)" using assms by (simp add: word_unat_eq_iff take_bit_word_eq_self unsigned_ucast_eq unsigned_of_nat take_bit_nat_eq_self)
    with \<open>?r\<close> show ?l by force
  qed
  then show ?thesis by (simp add: for_range_fold list_gates)
qed

lemma exception_gates_distinct: "distinct (map fst exception_gates)"
  by (simp add: exception_gates_def c_const)

lemma idt_init_gate:
  "idt_descriptors (fst (idt_init addr table dev s io)) v =
     (case vector_handler v of None \<Rightarrow> idt_descriptors s v
      | Some h \<Rightarrow> gate_of (addr h) (if v < 34 then 0x8F else 0xEE))"
proof -
  have "map_of exception_gates v = None" if "\<not> v < 32"
    using that by (auto simp: map_of_eq_None_iff exception_gates_def c_const)
  then show ?thesis
    using unsigned_less [of v, where 'a = nat]
    by (auto simp: idt_init_def init_hardware_interrupts_def Let_def case_prod_unfold range_gates fold_gates [unfolded case_prod_unfold]
      exception_gates_distinct vector_handler_def set_idt_gate_def word_less_nat_alt word_unat_eq_iff c_const
      split: option.splits)
qed

section \<open>Properties\<close>

text \<open>A gate written by \<open>set_idt_gate\<close> makes the processor jump to the given address in the kernel
  code segment, and no other gate changes.\<close>

theorem idt_gate_roundtrip:
  "let s' = set_idt_gate vector isr_addr flags s; g = idt_descriptors s' vector
   in gate_addr g = isr_addr \<and> segment_selector g = GDT_KERNEL_CODE_SEGMENT \<and> gate_flags g = flags \<and>
      idt_descriptors s' = (idt_descriptors s)(vector := g)"
  using gate_addr_of [of isr_addr flags] by (simp add: set_idt_gate_def Let_def c_const)


end
