(* ===== verification/Tty.thy ===== *)
theory Tty
  imports Multiboot
begin

text \<open>
  The text console: \<^verbatim>\<open>src/kernel/vga.c\<close> and \<^verbatim>\<open>src/kernel/arch/i386/tty.c\<close>. The framebuffer is an array of
  16-bit cells. \<open>screen\<close> reads it as rows of cells, and the lemmas say what a character does to it.
\<close>

section \<open>Characters and colours\<close>

datatype vga_color =
    VGA_COLOR_BLACK | VGA_COLOR_BLUE | VGA_COLOR_GREEN | VGA_COLOR_CYAN | VGA_COLOR_RED | VGA_COLOR_MAGENTA
  | VGA_COLOR_BROWN | VGA_COLOR_LIGHT_GREY | VGA_COLOR_DARK_GREY | VGA_COLOR_LIGHT_BLUE | VGA_COLOR_LIGHT_GREEN
  | VGA_COLOR_LIGHT_CYAN | VGA_COLOR_LIGHT_RED | VGA_COLOR_LIGHT_MAGENTA | VGA_COLOR_LIGHT_BROWN | VGA_COLOR_WHITE

primrec vga_code :: "vga_color \<Rightarrow> u32" where
  "vga_code VGA_COLOR_BLACK = 0"
| "vga_code VGA_COLOR_BLUE = 1"
| "vga_code VGA_COLOR_GREEN = 2"
| "vga_code VGA_COLOR_CYAN = 3"
| "vga_code VGA_COLOR_RED = 4"
| "vga_code VGA_COLOR_MAGENTA = 5"
| "vga_code VGA_COLOR_BROWN = 6"
| "vga_code VGA_COLOR_LIGHT_GREY = 7"
| "vga_code VGA_COLOR_DARK_GREY = 8"
| "vga_code VGA_COLOR_LIGHT_BLUE = 9"
| "vga_code VGA_COLOR_LIGHT_GREEN = 10"
| "vga_code VGA_COLOR_LIGHT_CYAN = 11"
| "vga_code VGA_COLOR_LIGHT_RED = 12"
| "vga_code VGA_COLOR_LIGHT_MAGENTA = 13"
| "vga_code VGA_COLOR_LIGHT_BROWN = 14"
| "vga_code VGA_COLOR_WHITE = 15"

definition vga_entry_color :: "vga_color \<Rightarrow> vga_color \<Rightarrow> u8" where
  "vga_entry_color fg bg = ucast (vga_code fg OR push_bit 4 (vga_code bg))"

definition vga_entry :: "u8 \<Rightarrow> u8 \<Rightarrow> u16" where
  "vga_entry c color = ucast c OR push_bit 8 (ucast color)"

section \<open>The console\<close>

text \<open>\<open>vga_cells\<close> is the array that \<^verbatim>\<open>vga_memory\<close> points to.\<close>

record tty_state =
  tty_row :: u32
  tty_column :: u32
  default_tty_color :: u8
  vga_memory :: u32
  framebuf_height :: u32
  framebuf_width :: u32
  vga_cells :: "u32 \<Rightarrow> u16"

definition set_cell :: "u32 \<Rightarrow> u16 \<Rightarrow> tty_state \<Rightarrow> tty_state" where
  "set_cell i v s = s\<lparr>vga_cells := (vga_cells s)(i := v)\<rparr>"

definition scroll_up :: "tty_state \<Rightarrow> tty_state" where
  "scroll_up s =
     for_range 0 (framebuf_height s - 1) (\<lambda>y. for_range 0 (framebuf_width s) (\<lambda>x t.
       let index_old = y * framebuf_width s + x;
           index_new = (y + 1) * framebuf_width s + x
       in set_cell index_old (vga_cells t index_new) t)) s"

definition clear_last_line :: "tty_state \<Rightarrow> tty_state" where
  "clear_last_line s =
     for_range 0 (framebuf_width s) (\<lambda>x t.
       set_cell ((framebuf_height s - 1) * framebuf_width s + x) (vga_entry 32 (default_tty_color s)) t) s"

definition tty_adjust_row :: "tty_state \<Rightarrow> tty_state" where
  "tty_adjust_row s =
     (let s1 = s\<lparr>tty_row := tty_row s + 1\<rparr>
      in if tty_row s1 = framebuf_height s1
         then (clear_last_line (scroll_up s1))\<lparr>tty_row := framebuf_height s1 - 1\<rparr>
         else s1)"

definition tty_adjust_indices :: "tty_state \<Rightarrow> tty_state" where
  "tty_adjust_indices s =
     (let s1 = s\<lparr>tty_column := tty_column s + 1\<rparr>
      in if tty_column s1 = framebuf_width s1 then tty_adjust_row (s1\<lparr>tty_column := 0\<rparr>) else s1)"

definition tty_putchar :: "u8 \<Rightarrow> u8 \<Rightarrow> tty_state \<Rightarrow> tty_state" where
  "tty_putchar c tty_color s =
     tty_adjust_indices (set_cell (tty_row s * framebuf_width s + tty_column s) (vga_entry c tty_color) s)"

definition tty_puts :: "mem \<Rightarrow> u32 \<Rightarrow> u32 \<Rightarrow> u8 \<Rightarrow> tty_state \<Rightarrow> tty_state" where
  "tty_puts m str len tty_color s =
     for_range 0 len (\<lambda>i t.
       if m (str + i) = 10 then (tty_adjust_row t)\<lparr>tty_column := 0\<rparr>
       else tty_putchar (m (str + i)) tty_color t) s"

text \<open>\<^verbatim>\<open>tty_init\<close> reads the framebuffer tag; \<open>info\<close> is \<^verbatim>\<open>MULTIBOOT_INFO.addr\<close>.\<close>

definition tty_init :: "mem \<Rightarrow> u32 \<Rightarrow> u32 \<Rightarrow> tty_state \<Rightarrow> tty_state comp" where
  "tty_init m info higher_half_base s =
     (case multiboot_framebuffer_info m info of
        None \<Rightarrow> None
      | Some framebuffer_info \<Rightarrow>
          assertK (framebuffer_info \<noteq> NULL) Null_deref
         (let fb = get_framebuffer m framebuffer_info;
              s1 = s\<lparr>framebuf_height := framebuffer_height fb, framebuf_width := framebuffer_width fb,
                     vga_memory := ucast (framebuffer_addr fb) + higher_half_base, tty_row := 0, tty_column := 0,
                     default_tty_color := vga_entry_color VGA_COLOR_LIGHT_GREY VGA_COLOR_LIGHT_BLUE\<rparr>
          in ret (for_range 0 (framebuf_height s1) (\<lambda>y. for_range 0 (framebuf_width s1) (\<lambda>x t.
               set_cell (y * framebuf_width s1 + x) (vga_entry 32 (default_tty_color s1)) t)) s1)))"

section \<open>The screen\<close>

text \<open>A usable console: the cursor is on the screen and the cells have 32-bit indices.\<close>

definition tty_wf :: "tty_state \<Rightarrow> bool" where
  "tty_wf s \<longleftrightarrow> tty_row s < framebuf_height s \<and> tty_column s < framebuf_width s \<and>
     unat (framebuf_height s) * unat (framebuf_width s) < 2 ^ 32"

definition cell_at :: "tty_state \<Rightarrow> nat \<Rightarrow> u16" where
  "cell_at s k = vga_cells s (of_nat k)"

definition screen :: "tty_state \<Rightarrow> u16 list list" where
  "screen s = map (\<lambda>y. map (\<lambda>x. cell_at s (y * unat (framebuf_width s) + x)) [0..<unat (framebuf_width s)])
     [0..<unat (framebuf_height s)]"

lemma length_screen [simp]: "length (screen s) = unat (framebuf_height s)"
  by (simp add: screen_def)

lemma screen_row_length:
  "r \<in> set (screen s) \<Longrightarrow> length r = unat (framebuf_width s)"
  "r \<in> set (tl (screen s)) \<Longrightarrow> length r = unat (framebuf_width s)"
proof -
  show all: "length r = unat (framebuf_width s)" if "r \<in> set (screen s)" for r using that by (auto simp: screen_def)
  show "length r = unat (framebuf_width s)" if "r \<in> set (tl (screen s))"
    using that by (intro all) (cases "screen s", auto)
qed

lemma screen_nth:
  "y < unat (framebuf_height s) \<Longrightarrow> x < unat (framebuf_width s) \<Longrightarrow> screen s ! y ! x = cell_at s (y * unat (framebuf_width s) + x)"
  by (simp add: screen_def)

lemma screen_eqI:
  assumes "length rs = unat (framebuf_height s)" and "\<And>r. r \<in> set rs \<Longrightarrow> length r = unat (framebuf_width s)"
    and "\<And>y x. y < unat (framebuf_height s) \<Longrightarrow> x < unat (framebuf_width s) \<Longrightarrow> cell_at s (y * unat (framebuf_width s) + x) = rs ! y ! x"
  shows "screen s = rs"
  using assms by (auto simp: screen_def list_eq_iff_nth_eq)

text \<open>Only cells and cursor change; the geometry stays.\<close>

definition same_geometry :: "tty_state \<Rightarrow> tty_state \<Rightarrow> bool" where
  "same_geometry s t \<longleftrightarrow> framebuf_height t = framebuf_height s \<and> framebuf_width t = framebuf_width s \<and>
     default_tty_color t = default_tty_color s \<and> vga_memory t = vga_memory s"

lemma set_cell_simps [simp]:
  "tty_row (set_cell i v s) = tty_row s" "tty_column (set_cell i v s) = tty_column s"
  "framebuf_height (set_cell i v s) = framebuf_height s" "framebuf_width (set_cell i v s) = framebuf_width s"
  "default_tty_color (set_cell i v s) = default_tty_color s" "vga_memory (set_cell i v s) = vga_memory s"
  by (simp_all add: set_cell_def)

lemma cell_index:
  assumes "y < unat h" and "x < unat w" and "unat (h :: u32) * unat (w :: u32) < 2 ^ 32"
  shows "y * unat w + x < unat h * unat w" and "of_nat y * w + of_nat x = (of_nat (y * unat w + x) :: u32)"
proof -
  have "y * unat w + x < Suc y * unat w" using assms(2) by simp
  also have "\<dots> \<le> unat h * unat w" using assms(1) by (intro mult_le_mono1) simp
  finally show "y * unat w + x < unat h * unat w" .
  show "of_nat y * w + of_nat x = (of_nat (y * unat w + x) :: u32)" by simp
qed

lemma cell_at_set:
  assumes "k < 2 ^ 32" and "j < 2 ^ 32"
  shows "cell_at (set_cell (of_nat k) v s) j = (if j = k then v else cell_at s j)"
  using assms by (auto simp: cell_at_def set_cell_def word_unat_eq_iff unat_of_nat)

section \<open>Scrolling\<close>

lemma scroll_up_geometry [simp]:
  "tty_row (scroll_up s) = tty_row s" "tty_column (scroll_up s) = tty_column s"
  "framebuf_height (scroll_up s) = framebuf_height s" "framebuf_width (scroll_up s) = framebuf_width s"
  "default_tty_color (scroll_up s) = default_tty_color s" "vga_memory (scroll_up s) = vga_memory s"
  unfolding scroll_up_def by (intro for_range_keeps; simp add: Let_def)+

lemma clear_last_line_geometry [simp]:
  "tty_row (clear_last_line s) = tty_row s" "tty_column (clear_last_line s) = tty_column s"
  "framebuf_height (clear_last_line s) = framebuf_height s" "framebuf_width (clear_last_line s) = framebuf_width s"
  "default_tty_color (clear_last_line s) = default_tty_color s" "vga_memory (clear_last_line s) = vga_memory s"
  unfolding clear_last_line_def by (intro for_range_keeps; simp)+

text \<open>The cells below \<open>k\<close> have been moved up by one row.\<close>

definition moved :: "tty_state \<Rightarrow> nat \<Rightarrow> tty_state \<Rightarrow> bool" where
  "moved s k t \<longleftrightarrow> (\<forall>j < 2 ^ 32.
     cell_at t j = (if j < k then cell_at s (j + unat (framebuf_width s)) else cell_at s j))"

lemma moved_step:
  assumes "moved s k t" and "unat (framebuf_height s) * unat (framebuf_width s) < 2 ^ 32"
    and "k + unat (framebuf_width s) < unat (framebuf_height s) * unat (framebuf_width s)"
  shows "moved s (Suc k) (set_cell (of_nat k) (cell_at t (k + unat (framebuf_width s))) t)"
  unfolding moved_def
proof (intro allI impI)
  fix j :: nat assume j: "j < 2 ^ 32"
  have "cell_at t (k + unat (framebuf_width s)) = cell_at s (k + unat (framebuf_width s))"
    using assms by (simp add: moved_def)
  then show "cell_at (set_cell (of_nat k) (cell_at t (k + unat (framebuf_width s))) t) j =
      (if j < Suc k then cell_at s (j + unat (framebuf_width s)) else cell_at s j)"
    using assms j by (subst cell_at_set) (auto simp: moved_def less_Suc_eq)
qed

lemma scroll_row:
  assumes "moved s (y * unat (framebuf_width s)) t" and "Suc y < unat (framebuf_height s)"
    and lim: "unat (framebuf_height s) * unat (framebuf_width s) < 2 ^ 32"
  shows "moved s (Suc y * unat (framebuf_width s)) (for_range 0 (framebuf_width s) (\<lambda>x t.
       let index_old = of_nat y * framebuf_width s + x; index_new = (of_nat y + 1) * framebuf_width s + x
       in set_cell index_old (vga_cells t index_new) t) t)"
proof -
  let ?w = "unat (framebuf_width s)" and ?h = "unat (framebuf_height s)"
  have "moved s (y * ?w + ?w) (for_range 0 (framebuf_width s) (\<lambda>x t.
       let index_old = of_nat y * framebuf_width s + x; index_new = (of_nat y + 1) * framebuf_width s + x
       in set_cell index_old (vga_cells t index_new) t) t)"
  proof (rule for_range_invariant [where P = "\<lambda>n t. moved s (y * ?w + n) t"])
    show "moved s (y * ?w + unat (0 :: u32)) t" using assms(1) by simp
  next
    fix n t' assume n: "n < ?w" and m: "moved s (y * ?w + n) t'"
    have "Suc y * ?w + n < ?h * ?w" by (rule cell_index(1) [OF assms(2) n lim])
    then have "moved s (Suc (y * ?w + n)) (set_cell (of_nat (y * ?w + n)) (cell_at t' (y * ?w + n + ?w)) t')"
      by (intro moved_step [OF m lim]) simp
    moreover have "of_nat y * framebuf_width s + of_nat n = of_nat (y * ?w + n)"
      "(of_nat y + 1) * framebuf_width s + of_nat n = of_nat (y * ?w + n + ?w)"
      by (simp_all add: algebra_simps)
    ultimately show "moved s (y * ?w + Suc n) (let index_old = of_nat y * framebuf_width s + of_nat n;
        index_new = (of_nat y + 1) * framebuf_width s + of_nat n in set_cell index_old (vga_cells t' index_new) t')"
      by (simp only: cell_at_def Let_def add_Suc_right)
  qed simp
  then show ?thesis by (simp add: algebra_simps)
qed

lemma scroll_up_cells:
  assumes "0 < unat (framebuf_height s)" and lim: "unat (framebuf_height s) * unat (framebuf_width s) < 2 ^ 32"
  shows "moved s ((unat (framebuf_height s) - 1) * unat (framebuf_width s)) (scroll_up s)"
proof -
  have h1: "unat (framebuf_height s - 1) = unat (framebuf_height s) - 1"
    using assms(1) by (simp add: unat_sub word_le_nat_alt)
  have "moved s (unat (framebuf_height s - 1) * unat (framebuf_width s)) (scroll_up s)"
    unfolding scroll_up_def
  proof (rule for_range_invariant [where P = "\<lambda>n t. moved s (n * unat (framebuf_width s)) t"])
    fix n t assume "n < unat (framebuf_height s - 1)" and "moved s (n * unat (framebuf_width s)) t"
    then show "moved s (Suc n * unat (framebuf_width s)) (for_range 0 (framebuf_width s) (\<lambda>x t.
        let index_old = of_nat n * framebuf_width s + x; index_new = (of_nat n + 1) * framebuf_width s + x
        in set_cell index_old (vga_cells t index_new) t) t)"
      using h1 by (intro scroll_row [OF _ _ lim]) simp_all
  qed (simp_all add: moved_def)
  then show ?thesis by (simp add: h1)
qed

abbreviation blank :: "tty_state \<Rightarrow> u16" where
  "blank s \<equiv> vga_entry 32 (default_tty_color s)"

lemma clear_last_line_cells:
  assumes "0 < unat (framebuf_height s)" and lim: "unat (framebuf_height s) * unat (framebuf_width s) < 2 ^ 32"
    and "j < 2 ^ 32"
  shows "cell_at (clear_last_line s) j =
    (if (unat (framebuf_height s) - 1) * unat (framebuf_width s) \<le> j \<and> j < unat (framebuf_height s) * unat (framebuf_width s)
     then blank s else cell_at s j)"
proof -
  let ?w = "unat (framebuf_width s)" and ?h = "unat (framebuf_height s)"
  have h1: "framebuf_height s - 1 = of_nat (?h - 1)" using assms(1) by (simp add: of_nat_diff)
  have hw: "(?h - 1) * ?w + ?w = ?h * ?w" using assms(1) by (cases ?h) simp_all
  have "\<forall>j < 2 ^ 32. cell_at (clear_last_line s) j =
      (if (?h - 1) * ?w \<le> j \<and> j < (?h - 1) * ?w + ?w then blank s else cell_at s j)"
    unfolding clear_last_line_def
  proof (rule for_range_invariant [where P = "\<lambda>n t. \<forall>j < 2 ^ 32. cell_at t j =
      (if (?h - 1) * ?w \<le> j \<and> j < (?h - 1) * ?w + n then blank s else cell_at s j)"])
    fix n t assume n: "n < ?w" and t: "\<forall>j < 2 ^ 32. cell_at t j =
      (if (?h - 1) * ?w \<le> j \<and> j < (?h - 1) * ?w + n then blank s else cell_at s j)"
    define k where "k = (?h - 1) * ?w + n"
    have idx: "(framebuf_height s - 1) * framebuf_width s + of_nat n = of_nat k" by (simp add: h1 k_def)
    have "k < 2 ^ 32" using n hw lim by (simp add: k_def)
    then have "cell_at (set_cell ((framebuf_height s - 1) * framebuf_width s + of_nat n) (blank s) t) j =
        (if j = k then blank s else cell_at t j)" if "j < 2 ^ 32" for j
      unfolding idx using that by (intro cell_at_set) simp_all
    with t show "\<forall>j < 2 ^ 32. cell_at (set_cell ((framebuf_height s - 1) * framebuf_width s + of_nat n) (blank s) t) j =
      (if (?h - 1) * ?w \<le> j \<and> j < (?h - 1) * ?w + Suc n then blank s else cell_at s j)"
      by (auto simp: k_def)
  qed auto
  with assms(3) hw show ?thesis by simp
qed

section \<open>Refinement\<close>

text \<open>
  The abstract console: rows of cells and the position of the cursor. A line feed past the last row
  drops the first row and adds an empty one.
\<close>

type_synonym console = "u16 list list \<times> nat \<times> nat"

definition next_row :: "u16 list \<Rightarrow> u16 list list \<times> nat \<Rightarrow> u16 list list \<times> nat" where
  "next_row empty_row c = (case c of (rs, r) \<Rightarrow> if Suc r = length rs then (tl rs @ [empty_row], r) else (rs, Suc r))"

definition put_byte :: "u16 list \<Rightarrow> u8 \<Rightarrow> u8 \<Rightarrow> console \<Rightarrow> console" where
  "put_byte empty_row color b c =
     (case c of (rs, r, col) \<Rightarrow>
      if b = 10 then (case next_row empty_row (rs, r) of (rs', r') \<Rightarrow> (rs', r', 0))
      else let rs1 = rs[r := (rs ! r)[col := vga_entry b color]]
           in if Suc col = length empty_row then (case next_row empty_row (rs1, r) of (rs', r') \<Rightarrow> (rs', r', 0))
              else (rs1, r, Suc col))"

definition console_of :: "tty_state \<Rightarrow> console" where
  "console_of s = (screen s, unat (tty_row s), unat (tty_column s))"

definition empty_row :: "tty_state \<Rightarrow> u16 list" where
  "empty_row s = replicate (unat (framebuf_width s)) (blank s)"

text \<open>Cells outside the framebuffer are not written.\<close>

definition outside_same :: "tty_state \<Rightarrow> tty_state \<Rightarrow> bool" where
  "outside_same s t \<longleftrightarrow> (\<forall>j < 2 ^ 32. unat (framebuf_height s) * unat (framebuf_width s) \<le> j \<longrightarrow> cell_at t j = cell_at s j)"

lemma screen_geometry_cong:
  assumes "same_geometry s t" and "\<And>j. j < unat (framebuf_height s) * unat (framebuf_width s) \<Longrightarrow> cell_at t j = cell_at s j"
  shows "screen t = screen s"
proof (rule screen_eqI)
  fix y x assume "y < unat (framebuf_height t)" "x < unat (framebuf_width t)"
  moreover from this have "y * unat (framebuf_width t) + x < unat (framebuf_height t) * unat (framebuf_width t)"
    using mult_le_mono1 [of "Suc y" "unat (framebuf_height t)" "unat (framebuf_width t)"] by simp
  ultimately show "cell_at t (y * unat (framebuf_width t) + x) = screen s ! y ! x"
    using assms by (simp add: screen_nth same_geometry_def)
qed (use assms(1) in \<open>auto simp: same_geometry_def screen_def\<close>)

text \<open>Cells that have moved up by one row, above an empty last row.\<close>

lemma scrolled_screen:
  assumes geo: "same_geometry s t" and h0: "0 < unat (framebuf_height s)" and lim: "unat (framebuf_height s) * unat (framebuf_width s) < 2 ^ 32"
    and cells: "\<And>j. j < 2 ^ 32 \<Longrightarrow> cell_at t j =
      (if (unat (framebuf_height s) - 1) * unat (framebuf_width s) \<le> j \<and> j < unat (framebuf_height s) * unat (framebuf_width s) then blank s
       else if j < (unat (framebuf_height s) - 1) * unat (framebuf_width s) then cell_at s (j + unat (framebuf_width s)) else cell_at s j)"
  shows "screen t = tl (screen s) @ [empty_row s]"
proof (rule screen_eqI)
  let ?w = "unat (framebuf_width s)" and ?h = "unat (framebuf_height s)"
  fix y x assume "y < unat (framebuf_height t)" "x < unat (framebuf_width t)"
  then have y: "y < ?h" "x < ?w" using geo by (simp_all add: same_geometry_def)
  have idx: "y * ?w + x < ?h * ?w" by (rule cell_index(1) [OF y lim])
  show "cell_at t (y * unat (framebuf_width t) + x) = (tl (screen s) @ [empty_row s]) ! y ! x"
  proof (cases "y = ?h - 1")
    case True
    with y idx lim cells [of "y * ?w + x"] geo show ?thesis
      by (simp add: nth_append empty_row_def same_geometry_def)
  next
    case False
    then have y': "Suc y < ?h" using y by simp
    then have "Suc y * ?w \<le> (?h - 1) * ?w" by (intro mult_le_mono1) simp
    with y have "y * ?w + x < (?h - 1) * ?w" by simp
    moreover have "(tl (screen s) @ [empty_row s]) ! y = screen s ! Suc y" using y' by (auto simp: nth_append nth_tl)
    ultimately show ?thesis using y y' idx lim cells [of "y * ?w + x"] geo
      by (simp add: screen_nth same_geometry_def algebra_simps)
  qed
qed (use geo h0 in \<open>auto simp: same_geometry_def empty_row_def dest: screen_row_length\<close>)

lemma adjust_row_refines:
  assumes row: "tty_row s < framebuf_height s" and lim: "unat (framebuf_height s) * unat (framebuf_width s) < 2 ^ 32"
  shows "(screen (tty_adjust_row s), unat (tty_row (tty_adjust_row s))) = next_row (empty_row s) (screen s, unat (tty_row s)) \<and>
    tty_row (tty_adjust_row s) < framebuf_height s \<and> tty_column (tty_adjust_row s) = tty_column s \<and>
    same_geometry s (tty_adjust_row s) \<and> outside_same s (tty_adjust_row s)"
proof -
  let ?w = "unat (framebuf_width s)" and ?h = "unat (framebuf_height s)"
  have r: "unat (tty_row s) < ?h" using row by (simp add: word_less_nat_alt)
  have r1: "unat (tty_row s + 1) = Suc (unat (tty_row s))" by (rule unat_Suc_less [OF row])
  show ?thesis
  proof (cases "tty_row s + 1 = framebuf_height s")
    case False
    then have "Suc (unat (tty_row s)) \<noteq> ?h" using r1 by (metis word_unat_eq_iff)
    with r have "Suc (unat (tty_row s)) < ?h" by simp
    then have lt: "tty_row s + 1 < framebuf_height s" by (simp add: word_less_nat_alt r1)
    have "screen (s\<lparr>tty_row := tty_row s + 1\<rparr>) = screen s"
      by (rule screen_geometry_cong) (simp_all add: same_geometry_def cell_at_def)
    with False lt \<open>Suc (unat (tty_row s)) < ?h\<close> show ?thesis
      by (simp add: tty_adjust_row_def Let_def next_row_def r1 same_geometry_def outside_same_def cell_at_def)
  next
    case True
    define s1 where "s1 = s\<lparr>tty_row := tty_row s + 1\<rparr>"
    define t where "t = tty_adjust_row s"
    have t: "t = (clear_last_line (scroll_up s1))\<lparr>tty_row := framebuf_height s - 1\<rparr>"
      using True by (simp add: t_def tty_adjust_row_def s1_def Let_def)
    have g: "framebuf_height s1 = framebuf_height s" "framebuf_width s1 = framebuf_width s" "default_tty_color s1 = default_tty_color s"
      "cell_at s1 = cell_at s" by (simp_all add: s1_def cell_at_def fun_eq_iff)
    have h0: "0 < ?h" using r by simp
    have cells: "cell_at t j = (if (?h - 1) * ?w \<le> j \<and> j < ?h * ?w then blank s
        else if j < (?h - 1) * ?w then cell_at s (j + ?w) else cell_at s j)" if "j < 2 ^ 32" for j
    proof -
      have "cell_at t j = cell_at (clear_last_line (scroll_up s1)) j" by (simp add: t cell_at_def)
      moreover have "moved s1 ((?h - 1) * ?w) (scroll_up s1)" using scroll_up_cells [of s1] h0 lim by (simp add: g)
      ultimately show ?thesis
        using clear_last_line_cells [of "scroll_up s1" j] that h0 lim by (auto simp: g moved_def)
    qed
    have geo: "same_geometry s t" by (simp add: same_geometry_def t s1_def)
    have "(?h - 1) * ?w + ?w = ?h * ?w" using h0 by (cases ?h) simp_all
    then have "outside_same s t" using cells by (auto simp: outside_same_def)
    moreover have "unat (tty_row s) = ?h - 1" "tty_row t = framebuf_height s - 1" "tty_column t = tty_column s"
      using True r1 by (simp_all add: t s1_def)
    moreover have "framebuf_height s - 1 < framebuf_height s" "unat (framebuf_height s - 1) = ?h - 1"
      using h0 by (simp_all add: word_less_nat_alt unat_sub word_le_nat_alt)
    ultimately show ?thesis using geo h0 scrolled_screen [OF geo h0 lim cells] by (simp add: t_def [symmetric] next_row_def)
  qed
qed

lemma screen_set_cell:
  assumes "tty_wf s"
  shows "screen (set_cell (tty_row s * framebuf_width s + tty_column s) v s) =
      (screen s)[unat (tty_row s) := (screen s ! unat (tty_row s))[unat (tty_column s) := v]]"
    and "outside_same s (set_cell (tty_row s * framebuf_width s + tty_column s) v s)"
proof -
  let ?w = "unat (framebuf_width s)" and ?h = "unat (framebuf_height s)"
  let ?r = "unat (tty_row s)" and ?c = "unat (tty_column s)"
  have b: "?r < ?h" "?c < ?w" "?h * ?w < 2 ^ 32" using assms by (simp_all add: tty_wf_def word_less_nat_alt)
  note k = cell_index(1) [OF b]
  have idx: "tty_row s * framebuf_width s + tty_column s = of_nat (?r * ?w + ?c)" by simp
  have cells: "cell_at (set_cell (tty_row s * framebuf_width s + tty_column s) v s) j = (if j = ?r * ?w + ?c then v else cell_at s j)"
    if "j < 2 ^ 32" for j
    unfolding idx using that k b(3) by (intro cell_at_set) simp_all
  then show "outside_same s (set_cell (tty_row s * framebuf_width s + tty_column s) v s)"
    using k by (auto simp: outside_same_def)
  have same: "y = ?r \<and> x = ?c" if "y * ?w + x = ?r * ?w + ?c" "x < ?w" for y x
  proof -
    have "(y * ?w + x) div ?w = y" "(?r * ?w + ?c) div ?w = ?r" using that(2) b(2) by simp_all
    with that(1) have "y = ?r" by simp
    with that(1) show ?thesis by simp
  qed
  show "screen (set_cell (tty_row s * framebuf_width s + tty_column s) v s) =
      (screen s)[?r := (screen s ! ?r)[?c := v]]"
  proof (rule screen_eqI)
    fix y x
    let ?t = "set_cell (tty_row s * framebuf_width s + tty_column s) v s"
    assume "y < unat (framebuf_height ?t)" "x < unat (framebuf_width ?t)"
    then have y: "y < ?h" "x < ?w" by simp_all
    have "y * ?w + x < 2 ^ 32" using cell_index(1) [OF y b(3)] b(3) by simp
    from cells [OF this] same [of y x] y b show "cell_at ?t (y * unat (framebuf_width ?t) + x) = (screen s)[?r := (screen s ! ?r)[?c := v]] ! y ! x"
      by (auto simp: nth_list_update screen_nth screen_def)
  qed (use b in \<open>auto simp: screen_def dest!: set_update_subset_insert [THEN subsetD]\<close>)
qed

lemma geometry_refl [simp]: "same_geometry s s" by (simp add: same_geometry_def)

lemma geometry_trans: "same_geometry s t \<Longrightarrow> same_geometry t u \<Longrightarrow> same_geometry s u"
  by (simp add: same_geometry_def)

lemma outside_trans: "same_geometry s t \<Longrightarrow> outside_same s t \<Longrightarrow> outside_same t u \<Longrightarrow> outside_same s u"
  by (simp add: outside_same_def same_geometry_def)

lemma empty_row_geometry: "same_geometry s t \<Longrightarrow> empty_row t = empty_row s"
  by (simp add: empty_row_def same_geometry_def)

text \<open>What one byte does, in \<^verbatim>\<open>tty_puts\<close>.\<close>

definition tty_byte :: "u8 \<Rightarrow> u8 \<Rightarrow> tty_state \<Rightarrow> tty_state" where
  "tty_byte color b t = (if b = 10 then (tty_adjust_row t)\<lparr>tty_column := 0\<rparr> else tty_putchar b color t)"

definition steps_to :: "tty_state \<Rightarrow> tty_state \<Rightarrow> bool" where
  "steps_to s t \<longleftrightarrow> tty_wf t \<and> same_geometry s t \<and> outside_same s t"

lemma tty_byte_refines:
  assumes wf: "tty_wf s"
  shows "console_of (tty_byte color b s) = put_byte (empty_row s) color b (console_of s) \<and> steps_to s (tty_byte color b s)"
proof -
  from wf have row: "tty_row s < framebuf_height s" and col: "tty_column s < framebuf_width s"
    and lim: "unat (framebuf_height s) * unat (framebuf_width s) < 2 ^ 32" by (simp_all add: tty_wf_def)
  have col0: "screen (t\<lparr>tty_column := c\<rparr>) = screen t" "outside_same s (t\<lparr>tty_column := c\<rparr>) = outside_same s t" for t c
    by (simp_all add: screen_def cell_at_def outside_same_def)
  have w0: "0 < framebuf_width s" using col by (rule le_less_trans [rotated]) simp
  show ?thesis
  proof (cases "b = 10")
    case True
    with adjust_row_refines [OF row lim] w0 lim show ?thesis
      by (auto simp: tty_byte_def console_of_def put_byte_def col0 steps_to_def tty_wf_def same_geometry_def split: prod.splits)
  next
    case False
    define t where "t = set_cell (tty_row s * framebuf_width s + tty_column s) (vga_entry b color) s"
    have t: "tty_row t = tty_row s" "tty_column t = tty_column s" "same_geometry s t" "outside_same s t"
      "screen t = (screen s)[unat (tty_row s) := (screen s ! unat (tty_row s))[unat (tty_column s) := vga_entry b color]]"
      using screen_set_cell [OF wf] by (simp_all add: t_def same_geometry_def)
    have c1: "unat (tty_column s + 1) = Suc (unat (tty_column s))" by (rule unat_Suc_less [OF col])
    have byte: "tty_byte color b s = tty_adjust_indices t" using False by (simp add: tty_byte_def tty_putchar_def t_def)
    show ?thesis
    proof (cases "tty_column s + 1 = framebuf_width s")
      case True
      define u where "u = t\<lparr>tty_column := 0\<rparr>"
      have u: "same_geometry s u" "outside_same s u" "screen u = screen t" "tty_row u = tty_row s" "tty_column u = 0"
        using t by (simp_all add: u_def same_geometry_def col0)
      have "tty_row u < framebuf_height u" "unat (framebuf_height u) * unat (framebuf_width u) < 2 ^ 32"
        using row lim u by (simp_all add: same_geometry_def)
      note r = adjust_row_refines [OF this]
      have "tty_adjust_indices t = tty_adjust_row u" using True t(2,3) by (simp add: tty_adjust_indices_def u_def same_geometry_def Let_def)
      moreover have "Suc (unat (tty_column s)) = length (empty_row s)" using True c1 by (simp add: empty_row_def)
      moreover have "empty_row u = empty_row s" by (rule empty_row_geometry [OF u(1)])
      moreover have "framebuf_height u = framebuf_height s" using u(1) by (simp add: same_geometry_def)
      moreover have "outside_same s (tty_adjust_row u)" "same_geometry s (tty_adjust_row u)"
        using outside_trans [OF u(1,2)] geometry_trans [OF u(1)] r by auto
      ultimately show ?thesis using r u False w0 lim t(5)
        by (auto simp: byte console_of_def put_byte_def Let_def steps_to_def tty_wf_def same_geometry_def split: prod.splits)
    next
      case ne: False
      then have "unat (tty_column s + 1) \<noteq> unat (framebuf_width s)" by (metis word_unat_eq_iff)
      then have "tty_column s + 1 < framebuf_width s" "Suc (unat (tty_column s)) \<noteq> unat (framebuf_width s)"
        using col c1 by (simp_all add: word_less_nat_alt)
      moreover have "tty_adjust_indices t = t\<lparr>tty_column := tty_column s + 1\<rparr>"
        using ne t(2,3) by (simp add: tty_adjust_indices_def same_geometry_def Let_def)
      ultimately show ?thesis using t False row lim c1
        by (simp add: byte console_of_def put_byte_def Let_def steps_to_def tty_wf_def same_geometry_def col0 empty_row_def)
    qed
  qed
qed

lemma tty_puts_fold:
  "tty_puts m str len color s = fold (tty_byte color) (bytes_at m str (unat len)) s"
proof -
  have "bytes_at m str (unat len) = map (\<lambda>i. m (str + i)) (map of_nat [0..<unat len])" by (simp add: bytes_at_def)
  then show ?thesis by (simp add: tty_puts_def for_range_fold fold_map comp_def tty_byte_def [abs_def] del: map_map)
qed

lemma tty_bytes_refine:
  assumes "tty_wf s"
  shows "console_of (fold (tty_byte color) bs s) = fold (put_byte (empty_row s) color) bs (console_of s) \<and>
    steps_to s (fold (tty_byte color) bs s)"
  using assms
proof (induction bs arbitrary: s)
  case Nil
  then show ?case by (simp add: steps_to_def outside_same_def)
next
  case (Cons b bs)
  note b = tty_byte_refines [OF Cons.prems, of color b]
  with Cons.IH [of "tty_byte color b s"] show ?case
    by (auto simp: steps_to_def empty_row_geometry intro: geometry_trans outside_trans)
qed

section \<open>Properties\<close>

text \<open>C13. \<open>tty_puts\<close> refines the abstract console: on a usable console its bytes act on the rows of the
  screen and on the cursor as \<open>put_byte\<close> says (overwrite, wrap at the last column, scroll at the last
  row), the console stays usable, and no cell outside the framebuffer is written.\<close>

theorem tty_puts_refines:
  assumes "tty_wf s"
  shows "console_of (tty_puts m str len color s) = fold (put_byte (empty_row s) color) (bytes_at m str (unat len)) (console_of s) \<and>
    tty_wf (tty_puts m str len color s) \<and> same_geometry s (tty_puts m str len color s) \<and> outside_same s (tty_puts m str len color s)"
  using tty_bytes_refine [OF assms] by (simp add: tty_puts_fold steps_to_def)

definition example_tty :: tty_state where
  "example_tty = \<lparr>tty_row = 1, tty_column = 2, default_tty_color = 0x97, vga_memory = 0xC00B8000, framebuf_height = 2,
     framebuf_width = 3, vga_cells = (\<lambda>i. ucast i)\<rparr>"

theorem tty_puts_refines_witness:
  "tty_wf (tty_puts (\<lambda>_. 65) 0 1 0x97 example_tty) \<and>
   console_of (tty_puts (\<lambda>_. 65) 0 1 0x97 example_tty) = ([[3, 4, 0x9741], replicate 3 0x9720], 1, 0)"
proof -
  have wf: "tty_wf example_tty" by (simp add: tty_wf_def example_tty_def)
  have "console_of example_tty = ([[0, 1, 2], [3, 4, 5]], 1, 2)"
    by (simp add: console_of_def example_tty_def screen_def cell_at_def upt_rec)
  with tty_puts_refines [OF wf, of "\<lambda>_. 65" 0 1 "0x97"] show ?thesis
    by (simp add: put_byte_def next_row_def empty_row_def example_tty_def vga_entry_def bytes_at_def Let_def)
qed

end
