(* ===== verification/Kernel_State.thy ===== *)
theory Kernel_State
  imports Vmm_Map Idt Tty
begin

text \<open>
  The data of the kernel as a whole: the task structures of \<^verbatim>\<open>src/kernel/include/task.h\<close>, the static
  variables of the scheduler, the processor registers, and the states of the components below it. The
  heap and the address space nodes come from the state of the virtual memory manager, which this state
  extends.

  Memory is split by use. Kernel stacks are bytes at their virtual addresses, which mean the same in
  every address space. Pages that are mapped on demand (program images) are bytes of physical frames
  and are reached through the page tables.
\<close>

section \<open>Tasks\<close>

record registers =
  r_eax :: u32
  r_ebx :: u32
  r_ecx :: u32
  r_edx :: u32
  r_esi :: u32
  r_edi :: u32
  r_esp :: u32
  r_ebp :: u32

record task_control_block =
  pid :: u32
  kernel_stack_top :: u32
  virtual_addr_space :: u32
  esp0 :: u32
  tcb_vmm_context :: vmm_context
  tcb_paging_ctx :: paging_context
  parent :: u32

datatype task_priority = TASK_PRIORITY_LOW

record task_list =
  tl_task :: u32
  tl_priority :: task_priority
  tl_next :: u32

definition sizeof_task_control_block :: u32 where [c_const]: "sizeof_task_control_block = 36"
definition sizeof_task_list :: u32 where [c_const]: "sizeof_task_list = 12"

section \<open>The kernel state\<close>

record kernel_state = vmm_state +
  pmm :: pmm_state
  paging :: paging_state
  segments :: gdt_state
  tty :: tty_state
  io :: io_state
  scancode_queue_ctx :: scancode_queue_context
  regs :: registers
  eip :: u32
  int_flag :: bool
  stack :: mem
  frames :: mem
  tcbs :: "task_control_block store"
  task_lists :: "task_list store"
  CURRENT_TASK :: task_list
  tasks_head :: u32
  tasks_tail :: u32
  tasks_sched_head :: u32
  last_pid :: u32
  SCHED_INIT :: bool
  ADDR_SPACE :: "addr_space_entry list"

text \<open>
  What the code takes from the linker and from the hardware: the memory layout, the devices and the
  addresses of the functions that are stored as data.
\<close>

record kernel_env =
  KERNEL_MEMINFO :: kernel_meminfo
  devices :: device
  fn_sched_halt_or_crash :: u32
  fn_sched_remove :: u32
  fn_init_goto_user_mode :: u32
  fn_test_task :: u32

abbreviation current :: "'a kernel_state_scheme \<Rightarrow> task_control_block" where
  "current s \<equiv> tcbs s (tl_task (CURRENT_TASK s))"

abbreviation update_tcb :: "u32 \<Rightarrow> (task_control_block \<Rightarrow> task_control_block) \<Rightarrow> 'a kernel_state_scheme \<Rightarrow> 'a kernel_state_scheme" where
  "update_tcb p f s \<equiv> s\<lparr>tcbs := (tcbs s)(p := f (tcbs s p))\<rparr>"

abbreviation update_node :: "u32 \<Rightarrow> (task_list \<Rightarrow> task_list) \<Rightarrow> 'a kernel_state_scheme \<Rightarrow> 'a kernel_state_scheme" where
  "update_node p f s \<equiv> s\<lparr>task_lists := (task_lists s)(p := f (task_lists s p))\<rparr>"

text \<open>A call of \<^verbatim>\<open>printk_debug\<close>, and the allocation of a frame.\<close>

definition printk_debugK :: "string \<Rightarrow> printk_arg list \<Rightarrow> 'a kernel_state_scheme \<Rightarrow> 'a kernel_state_scheme" where
  "printk_debugK fmt args s = s\<lparr>io := log_message PRINTK_DEBUG fmt args (io s)\<rparr>"

definition alloc_page :: "'a kernel_state_scheme \<Rightarrow> (u32 \<times> 'a kernel_state_scheme) comp" where
  "alloc_page s = bindK (pmm_alloc_page (pmm s)) (\<lambda>(pa, pm). ret (pa, s\<lparr>pmm := pm\<rparr>))"

lemma printk_debugK_simps [simp]:
  "pmm (printk_debugK f a s) = pmm s" "paging (printk_debugK f a s) = paging s" "tcbs (printk_debugK f a s) = tcbs s"
  "CURRENT_TASK (printk_debugK f a s) = CURRENT_TASK s" "trees (printk_debugK f a s) = trees s" "frames (printk_debugK f a s) = frames s"
  "blocks (printk_debugK f a s) = blocks s" "stack (printk_debugK f a s) = stack s" "task_lists (printk_debugK f a s) = task_lists s"
  by (simp_all add: printk_debugK_def)

section \<open>A small state\<close>

text \<open>
  Three tasks in a ring, of which the first runs; all share an address space with one allocation, and
  nothing is mapped. The kernel stacks are apart from each other.
\<close>

definition zero_registers :: registers where
  "zero_registers = \<lparr>r_eax = 0, r_ebx = 0, r_ecx = 0, r_edx = 0, r_esi = 0, r_edi = 0, r_esp = 0, r_ebp = 0\<rparr>"

definition example_segments :: gdt_state where
  "example_segments = \<lparr>gdt_entries = (\<lambda>_. \<lparr>limit_low = 0, base_low = 0, base_middle = 0, access_type = 0, seg_flags = 0, base_high = 0\<rparr>),
     gdt = \<lparr>gdt_limit = 0, gdt_base = 0\<rparr>, tss = zero_tss, cpu_gdtr = \<lparr>gdt_limit = 0, gdt_base = 0\<rparr>,
     cpu_cs = 0, cpu_ds = 0, cpu_es = 0, cpu_fs = 0, cpu_gs = 0, cpu_ss = 0, cpu_tr = 0\<rparr>"

definition example_tcb :: "u32 \<Rightarrow> task_control_block" where
  "example_tcb n = \<lparr>pid = n, kernel_stack_top = 0xD0000000 + n * 0x1000, virtual_addr_space = 0x200000 + n * 0x1000,
     esp0 = 0xD0000000 + n * 0x1000, tcb_vmm_context = example_space, tcb_paging_ctx = example_ctx, parent = 0xE0001000\<rparr>"

definition example_node :: "u32 \<Rightarrow> u32 \<Rightarrow> task_list" where
  "example_node task nxt = \<lparr>tl_task = task, tl_priority = TASK_PRIORITY_LOW, tl_next = nxt\<rparr>"

definition example_state :: kernel_state where
  "example_state = \<lparr>headers = headers example_vmm, KMALLOC_HEAD = KMALLOC_HEAD example_vmm,
     blocks = blocks example_vmm, trees = trees example_vmm,
     pmm = empty_bitmap, paging = empty_paging, segments = example_segments, tty = example_tty,
     io = \<lparr>io_trace = [], messages = []\<rparr>, scancode_queue_ctx = example_queue,
     regs = zero_registers\<lparr>r_esp := 0xD0010000\<rparr>, eip = 0, int_flag = True, stack = (\<lambda>_. 0), frames = (\<lambda>_. 0),
     tcbs = (\<lambda>_. example_tcb 0)(0xE0001000 := example_tcb 1, 0xE0001100 := example_tcb 2, 0xE0001200 := example_tcb 3),
     task_lists = (\<lambda>_. example_node 0 0)(0xE0002000 := example_node 0xE0001000 0xE0002100,
       0xE0002100 := example_node 0xE0001100 0xE0002200, 0xE0002200 := example_node 0xE0001200 0xE0002000),
     CURRENT_TASK = example_node 0xE0001000 0xE0002100, tasks_head = 0xE0002000, tasks_tail = 0xE0002200,
     tasks_sched_head = 0xE0002000, last_pid = 4, SCHED_INIT = True, ADDR_SPACE = []\<rparr>"

definition example_env :: kernel_env where
  "example_env = \<lparr>KERNEL_MEMINFO = example_meminfo, devices = (\<lambda>_ _. 0), fn_sched_halt_or_crash = 0xC0106000,
     fn_sched_remove = 0xC0106100, fn_init_goto_user_mode = 0xC0106200, fn_test_task = 0xC0106300\<rparr>"

end
