(* ===== verification/Page_Fault.thy ===== *)
theory Page_Fault
  imports Kernel_State
begin

text \<open>
  The page fault handler, \<^verbatim>\<open>src/kernel/arch/i386/interrupts/page_fault.c\<close>, and what it is for: an
  access to a page that is allocated but not yet mapped runs the handler and is then repeated.
\<close>

section \<open>The handler\<close>

definition PAGING_ERR_CODE_P :: u32 where [c_const]: "PAGING_ERR_CODE_P = 1"
definition PAGING_ERR_CODE_WR :: u32 where [c_const]: "PAGING_ERR_CODE_WR = 2"
definition PAGING_ERR_CODE_US :: u32 where [c_const]: "PAGING_ERR_CODE_US = 4"

text \<open>\<open>cr2\<close> is the register that \<^verbatim>\<open>read_page_fault_addr\<close> reads.\<close>

definition log_page_fault :: "interrupt_state \<Rightarrow> u32 \<Rightarrow> u32 \<Rightarrow> 'a kernel_state_scheme \<Rightarrow> 'a kernel_state_scheme" where
  "log_page_fault state err_code addr s =
     printk_debugK (''[task %u] page fault @ %#x (eflags=%#x, cs=%d, eip=%d, err_code=%d): cause=%s, access=%s, mode=%s'' @
         [CHR 0x0A, CHR 0x09, CHR 0x0A])
       [n32 (pid (current s)), n32 addr, n32 (is_eflags state), n32 (is_cs state), n32 (is_eip state), n32 err_code,
        Str (if err_code AND PAGING_ERR_CODE_P \<noteq> 0 then ''protection_fault'' else ''non_present_page''),
        Str (if err_code AND PAGING_ERR_CODE_WR \<noteq> 0 then ''write'' else ''read''),
        Str (if err_code AND PAGING_ERR_CODE_US \<noteq> 0 then ''user'' else ''kernel'')] s"

definition page_fault_handler ::
  "kernel_env \<Rightarrow> interrupt_state \<Rightarrow> u32 \<Rightarrow> u32 \<Rightarrow> 'a kernel_state_scheme \<Rightarrow> 'a kernel_state_scheme comp" where
  "page_fault_handler env state err_code cr2 s =
     (let addr = cr2;
          s1 = log_page_fault state err_code addr s
      in if err_code AND PAGING_ERR_CODE_P \<noteq> 0
         then if err_code AND PAGING_ERR_CODE_US \<noteq> 0
              then fail (Panic ''TODO: kill the misbehaving user process'')
              else fail (Panic ''kernel protection fault'')
         else let aligned_vaddr = paging_align_addr addr
              in bindK (vmm_find_allocation (tcb_vmm_context (current s1)) aligned_vaddr s1) (\<lambda>alloc.
                 assertK (al_page_count alloc \<noteq> 0) (Panic ''invalid VMM state'')
                (bindK (if al_physical_addr alloc \<noteq> 0 then ret (al_physical_addr alloc, s1) else alloc_page s1) (\<lambda>(physical_addr, s2).
                 let s3 = s2\<lparr>paging := paging_map_virtual_to_physical (KERNEL_MEMINFO env) (tcb_paging_ctx (current s2))
                                   aligned_vaddr physical_addr (al_flags alloc) (paging s2)\<rparr>
                 in ret (printk_debugK (line ''mapped %#x -> %#x (flags=%u)'')
                           [n32 aligned_vaddr, n32 physical_addr, n32 (al_flags alloc)] s3)))))"

section \<open>Access on demand\<close>

text \<open>
  The processor translates an address with the directory of the current task; when the page is not
  present it runs the handler with the address and repeats the access, as often as it takes.
\<close>

definition translate :: "kernel_env \<Rightarrow> 'a kernel_state_scheme \<Rightarrow> u32 \<Rightarrow> (u32 \<times> u32) option" where
  "translate env s va = page_walk (KERNEL_MEMINFO env) (paging s) (page_directory (tcb_paging_ctx (current s))) va"

partial_function (option) touch ::
  "kernel_env \<Rightarrow> interrupt_state \<Rightarrow> u32 \<Rightarrow> u32 \<Rightarrow> 'a kernel_state_scheme \<Rightarrow> (u32 \<times> 'a kernel_state_scheme) comp" where [code]:
  "touch env state err_code va s =
     (case translate env s va of
        Some (pa, flags) \<Rightarrow> ret (pa, s)
      | None \<Rightarrow> bindK (page_fault_handler env state err_code va s) (\<lambda>s1. touch env state err_code va s1))"

abbreviation kernel_int :: interrupt_state where
  "kernel_int \<equiv> \<lparr>is_eflags = 0, is_cs = 8, is_eip = 0\<rparr>"

definition load_byte :: "kernel_env \<Rightarrow> u32 \<Rightarrow> 'a kernel_state_scheme \<Rightarrow> (u8 \<times> 'a kernel_state_scheme) comp" where
  "load_byte env va s = bindK (touch env kernel_int 0 va s) (\<lambda>(pa, s1). ret (frames s1 pa, s1))"

definition store_byte :: "kernel_env \<Rightarrow> u32 \<Rightarrow> u8 \<Rightarrow> 'a kernel_state_scheme \<Rightarrow> 'a kernel_state_scheme comp" where
  "store_byte env va v s = bindK (touch env kernel_int PAGING_ERR_CODE_WR va s) (\<lambda>(pa, s1). ret (s1\<lparr>frames := (frames s1)(pa := v)\<rparr>))"

text \<open>\<^verbatim>\<open>memcpy\<close> and \<^verbatim>\<open>memset\<close> between pages that are mapped on demand.\<close>

definition memcpyK :: "kernel_env \<Rightarrow> u32 \<Rightarrow> u32 \<Rightarrow> u32 \<Rightarrow> 'a kernel_state_scheme \<Rightarrow> 'a kernel_state_scheme comp" where
  "memcpyK env dst src num s =
     for_rangeK 0 num (\<lambda>i s. bindK (load_byte env (src + i) s) (\<lambda>(v, s1). store_byte env (dst + i) v s1)) s"

definition memsetK :: "kernel_env \<Rightarrow> u32 \<Rightarrow> u8 \<Rightarrow> u32 \<Rightarrow> 'a kernel_state_scheme \<Rightarrow> 'a kernel_state_scheme comp" where
  "memsetK env dst v num s = for_rangeK 0 num (\<lambda>i. store_byte env (dst + i) v) s"

section \<open>What the handler does\<close>

lemma paging_align_addr_unat: "unat (paging_align_addr a) = unat a div 4096 * 4096"
proof -
  have "unat (a div 4096) * 4096 < 4294967296" using unat_u32_less [of a] unfolding unat_div by (simp del: unat_u32_less)
  then show ?thesis by (simp add: paging_align_addr_def c_const unat_simps unat_div)
qed

lemma same_page_align: "unat (paging_align_addr a) div 4096 = unat a div 4096"
  by (simp add: paging_align_addr_unat)

text \<open>The lookup depends on the nodes only.\<close>

lemma space_inv_cong:
  assumes "headers s' = headers s" "KMALLOC_HEAD s' = KMALLOC_HEAD s" "blocks s' = blocks s" "trees s' = trees s"
  shows "space_inv (ctx, s' :: 'a vmm_state_scheme) A \<longleftrightarrow> space_inv (ctx, s :: 'a vmm_state_scheme) A"
  using assms by (simp add: space_inv_def vmm_inv_def kmalloc_inv_def heap_inv_def free_inv_def tree_inv_def)

lemma vmm_find_allocation_cong: "trees s' = trees s \<Longrightarrow> vmm_find_allocation ctx va s' = vmm_find_allocation ctx va s"
  by (simp add: vmm_find_allocation_def)

lemma printk_debugK_heap [simp]: "headers (printk_debugK f a s) = headers s" "KMALLOC_HEAD (printk_debugK f a s) = KMALLOC_HEAD s"
  by (simp_all add: printk_debugK_def)

lemma log_page_fault_io: "\<exists>msgs. log_page_fault state err_code addr s = s\<lparr>io := msgs\<rparr>"
  by (auto simp: log_page_fault_def printk_debugK_def)

text \<open>An address is looked up by its page.\<close>

lemma interval_align:
  assumes "space_inv cs A" and "a \<in> A"
  shows "unat (paging_align_addr va) \<in> interval a \<longleftrightarrow> unat va \<in> interval a"
proof -
  have "paging_is_aligned (al_virtual_addr a)" using assms by (auto simp: space_inv_def vmm_inv_def)
  then show ?thesis using same_page_align [of va] by (simp add: interval_pages)
qed

lemma space_allocation_used:
  assumes "space_inv cs A" and "a \<in> A" shows "al_page_count a \<noteq> 0" and "a \<noteq> no_allocation"
  using assms by (auto simp: space_inv_def vmm_inv_def allocs_ok_def no_allocation_def)

abbreviation current_space :: "'a kernel_state_scheme \<Rightarrow> vmm_context \<times> 'a kernel_state_scheme" where
  "current_space s \<equiv> (tcb_vmm_context (current s), s)"

lemma page_fault_handler_absent:
  assumes "space_inv (current_space s) A" and "err_code AND PAGING_ERR_CODE_P = 0" and "\<forall>a \<in> A. unat va \<notin> interval a"
  shows "page_fault_handler env state err_code va s = fail (Panic ''invalid VMM state'')"
proof -
  obtain msgs where log: "log_page_fault state err_code va s = s\<lparr>io := msgs\<rparr>" using log_page_fault_io by blast
  have "vmm_find_allocation (tcb_vmm_context (current s)) (paging_align_addr va) s = ret no_allocation"
    using sp.find_out [OF assms(1)] assms(3) interval_align [OF assms(1)] by simp
  then show ?thesis using assms(2)
    by (simp add: page_fault_handler_def log Let_def vmm_find_allocation_def no_allocation_def)
qed

lemma page_fault_handler_maps:
  assumes inv: "space_inv (current_space s) A" and a: "a \<in> A" "unat va \<in> interval a" and err: "err_code AND PAGING_ERR_CODE_P = 0"
    and frame: "if al_physical_addr a \<noteq> 0 then pa = al_physical_addr a \<and> pm = pmm s else pmm_alloc_page (pmm s) = ret (pa, pm)"
  shows "\<exists>msgs. page_fault_handler env state err_code va s =
    ret (s\<lparr>pmm := pm, paging := paging_map_virtual_to_physical (KERNEL_MEMINFO env) (tcb_paging_ctx (current s))
           (paging_align_addr va) pa (al_flags a) (paging s), io := msgs\<rparr>)"
proof -
  obtain msgs where log: "log_page_fault state err_code va s = s\<lparr>io := msgs\<rparr>" using log_page_fault_io by blast
  have find: "vmm_find_allocation (tcb_vmm_context (current s)) (paging_align_addr va) s = ret a"
    using sp.find_in [OF inv a(1)] interval_align [OF inv a(1)] a(2) by simp
  note def = page_fault_handler_def log Let_def vmm_find_allocation_def alloc_page_def printk_debugK_def
  show ?thesis
  proof (cases "al_physical_addr a = 0")
    case True
    with find err frame space_allocation_used(1) [OF inv a(1)] show ?thesis by (auto simp: def)
  next
    case False
    have "s\<lparr>pmm := pmm s\<rparr> = s" by simp
    with False find err frame space_allocation_used(1) [OF inv a(1)] show ?thesis by (auto simp: def)
  qed
qed

lemma touch_mapped: "translate env s va = Some (pa, flags) \<Longrightarrow> touch env state err_code va s = ret (pa, s)"
  by (subst touch.simps) simp

text \<open>An access to a page that is not present is repeated once the handler has mapped the page.\<close>

lemma touch_faults:
  assumes "space_inv (current_space s) A" and "a \<in> A" and "unat va \<in> interval a"
    and "translate env s va = None" and "err_code AND PAGING_ERR_CODE_P = 0"
    and "ctx_ok (KERNEL_MEMINFO env) (tcb_paging_ctx (current s))" and "is_flags (al_flags a)" and "al_flags a AND PAGE_FLAG_PRESENT \<noteq> 0"
    and "if al_physical_addr a \<noteq> 0 then pa = al_physical_addr a \<and> pm = pmm s else pmm_alloc_page (pmm s) = ret (pa, pm)"
  obtains msgs s' where "s' = s\<lparr>pmm := pm, paging := paging_map_virtual_to_physical (KERNEL_MEMINFO env) (tcb_paging_ctx (current s))
      (paging_align_addr va) pa (al_flags a) (paging s), io := msgs\<rparr>"
    and "touch env state err_code va s = ret (push_bit 12 (drop_bit 12 pa) OR (va AND 0xfff), s')"
    and "\<And>x. unat x div 4096 = unat va div 4096 \<Longrightarrow> translate env s' x = Some (push_bit 12 (drop_bit 12 pa) OR (x AND 0xfff), al_flags a)"
proof -
  obtain msgs where run: "page_fault_handler env state err_code va s = ret (s\<lparr>pmm := pm,
      paging := paging_map_virtual_to_physical (KERNEL_MEMINFO env) (tcb_paging_ctx (current s)) (paging_align_addr va) pa (al_flags a) (paging s),
      io := msgs\<rparr>)" (is "_ = ret ?s'") using page_fault_handler_maps [OF assms(1-3,5,9)] by blast
  have page: "translate env ?s' x = Some (push_bit 12 (drop_bit 12 pa) OR (x AND 0xfff), al_flags a)"
    if "unat x div 4096 = unat va div 4096" for x
    using maps_to_walk [OF assms(6) pg.map_same [OF assms(6)] aligned_frame assms(7,8)] that
    by (simp add: translate_def same_page_align)
  have "touch env state err_code va s = ret (push_bit 12 (drop_bit 12 pa) OR (va AND 0xfff), ?s')"
    using assms(4) run touch_mapped [OF page [OF refl]] by (subst touch.simps) simp
  with page that [OF refl] show ?thesis by blast
qed

section \<open>Properties\<close>

text \<open>C5. Demand paging: when the running task accesses an address of one of its allocations whose page
  is not present, the access succeeds after one page fault. The page is then translated to the frame
  of the allocation, or to a newly allocated frame when it has none, with the flags of the allocation;
  pages mapped with the same flags before keep their translation, and the kernel's other data is as it was.\<close>

theorem page_fault_on_demand:
  assumes "space_inv (current_space s) A" and "a \<in> A" and "unat va \<in> interval a"
    and "translate env s va = None" and "err_code AND PAGING_ERR_CODE_P = 0"
    and "ctx_ok (KERNEL_MEMINFO env) (tcb_paging_ctx (current s))" and "is_flags (al_flags a)" and "al_flags a AND PAGE_FLAG_PRESENT \<noteq> 0"
    and "if al_physical_addr a \<noteq> 0 then pa = al_physical_addr a \<and> pm = pmm s else pmm_alloc_page (pmm s) = ret (pa, pm)"
  shows "\<exists>s' msgs pg. touch env state err_code va s = ret (push_bit 12 (drop_bit 12 pa) OR (va AND 0xfff), s') \<and>
    s' = s\<lparr>pmm := pm, paging := pg, io := msgs\<rparr> \<and>
    (\<forall>x. unat x div 4096 = unat va div 4096 \<longrightarrow> translate env s' x = Some (push_bit 12 (drop_bit 12 pa) OR (x AND 0xfff), al_flags a)) \<and>
    (\<forall>x f. unat x div 4096 \<noteq> unat va div 4096 \<and> maps_to (KERNEL_MEMINFO env) (tcb_paging_ctx (current s)) (paging s) x f (al_flags a) \<longrightarrow>
       maps_to (KERNEL_MEMINFO env) (tcb_paging_ctx (current s')) (paging s') x f (al_flags a))"
proof -
  let ?mi = "KERNEL_MEMINFO env" and ?ctx = "tcb_paging_ctx (current s)"
  obtain msgs s' where s': "s' = s\<lparr>pmm := pm, paging := paging_map_virtual_to_physical ?mi ?ctx (paging_align_addr va) pa (al_flags a) (paging s),
        io := msgs\<rparr>" and t: "touch env state err_code va s = ret (push_bit 12 (drop_bit 12 pa) OR (va AND 0xfff), s')"
      and page: "\<And>x. unat x div 4096 = unat va div 4096 \<Longrightarrow> translate env s' x = Some (push_bit 12 (drop_bit 12 pa) OR (x AND 0xfff), al_flags a)"
    using touch_faults [OF assms] by blast
  have "maps_to ?mi (tcb_paging_ctx (current s')) (paging s') x f (al_flags a)"
    if "unat x div 4096 \<noteq> unat va div 4096" "maps_to ?mi ?ctx (paging s) x f (al_flags a)" for x f
    using pg.map_other [OF assms(6) _ that(2)] that(1) by (simp add: s' same_page_align)
  with s' t page show ?thesis by blast
qed

lemma example_fault_space: "space_inv (current_space example_state) {allocation 0x400000 0x900000 2 7}"
proof -
  have "vmm_inv example_space example_state L ns t = vmm_inv example_space example_vmm L ns t" for L ns t
    by (simp add: vmm_inv_def kmalloc_inv_def heap_inv_def free_inv_def tree_inv_def example_state_def)
  then show ?thesis using example_space_inv by (simp add: space_inv_def example_state_def example_node_def example_tcb_def)
qed

lemma example_fault_ctx:
  "ctx_ok (KERNEL_MEMINFO example_env) (tcb_paging_ctx (current example_state))"
  using example_ctx_ok by (simp add: example_env_def example_state_def example_node_def example_tcb_def)

theorem page_fault_on_demand_witness:
  "\<exists>s'. touch example_env kernel_int 2 0x400123 example_state = ret (0x900123, s') \<and>
     translate example_env s' 0x400FFF = Some (0x900FFF, 7)"
proof -
  have none: "translate example_env example_state 0x400123 = None"
    by (simp add: translate_def page_walk_def example_state_def empty_paging_def)
  show ?thesis
    using page_fault_on_demand [OF example_fault_space _ _ none _ example_fault_ctx, of "allocation 0x400000 0x900000 2 7" 2 "0x900000" empty_bitmap kernel_int]
    by (force simp: interval_def is_flags_def c_const PAGING_ERR_CODE_P_def example_state_def)
qed

text \<open>C26. The handler panics on every fault that is not the first access to an allocated page: on a
  protection fault, in user or in kernel mode, and on an address that the running task has not
  allocated.\<close>

theorem page_fault_panics:
  assumes "space_inv (current_space s) A" and "err_code AND PAGING_ERR_CODE_P \<noteq> 0 \<or> (\<forall>a \<in> A. unat va \<notin> interval a)"
  shows "page_fault_handler env state err_code va s = fail (Panic
    (if err_code AND PAGING_ERR_CODE_P = 0 then ''invalid VMM state''
     else if err_code AND PAGING_ERR_CODE_US \<noteq> 0 then ''TODO: kill the misbehaving user process'' else ''kernel protection fault''))"
  using page_fault_handler_absent [OF assms(1)] assms(2)
  by (auto simp: page_fault_handler_def Let_def)

theorem page_fault_panics_witness:
  "page_fault_handler example_env kernel_int 0 0x800000 example_state = fail (Panic ''invalid VMM state'') \<and>
   page_fault_handler example_env kernel_int 5 0x400000 example_state = fail (Panic ''TODO: kill the misbehaving user process'')"
  using page_fault_panics [OF example_fault_space, of 0 "0x800000" example_env kernel_int]
    page_fault_panics [OF example_fault_space, of 5 "0x400000" example_env kernel_int]
  by (simp add: interval_def c_const)

text \<open>C27. All pages of an allocation with a physical address are mapped to one frame: after the first
  accesses to two pages of such an allocation both are translated to the frame at its physical address.\<close>

theorem page_fault_shares_frame:
  assumes "space_inv (current_space s) A" and "a \<in> A" and "unat x \<in> interval a" and "unat y \<in> interval a"
    and "unat x div 4096 \<noteq> unat y div 4096" and "al_physical_addr a \<noteq> 0" and "paging_is_aligned (al_physical_addr a)"
    and "ctx_ok (KERNEL_MEMINFO env) (tcb_paging_ctx (current s))" and "is_flags (al_flags a)" and "al_flags a AND PAGE_FLAG_PRESENT \<noteq> 0"
  shows "\<exists>s1 s2. page_fault_handler env state 0 x s = ret s1 \<and> page_fault_handler env state 0 y s1 = ret s2 \<and>
    translate env s2 x = Some (al_physical_addr a OR (x AND 0xfff), al_flags a) \<and>
    translate env s2 y = Some (al_physical_addr a OR (y AND 0xfff), al_flags a)"
proof -
  let ?mi = "KERNEL_MEMINFO env" and ?ctx = "tcb_paging_ctx (current s)" and ?pa = "al_physical_addr a"
  let ?map = "\<lambda>va. paging_map_virtual_to_physical ?mi ?ctx (paging_align_addr va) ?pa (al_flags a)"
  have P: "0 AND PAGING_ERR_CODE_P = 0" by simp
  obtain m1 where h1: "page_fault_handler env state 0 x s = ret (s\<lparr>pmm := pmm s, paging := ?map x (paging s), io := m1\<rparr>)"
    (is "_ = ret ?s1") using page_fault_handler_maps [OF assms(1,2,3) P, of ?pa "pmm s"] assms(6) by auto
  have inv1: "space_inv (current_space ?s1) A" using assms(1) space_inv_cong [of ?s1 s] by simp
  obtain m2 where h2: "page_fault_handler env state 0 y ?s1 =
      ret (?s1\<lparr>pmm := pmm s, paging := ?map y (?map x (paging s)), io := m2\<rparr>)" (is "_ = ret ?s2")
    using page_fault_handler_maps [OF inv1 assms(2,4) P, of ?pa "pmm s"] assms(6) by auto
  have fr: "push_bit 12 (drop_bit 12 ?pa) = ?pa" by (rule aligned_frame_id [OF assms(7)])
  have "maps_to ?mi ?ctx (?map x (paging s)) x ?pa (al_flags a)"
    using pg.map_same [OF assms(8), of x "paging_align_addr x" ?pa "al_flags a" "paging s"] by (simp add: same_page_align fr)
  then have "maps_to ?mi ?ctx (?map y (?map x (paging s))) x ?pa (al_flags a)"
    using pg.map_other [OF assms(8), of x "paging_align_addr y"] assms(5) by (simp add: same_page_align)
  moreover have "maps_to ?mi ?ctx (?map y (?map x (paging s))) y ?pa (al_flags a)"
    using pg.map_same [OF assms(8), of y "paging_align_addr y" ?pa "al_flags a"] by (simp add: same_page_align fr)
  ultimately have "translate env ?s2 x = Some (?pa OR (x AND 0xfff), al_flags a)" "translate env ?s2 y = Some (?pa OR (y AND 0xfff), al_flags a)"
    using maps_to_walk [OF assms(8) _ assms(7,9,10)] by (simp_all add: translate_def)
  with h1 h2 show ?thesis by blast
qed

theorem page_fault_shares_frame_witness:
  "\<exists>s1 s2. page_fault_handler example_env kernel_int 0 0x400000 example_state = ret s1 \<and>
     page_fault_handler example_env kernel_int 0 0x401000 s1 = ret s2 \<and>
     translate example_env s2 0x400000 = Some (0x900000, 7) \<and> translate example_env s2 0x401000 = Some (0x900000, 7)"
  using page_fault_shares_frame [OF example_fault_space, of "allocation 0x400000 0x900000 2 7" "0x400000" "0x401000" example_env kernel_int]
    example_fault_ctx
  by (simp add: interval_def is_flags_def paging_is_aligned_def c_const)

end
