(* ===== verification/Task.thy ===== *)
theory Task
  imports Page_Fault
begin

text \<open>
  Kernel stacks and tasks: \<^verbatim>\<open>src/kernel/arch/i386/mm/addr_space.c\<close>, \<^verbatim>\<open>src/kernel/task.c\<close> and the context
  switch of \<^verbatim>\<open>src/kernel/arch/i386/task_switch.S\<close>.
\<close>

section \<open>Kernel stacks\<close>

definition KERNEL_STACK_PAGE_COUNT :: u32 where [c_const]: "KERNEL_STACK_PAGE_COUNT = 10"
definition KERNEL_STACK_SIZE :: u32 where [c_const]: "KERNEL_STACK_SIZE = KERNEL_STACK_PAGE_COUNT * PAGE_SIZE"
definition USER_STACK_TOP :: u32 where [c_const]: "USER_STACK_TOP = 0xA0000000"
definition USER_STACK_PAGE_COUNT :: u32 where [c_const]: "USER_STACK_PAGE_COUNT = 10"
definition USER_STACK_SIZE :: u32 where [c_const]: "USER_STACK_SIZE = USER_STACK_PAGE_COUNT * PAGE_SIZE"

definition alloc_kernel_stack ::
  "kernel_env \<Rightarrow> paging_context \<Rightarrow> vmm_context \<Rightarrow> 'a kernel_state_scheme \<Rightarrow> (u32 \<times> vmm_context \<times> 'a kernel_state_scheme) comp" where
  "alloc_kernel_stack env paging_ctx vmm_ctx s =
     bindK (alloc_page s) (\<lambda>(bottom_physical_addr, s1).
     bindK (vmm_map_pages (KERNEL_MEMINFO env) vmm_ctx 0 bottom_physical_addr KERNEL_STACK_PAGE_COUNT
              (PAGE_FLAG_PRESENT OR PAGE_FLAG_WRITE) s1) (\<lambda>(kernel_stack_bottom, vmm_ctx1, s2).
     let kernel_stack_top = kernel_stack_bottom + KERNEL_STACK_SIZE - 16
     in bindK (for_rangeK 1 KERNEL_STACK_PAGE_COUNT (\<lambda>i s.
          bindK (alloc_page s) (\<lambda>(physical_addr, s').
          ret (s'\<lparr>paging := paging_map_virtual_to_physical (KERNEL_MEMINFO env) paging_ctx
                 (kernel_stack_bottom + i * PAGE_SIZE) physical_addr (PAGE_FLAG_PRESENT OR PAGE_FLAG_WRITE) (paging s')\<rparr>))) s2)
        (\<lambda>s3. ret (kernel_stack_top, vmm_ctx1, s3))))"

section \<open>Creating a task\<close>

definition push_uint32 :: "u32 \<Rightarrow> u32 \<Rightarrow> 'a kernel_state_scheme \<Rightarrow> u32 \<times> 'a kernel_state_scheme" where
  "push_uint32 sp v s = (sp - 4, s\<lparr>stack := store_u32 sp v (stack s)\<rparr>)"

text \<open>The values pushed for a new task, in order; the last one is stored without moving the top.\<close>

definition initial_stack :: "kernel_env \<Rightarrow> u32 \<Rightarrow> u32 \<Rightarrow> u32 \<Rightarrow> u32 list" where
  "initial_stack env new_pid ret_addr task_fn =
     [new_pid, fn_sched_halt_or_crash env, fn_sched_remove env] @
     (if ret_addr \<noteq> NULL then [ret_addr] else []) @ [task_fn, 0, 0, 0]"

definition push_all :: "u32 list \<Rightarrow> u32 \<Rightarrow> 'a kernel_state_scheme \<Rightarrow> u32 \<times> 'a kernel_state_scheme" where
  "push_all vs sp s = fold (\<lambda>v (t, s). push_uint32 t v s) vs (sp, s)"

definition task_create ::
  "kernel_env \<Rightarrow> paging_context \<Rightarrow> vmm_context \<Rightarrow> u32 \<Rightarrow> u32 \<Rightarrow> bool \<Rightarrow> 'a kernel_state_scheme \<Rightarrow> (u32 \<times> 'a kernel_state_scheme) comp" where
  "task_create env paging_ctx vmm_ctx task_fn ret_addr is_userspace s =
     bindK (alloc_kernel_stack env paging_ctx vmm_ctx s) (\<lambda>(sp0, vmm_ctx1, s1).
     bindK (if is_userspace
            then bindK (vmm_clone_paging_context (KERNEL_MEMINFO env) vmm_ctx1 paging_ctx (pmm s1) (paging s1) s1)
                   (\<lambda>(ctx, vmm_ctx', pm, pg, s'). ret (ctx, vmm_ctx', s'\<lparr>pmm := pm, paging := pg\<rparr>))
            else ret (paging_ctx, vmm_ctx1, s1)) (\<lambda>(task_paging_ctx, vmm_ctx2, s2).
     bindK (kmallocK sizeof_task_control_block s2) (\<lambda>(task, s3).
     let new_pid = last_pid s3;
         s4 = s3\<lparr>last_pid := last_pid s3 + 1\<rparr>;
         (sp, s5) = push_all (initial_stack env new_pid ret_addr task_fn) sp0 s4;
         s6 = s5\<lparr>stack := store_u32 sp 0 (stack s5)\<rparr>
     in bindK (if is_userspace
               then bindK (vmm_find_allocation vmm_ctx2 (page_directory task_paging_ctx) s6) (\<lambda>alloc.
                    assertK (al_page_count alloc \<noteq> 0) (Panic ''invalid VMM state'') (ret (al_physical_addr alloc)))
               else ret (vmm_virtual_to_physical (KERNEL_MEMINFO env) (page_directory task_paging_ctx))) (\<lambda>cr3.
        assertK (task \<noteq> NULL) Null_deref
       (ret (task, update_tcb task (\<lambda>_. \<lparr>pid = new_pid, kernel_stack_top = sp, virtual_addr_space = cr3,
               esp0 = sp, tcb_vmm_context = vmm_ctx2, tcb_paging_ctx = task_paging_ctx, parent = NULL\<rparr>) s6))))))"

section \<open>The context switch\<close>

text \<open>
  Processor instructions on the stack. \<open>call1\<close> is a call of a function with one argument, which leaves
  the argument above the return address.
\<close>

abbreviation update_regs :: "(registers \<Rightarrow> registers) \<Rightarrow> 'a kernel_state_scheme \<Rightarrow> 'a kernel_state_scheme" where
  "update_regs f s \<equiv> s\<lparr>regs := f (regs s)\<rparr>"

definition push :: "u32 \<Rightarrow> 'a kernel_state_scheme \<Rightarrow> 'a kernel_state_scheme" where
  "push v s = s\<lparr>regs := (regs s)\<lparr>r_esp := r_esp (regs s) - 4\<rparr>, stack := store_u32 (r_esp (regs s) - 4) v (stack s)\<rparr>"

definition top :: "'a kernel_state_scheme \<Rightarrow> u32" where
  "top s = load_u32 (stack s) (r_esp (regs s))"

definition drop4 :: "'a kernel_state_scheme \<Rightarrow> 'a kernel_state_scheme" where
  "drop4 s = update_regs (\<lambda>r. r\<lparr>r_esp := r_esp r + 4\<rparr>) s"

definition call1 :: "u32 \<Rightarrow> u32 \<Rightarrow> 'a kernel_state_scheme \<Rightarrow> 'a kernel_state_scheme" where
  "call1 return_addr arg s = push return_addr (push arg s)"

text \<open>
  The three parts of \<^verbatim>\<open>do_task_switch\<close>: save the registers, change the task, restore the registers and
  return. While the task changes \<^verbatim>\<open>esi\<close> holds the address of the TSS, which is not modelled; the third part
  loads \<^verbatim>\<open>esi\<close> anew.
\<close>

definition save_registers :: "'a kernel_state_scheme \<Rightarrow> 'a kernel_state_scheme" where
  "save_registers s =
     (let s1 = s\<lparr>int_flag := False\<rparr>;
          s2 = update_regs (\<lambda>r. r\<lparr>r_eax := load_u32 (stack s1) (r_esp r + 4)\<rparr>) s1;
          s3 = push (r_ebp (regs s2)) s2;
          s4 = update_regs (\<lambda>r. r\<lparr>r_ebp := r_esp r\<rparr>) s3;
          s5 = push (r_ebx (regs s4)) s4;
          s6 = push (r_esi (regs s5)) s5
      in push (r_edi (regs s6)) s6)"

definition change_task :: "'a kernel_state_scheme \<Rightarrow> 'a kernel_state_scheme" where
  "change_task s =
     (let ebx = tl_task (CURRENT_TASK s);
          eax = r_eax (regs s);
          s1 = update_tcb ebx (\<lambda>t. t\<lparr>kernel_stack_top := r_esp (regs s)\<rparr>) s;
          s2 = s1\<lparr>CURRENT_TASK := (CURRENT_TASK s)\<lparr>tl_task := eax\<rparr>\<rparr>;
          esp = kernel_stack_top (tcbs s2 eax);
          ecx = virtual_addr_space (tcbs s2 eax);
          edx = esp0 (tcbs s2 eax);
          s3 = s2\<lparr>regs := (regs s)\<lparr>r_ebx := cr3 (paging s), r_esp := esp, r_ecx := ecx, r_edx := edx\<rparr>,
                  segments := (segments s)\<lparr>tss := (tss (segments s))\<lparr>tss_esp0 := edx\<rparr>\<rparr>\<rparr>
      in if cr3 (paging s) = ecx then s3 else s3\<lparr>paging := (paging s)\<lparr>cr3 := ecx\<rparr>\<rparr>)"

definition restore_registers :: "'a kernel_state_scheme \<Rightarrow> 'a kernel_state_scheme" where
  "restore_registers s =
     (let s1 = drop4 (update_regs (\<lambda>r. r\<lparr>r_edi := top s\<rparr>) s);
          s2 = drop4 (update_regs (\<lambda>r. r\<lparr>r_esi := top s1\<rparr>) s1);
          s3 = drop4 (update_regs (\<lambda>r. r\<lparr>r_ebx := top s2\<rparr>) s2);
          s4 = drop4 (update_regs (\<lambda>r. r\<lparr>r_ebp := top s3\<rparr>) s3);
          s5 = s4\<lparr>int_flag := True\<rparr>
      in drop4 (s5\<lparr>eip := top s5\<rparr>))"

definition do_task_switch :: "'a kernel_state_scheme \<Rightarrow> 'a kernel_state_scheme" where
  "do_task_switch s = restore_registers (change_task (save_registers s))"

section \<open>What a switch does\<close>

text \<open>A task that does not run: its stack holds the registers and the address to go on with.\<close>

definition suspended :: "'a kernel_state_scheme \<Rightarrow> u32 \<Rightarrow> registers \<Rightarrow> u32 \<Rightarrow> bool" where
  "suspended s task r ra \<longleftrightarrow>
     (let k = kernel_stack_top (tcbs s task)
      in load_u32 (stack s) k = r_edi r \<and> load_u32 (stack s) (k + 4) = r_esi r \<and> load_u32 (stack s) (k + 8) = r_ebx r \<and>
         load_u32 (stack s) (k + 12) = r_ebp r \<and> load_u32 (stack s) (k + 16) = ra \<and> r_esp r = k + 20)"

definition same_callee_saved :: "registers \<Rightarrow> registers \<Rightarrow> bool" where
  "same_callee_saved r r' \<longleftrightarrow> r_edi r = r_edi r' \<and> r_esi r = r_esi r' \<and> r_ebx r = r_ebx r' \<and> r_ebp r = r_ebp r' \<and> r_esp r = r_esp r'"

abbreviation switch_to :: "u32 \<Rightarrow> u32 \<Rightarrow> 'a kernel_state_scheme \<Rightarrow> 'a kernel_state_scheme" where
  "switch_to ra task s \<equiv> do_task_switch (call1 ra task s)"

lemma save_registers_call:
  "save_registers (call1 ra task s) =
     (let sp = r_esp (regs s); r = regs s
      in s\<lparr>int_flag := False, regs := r\<lparr>r_eax := task, r_ebp := sp - 12, r_esp := sp - 24\<rparr>,
           stack := store_u32 (sp - 24) (r_edi r) (store_u32 (sp - 20) (r_esi r) (store_u32 (sp - 16) (r_ebx r)
             (store_u32 (sp - 12) (r_ebp r) (store_u32 (sp - 8) ra (store_u32 (sp - 4) task (stack s))))))\<rparr>)"
  by (simp add: save_registers_def call1_def push_def Let_def diff_diff_eq load_store_u32_other)

lemma change_task_simps [simp]:
  "stack (change_task s) = stack s" "task_lists (change_task s) = task_lists s"
  "tasks_sched_head (change_task s) = tasks_sched_head s" "tasks_head (change_task s) = tasks_head s" "tasks_tail (change_task s) = tasks_tail s"
  "tcbs (change_task s) = (tcbs s)(tl_task (CURRENT_TASK s) := (current s)\<lparr>kernel_stack_top := r_esp (regs s)\<rparr>)"
  "CURRENT_TASK (change_task s) = (CURRENT_TASK s)\<lparr>tl_task := r_eax (regs s)\<rparr>"
  "r_esp (regs (change_task s)) = kernel_stack_top (tcbs (change_task s) (r_eax (regs s)))"
  by (simp_all add: change_task_def Let_def)

lemma change_task_control [simp]:
  "cr3 (paging (change_task s)) = virtual_addr_space (tcbs s (r_eax (regs s)))"
  "tss_esp0 (tss (segments (change_task s))) = esp0 (tcbs s (r_eax (regs s)))"
  by (simp_all add: change_task_def Let_def)

lemma restore_registers_simps:
  "restore_registers s =
     (let k = r_esp (regs s); m = stack s
      in s\<lparr>regs := (regs s)\<lparr>r_edi := load_u32 m k, r_esi := load_u32 m (k + 4), r_ebx := load_u32 m (k + 8),
             r_ebp := load_u32 m (k + 12), r_esp := k + 20\<rparr>, eip := load_u32 m (k + 16), int_flag := True\<rparr>)"
  by (simp add: restore_registers_def drop4_def top_def Let_def add.assoc)

lemma switch_stack:
  "stack (switch_to ra task s) =
     (let sp = r_esp (regs s); r = regs s
      in store_u32 (sp - 24) (r_edi r) (store_u32 (sp - 20) (r_esi r) (store_u32 (sp - 16) (r_ebx r)
        (store_u32 (sp - 12) (r_ebp r) (store_u32 (sp - 8) ra (store_u32 (sp - 4) task (stack s)))))))"
  by (simp add: do_task_switch_def save_registers_call restore_registers_simps Let_def)

lemma switch_tasks [simp]:
  "tcbs (switch_to ra task s) = (tcbs s)(tl_task (CURRENT_TASK s) := (current s)\<lparr>kernel_stack_top := r_esp (regs s) - 24\<rparr>)"
  "tl_task (CURRENT_TASK (switch_to ra task s)) = task"
  "task_lists (switch_to ra task s) = task_lists s" "tasks_sched_head (switch_to ra task s) = tasks_sched_head s"
  "tasks_head (switch_to ra task s) = tasks_head s" "tasks_tail (switch_to ra task s) = tasks_tail s"
  by (simp_all add: do_task_switch_def save_registers_call restore_registers_simps Let_def)

lemma switch_registers:
  "let k = kernel_stack_top (tcbs (switch_to ra task s) task); m = stack (switch_to ra task s); r = regs (switch_to ra task s)
   in r_edi r = load_u32 m k \<and> r_esi r = load_u32 m (k + 4) \<and> r_ebx r = load_u32 m (k + 8) \<and> r_ebp r = load_u32 m (k + 12) \<and>
      r_esp r = k + 20 \<and> eip (switch_to ra task s) = load_u32 m (k + 16) \<and>
      cr3 (paging (switch_to ra task s)) = virtual_addr_space (tcbs s task) \<and>
      tss_esp0 (tss (segments (switch_to ra task s))) = esp0 (tcbs s task) \<and> int_flag (switch_to ra task s)"
  by (simp add: do_task_switch_def save_registers_call restore_registers_simps Let_def)

lemma switch_suspends:
  "suspended (switch_to ra task s) (tl_task (CURRENT_TASK s)) ((regs s)\<lparr>r_esp := r_esp (regs s) - 4\<rparr>) ra"
proof -
  define sp where "sp = r_esp (regs s)"
  have k: "sp - 24 + 4 = sp - 20" "sp - 24 + 8 = sp - 16" "sp - 24 + 12 = sp - 12" "sp - 24 + 16 = sp - 8" "sp - 24 + 20 = sp - 4"
    by simp_all
  show ?thesis unfolding suspended_def switch_tasks switch_stack Let_def sp_def [symmetric]
    by (simp add: k load_store_u32_other)
qed

text \<open>A switch writes only the 24 bytes below the stack pointer.\<close>

lemma switch_stack_outside:
  assumes "x \<notin> span (r_esp (regs s) - 24) 24"
  shows "stack (switch_to ra task s) x = stack s x"
proof -
  define k where "k = r_esp (regs s) - 24"
  have sp: "r_esp (regs s) = k + 24" by (simp add: k_def)
  have out: "store_u32 (k + of_nat c) v m x = m x" if "c + 4 \<le> 24" for c v m
    using assms that unfolding k_def [symmetric] by (rule store_u32_outside) simp
  from out [of 0] out [of 4] out [of 8] out [of 12] out [of 16] out [of 20]
  show ?thesis by (simp add: switch_stack Let_def sp add.commute [of k])
qed

lemma suspended_cong:
  assumes "suspended s task r ra" and "tcbs s' task = tcbs s task"
    and "\<And>x. x \<in> span (kernel_stack_top (tcbs s task)) 20 \<Longrightarrow> stack s' x = stack s x"
  shows "suspended s' task r ra"
proof -
  let ?k = "kernel_stack_top (tcbs s task)"
  have "load_u32 (stack s') (?k + of_nat c) = load_u32 (stack s) (?k + of_nat c)" if "c + 4 \<le> 20" for c
  proof (rule load_u32_cong)
    fix x assume "x \<in> span (?k + of_nat c) 4"
    then obtain i where i: "i < 4" "x = ?k + of_nat (c + i)" unfolding span_def image_iff by (auto simp: add.assoc)
    have "x \<in> span ?k 20" unfolding i(2) using i(1) that by (subst span_offset) simp_all
    then show "stack s' x = stack s x" by (rule assms(3))
  qed
  from this [of 0] this [of 4] this [of 8] this [of 12] this [of 16] assms(1,2) show ?thesis
    by (simp add: suspended_def Let_def)
qed

lemma switch_keeps_suspended:
  assumes "suspended s task r ra" and "tl_task (CURRENT_TASK s) \<noteq> task"
    and "span (r_esp (regs s) - 24) 24 \<inter> span (kernel_stack_top (tcbs s task)) 20 = {}"
  shows "suspended (switch_to ra' task' s) task r ra"
  using assms by (intro suspended_cong [OF assms(1)] switch_stack_outside) auto

lemma switch_resumes:
  assumes "suspended s task r ra" and "tl_task (CURRENT_TASK s) \<noteq> task"
    and "span (r_esp (regs s) - 24) 24 \<inter> span (kernel_stack_top (tcbs s task)) 20 = {}"
  shows "same_callee_saved (regs (switch_to ra' task s)) r \<and> eip (switch_to ra' task s) = ra"
  using switch_registers [of ra' task s] switch_keeps_suspended [OF assms, of ra' task]
  by (simp add: suspended_def Let_def same_callee_saved_def)

section \<open>The stack of a new task\<close>

definition words_at :: "mem \<Rightarrow> u32 \<Rightarrow> nat \<Rightarrow> u32 list" where
  "words_at m a n = map (\<lambda>i. load_u32 m (a + 4 * of_nat i)) [0..<n]"

text \<open>What a finished task finds above its registers and its entry point.\<close>

definition return_frames :: "kernel_env \<Rightarrow> u32 \<Rightarrow> u32 \<Rightarrow> u32 list" where
  "return_frames env new_pid ret_addr =
     (if ret_addr \<noteq> NULL then [ret_addr] else []) @ [fn_sched_remove env, fn_sched_halt_or_crash env, new_pid]"

lemma words_at_simps [simp]: "words_at m a 0 = []" "words_at m a (Suc n) = load_u32 m a # words_at m (a + 4) n"
  by (simp_all add: words_at_def map_upt_Suc add.assoc del: upt_Suc)

lemma words_at_numeral [simp]: "words_at m a (numeral k) = load_u32 m a # words_at m (a + 4) (pred_numeral k)"
  by (simp add: numeral_eq_Suc)

lemma push_all_state: "\<exists>m. snd (push_all vs sp s) = s\<lparr>stack := m\<rparr>"
  unfolding push_all_def
proof (induction vs arbitrary: sp s)
  case Nil
  show ?case by (rule exI [of _ "stack s"]) simp
next
  case (Cons v vs)
  from Cons.IH [of "sp - 4" "s\<lparr>stack := store_u32 sp v (stack s)\<rparr>"] show ?case by (simp add: push_uint32_def)
qed

lemma initial_stack_words:
  assumes "push_all (initial_stack env new_pid ret_addr task_fn) sp0 s = (sp, s')" and "m = store_u32 sp 0 (stack s')"
  shows "words_at m sp (5 + length (return_frames env new_pid ret_addr)) = [0, 0, 0, 0, task_fn] @ return_frames env new_pid ret_addr"
  using assms
  by (cases "ret_addr = NULL")
    (auto simp: push_all_def initial_stack_def push_uint32_def return_frames_def load_store_u32_other)

lemma words_at_add: "words_at m a (j + n) = words_at m a j @ words_at m (a + 4 * of_nat j) n"
  by (induction j arbitrary: a) (simp_all add: add.assoc)

lemma words_at_cong:
  assumes "\<And>x. x \<in> span a (4 * n) \<Longrightarrow> m x = m' x" shows "words_at m a n = words_at m' a n"
proof -
  have "load_u32 m (a + 4 * of_nat i) = load_u32 m' (a + 4 * of_nat i)" if "i < n" for i
  proof (rule load_u32_cong)
    fix x assume "x \<in> span (a + 4 * of_nat i) 4"
    then obtain j where "j < 4" "x = a + of_nat (4 * i + j)" unfolding span_def by (auto simp: add.assoc)
    moreover from this(1) that have "4 * i + j < 4 * n" by linarith
    ultimately show "m x = m' x" using assms unfolding span_def by blast
  qed
  then show ?thesis by (simp add: words_at_def)
qed

lemma task_create_stack:
  assumes "task_create env paging_ctx vmm_ctx task_fn ret_addr user s = ret (task, s')"
  shows "words_at (stack s') (kernel_stack_top (tcbs s' task)) (5 + length (return_frames env (pid (tcbs s' task)) ret_addr)) =
      [0, 0, 0, 0, task_fn] @ return_frames env (pid (tcbs s' task)) ret_addr"
    and "esp0 (tcbs s' task) = kernel_stack_top (tcbs s' task)" and "last_pid s' = pid (tcbs s' task) + 1"
proof -
  obtain sp0 s3 cr3 vmm_ctx2 ctx2 where s'': "s' = (let r = push_all (initial_stack env (last_pid s3) ret_addr task_fn) sp0
        (s3\<lparr>last_pid := last_pid s3 + 1\<rparr>); sp = fst r; s5 = snd r
      in update_tcb task (\<lambda>_. \<lparr>pid = last_pid s3, kernel_stack_top = sp, virtual_addr_space = cr3,
        esp0 = sp, tcb_vmm_context = vmm_ctx2, tcb_paging_ctx = ctx2, parent = NULL\<rparr>) (s5\<lparr>stack := store_u32 sp 0 (stack s5)\<rparr>))"
    using assms by (auto simp: task_create_def bindK_eq_ret assertK_eq_ret Let_def case_prod_unfold)
  define s4 where "s4 = s3\<lparr>last_pid := last_pid s3 + 1\<rparr>"
  obtain sp s5 where push: "push_all (initial_stack env (last_pid s3) ret_addr task_fn) sp0 s4 = (sp, s5)" by (rule prod.exhaust)
  have s': "s' = update_tcb task (\<lambda>_. \<lparr>pid = last_pid s3, kernel_stack_top = sp, virtual_addr_space = cr3,
      esp0 = sp, tcb_vmm_context = vmm_ctx2, tcb_paging_ctx = ctx2, parent = NULL\<rparr>) (s5\<lparr>stack := store_u32 sp 0 (stack s5)\<rparr>)"
    using s'' push by (simp add: s4_def)
  obtain m where "s5 = s4\<lparr>stack := m\<rparr>" using push_all_state push by (metis snd_conv)
  then show "esp0 (tcbs s' task) = kernel_stack_top (tcbs s' task)" "last_pid s' = pid (tcbs s' task) + 1"
    using s' by (simp_all add: s4_def)
  show "words_at (stack s') (kernel_stack_top (tcbs s' task)) (5 + length (return_frames env (pid (tcbs s' task)) ret_addr)) =
      [0, 0, 0, 0, task_fn] @ return_frames env (pid (tcbs s' task)) ret_addr"
    using initial_stack_words [OF push refl] s' by simp
qed

text \<open>The first switch to a new task.\<close>

lemma first_switch:
  assumes "task_create env paging_ctx vmm_ctx task_fn ret_addr user s = ret (task, s1)"
    and "k = kernel_stack_top (tcbs s1 task)"
    and "tcbs s2 task = tcbs s1 task" and "\<forall>x \<in> span k 36. stack s2 x = stack s1 x"
    and "tl_task (CURRENT_TASK s2) \<noteq> task" and "span (r_esp (regs s2) - 24) 24 \<inter> span k 36 = {}"
    and "s3 = switch_to ra' task s2"
  shows "eip s3 = task_fn \<and> r_ebp (regs s3) = 0 \<and> r_ebx (regs s3) = 0 \<and> r_esi (regs s3) = 0 \<and> r_edi (regs s3) = 0 \<and>
    words_at (stack s3) (r_esp (regs s3)) (length (return_frames env (pid (tcbs s1 task)) ret_addr)) =
      return_frames env (pid (tcbs s1 task)) ret_addr \<and>
    tss_esp0 (tss (segments s3)) = k \<and> last_pid s1 = pid (tcbs s1 task) + 1"
proof -
  let ?fr = "return_frames env (pid (tcbs s1 task)) ret_addr"
  note stack = task_create_stack [OF assms(1)]
  have "length ?fr \<le> 4" by (simp add: return_frames_def)
  then have sub: "span k (4 * (5 + length ?fr)) \<subseteq> span k 36" unfolding span_def by auto
  have "words_at (stack s3) k (5 + length ?fr) = words_at (stack s1) k (5 + length ?fr)"
  proof (rule words_at_cong)
    fix x assume "x \<in> span k (4 * (5 + length ?fr))"
    with sub assms(6) have "x \<in> span k 36" "x \<notin> span (r_esp (regs s2) - 24) 24" by auto
    then show "stack s3 x = stack s1 x" using assms(4) switch_stack_outside [of x s2 ra' task] by (simp add: assms(7))
  qed
  then have words: "words_at (stack s3) k 5 @ words_at (stack s3) (k + 20) (length ?fr) = [0, 0, 0, 0, task_fn] @ ?fr"
    using stack(1) by (simp add: words_at_add assms(2))
  have k: "kernel_stack_top (tcbs s3 task) = k" using assms(2,3,5) by (simp add: assms(7))
  from switch_registers [of ra' task s2] words stack(2,3) assms(2,3) k show ?thesis
    by (simp add: Let_def assms(7) [symmetric] add.assoc)
qed

section \<open>Properties\<close>

text \<open>C9. A task that gives up the processor gets it back as it was: when the running task switches to
  another one and some later state, in which its control block and the 20 bytes of its saved frame are
  untouched and another task runs on another stack, switches back to it, it continues at the return
  address with its callee-saved registers and its stack pointer, under its own page directory and with
  its own ring 0 stack.\<close>

theorem task_switch_roundtrip:
  assumes "tl_task (CURRENT_TASK s) = a" and "s1 = switch_to ra b s"
    and "tcbs s2 a = tcbs s1 a" and "\<forall>x \<in> span (kernel_stack_top (tcbs s1 a)) 20. stack s2 x = stack s1 x"
    and "tl_task (CURRENT_TASK s2) \<noteq> a"
    and "span (r_esp (regs s2) - 24) 24 \<inter> span (kernel_stack_top (tcbs s1 a)) 20 = {}"
    and "s3 = switch_to ra' a s2"
  shows "same_callee_saved (regs s3) ((regs s)\<lparr>r_esp := r_esp (regs s) - 4\<rparr>) \<and> eip s3 = ra \<and>
    tl_task (CURRENT_TASK s3) = a \<and> int_flag s3 \<and>
    cr3 (paging s3) = virtual_addr_space (tcbs s a) \<and> tss_esp0 (tss (segments s3)) = esp0 (tcbs s a)"
proof -
  have "suspended s1 a ((regs s)\<lparr>r_esp := r_esp (regs s) - 4\<rparr>) ra"
    unfolding assms(2) assms(1) [symmetric] by (rule switch_suspends)
  then have "suspended s2 a ((regs s)\<lparr>r_esp := r_esp (regs s) - 4\<rparr>) ra"
    by (rule suspended_cong) (use assms(3,4) in auto)
  from switch_resumes [OF this assms(5)] assms(3,6) have
    "same_callee_saved (regs s3) ((regs s)\<lparr>r_esp := r_esp (regs s) - 4\<rparr>) \<and> eip s3 = ra"
    by (simp add: assms(7))
  moreover have "tcbs s2 a = (tcbs s a)\<lparr>kernel_stack_top := r_esp (regs s) - 24\<rparr>"
    using assms(1,2,3) by simp
  ultimately show ?thesis using switch_registers [of ra' a s2] by (simp add: assms(7) Let_def)
qed

theorem task_switch_roundtrip_witness:
  "let s1 = switch_to 0xC0106400 0xE0001100 example_state; s3 = switch_to 0xC0106500 0xE0001000 s1
   in eip s3 = 0xC0106400 \<and> r_esp (regs s3) = 0xD000FFFC \<and> tl_task (CURRENT_TASK s3) = 0xE0001000 \<and> cr3 (paging s3) = 0x201000"
proof -
  let ?s1 = "switch_to 0xC0106400 0xE0001100 example_state"
  have sp: "r_esp (regs ?s1) = 0xD0002014" "kernel_stack_top (tcbs ?s1 0xE0001000) = 0xD000FFE8"
    using switch_registers [of "0xC0106400" "0xE0001100" example_state]
    by (simp_all add: Let_def example_state_def example_node_def example_tcb_def)
  have "span (r_esp (regs ?s1) - 24) 24 \<inter> span (kernel_stack_top (tcbs ?s1 0xE0001000)) 20 = {}"
    unfolding sp by (rule span_disjoint) simp_all
  from task_switch_roundtrip [OF _ refl refl _ _ this refl, of "0xC0106500"] show ?thesis
    by (simp add: Let_def same_callee_saved_def example_state_def example_node_def example_tcb_def)
qed

text \<open>A new task starts in its function: the first switch to a task that \<open>task_create\<close> returned
  continues at the task function with zeroed callee-saved registers, and above the stack pointer are
  the extra argument address (if one was given), then \<open>sched_remove\<close>, the halt function and the task's
  identifier: when the function returns, the task removes itself.\<close>

theorem task_create_first_switch:
  assumes "task_create env paging_ctx vmm_ctx task_fn ret_addr user s = ret (task, s1)"
    and "k = kernel_stack_top (tcbs s1 task)"
    and "tcbs s2 task = tcbs s1 task" and "\<forall>x \<in> span k 36. stack s2 x = stack s1 x"
    and "tl_task (CURRENT_TASK s2) \<noteq> task" and "span (r_esp (regs s2) - 24) 24 \<inter> span k 36 = {}"
    and "s3 = switch_to ra' task s2"
  shows "eip s3 = task_fn \<and> r_ebp (regs s3) = 0 \<and> r_ebx (regs s3) = 0 \<and> r_esi (regs s3) = 0 \<and> r_edi (regs s3) = 0 \<and>
    words_at (stack s3) (r_esp (regs s3)) (length (return_frames env (pid (tcbs s1 task)) ret_addr)) =
      return_frames env (pid (tcbs s1 task)) ret_addr \<and>
    tss_esp0 (tss (segments s3)) = k \<and> last_pid s1 = pid (tcbs s1 task) + 1"
  by (rule first_switch [OF assms])

lemma example_stack_pages:
  "\<exists>ctx s1. vmm_map_pages example_meminfo example_space 0 0 KERNEL_STACK_PAGE_COUNT (PAGE_FLAG_PRESENT OR PAGE_FLAG_WRITE)
      (example_state\<lparr>pmm := pm\<rparr>) = ret (0xD8000000, ctx, s1) \<and>
    headers s1 0xE000005C = \<lparr>hdr_size = 0x02FFFF9C, hdr_next = 0\<rparr> \<and> KMALLOC_HEAD s1 = 0xE000005C \<and>
    regs s1 = regs example_state \<and> segments s1 = segments example_state \<and> CURRENT_TASK s1 = CURRENT_TASK example_state \<and> pmm s1 = pm"
  by (simp add: vmm_map_pages_def example_state_def paging_is_aligned_def c_const remove_free_blocks_def find_region.simps
      region_matches_def example_space_def example_vmm_def blank_vmm_def is_addr_ok_for_mode_def is_addr_in_range_def Let_def
      kmallocK_def kmalloc_def kmalloc_loop.simps kmalloc_init_def example_meminfo_def kmalloc_split_def add_allocation_def
      find_parent.simps new_tree_def)

lemma example_alloc_pages:
  assumes "pmm s = \<lparr>MEM_BITMAP = (\<lambda>_. 0)(0 := 1)\<rparr>"
  shows "\<exists>pg pm. for_rangeK 1 KERNEL_STACK_PAGE_COUNT (\<lambda>i s.
          bindK (alloc_page s) (\<lambda>(physical_addr, s').
          ret (s'\<lparr>paging := paging_map_virtual_to_physical mi ctx (b + i * PAGE_SIZE) physical_addr fl (paging s')\<rparr>))) s
     = ret (s\<lparr>pmm := pm, paging := pg\<rparr>)"
  by (simp add: for_rangeK_def upt_rec alloc_page_def pmm_alloc_page_def pmm_alloc_loop.simps alloc_bit_loop.simps c_const assms Let_def) blast

lemma example_alloc_stack:
  "\<exists>ctx s1. alloc_kernel_stack example_env example_ctx example_space example_state = ret (0xD8009FF0, ctx, s1) \<and>
    headers s1 0xE000005C = \<lparr>hdr_size = 0x02FFFF9C, hdr_next = 0\<rparr> \<and> KMALLOC_HEAD s1 = 0xE000005C \<and>
    regs s1 = regs example_state \<and> segments s1 = segments example_state \<and> CURRENT_TASK s1 = CURRENT_TASK example_state"
proof -
  let ?pm = "\<lparr>MEM_BITMAP = (\<lambda>_. 0)(0 := 1)\<rparr> :: pmm_state"
  have pm: "alloc_page example_state = ret (0, example_state\<lparr>pmm := ?pm\<rparr>)"
    by (simp add: alloc_page_def pmm_alloc_page_def pmm_alloc_loop.simps alloc_bit_loop.simps c_const example_state_def empty_bitmap_def Let_def)
  obtain ctx s1 where s1: "vmm_map_pages example_meminfo example_space 0 0 KERNEL_STACK_PAGE_COUNT (PAGE_FLAG_PRESENT OR PAGE_FLAG_WRITE)
      (example_state\<lparr>pmm := ?pm\<rparr>) = ret (0xD8000000, ctx, s1)"
    "headers s1 0xE000005C = \<lparr>hdr_size = 0x02FFFF9C, hdr_next = 0\<rparr>" "KMALLOC_HEAD s1 = 0xE000005C"
    "regs s1 = regs example_state" "segments s1 = segments example_state" "CURRENT_TASK s1 = CURRENT_TASK example_state" "pmm s1 = ?pm"
    using example_stack_pages [of ?pm] by blast
  have top: "0xD8000000 + KERNEL_STACK_SIZE - 16 = 0xD8009FF0" by (simp add: c_const)
  have mi: "KERNEL_MEMINFO example_env = example_meminfo" by (simp add: example_env_def)
  show ?thesis
    using example_alloc_pages [OF s1(7), of example_meminfo example_ctx "0xD8000000" "PAGE_FLAG_PRESENT OR PAGE_FLAG_WRITE"] s1(2-6)
    by (auto simp: alloc_kernel_stack_def pm mi s1(1) top Let_def)
qed

lemma example_task_create:
  "\<exists>s1. task_create example_env example_ctx example_space fn arg False example_state = ret (0xE0000064, s1) \<and>
     kernel_stack_top (tcbs s1 0xE0000064) = (if arg = NULL then 0xD8009FD4 else 0xD8009FD0) \<and>
     regs s1 = regs example_state \<and> segments s1 = segments example_state \<and> CURRENT_TASK s1 = CURRENT_TASK example_state \<and>
     (\<exists>s2. kmallocK 12 s1 = ret (0xE0000090, s2))"
proof -
  obtain ctx s1 where s1: "alloc_kernel_stack example_env example_ctx example_space example_state = ret (0xD8009FF0, ctx, s1)"
    "headers s1 0xE000005C = \<lparr>hdr_size = 0x02FFFF9C, hdr_next = 0\<rparr>" "KMALLOC_HEAD s1 = 0xE000005C"
    "regs s1 = regs example_state" "segments s1 = segments example_state" "CURRENT_TASK s1 = CURRENT_TASK example_state"
    using example_alloc_stack by blast
  show ?thesis
    by (simp add: task_create_def s1 kmallocK_def kmalloc_def kmalloc_loop.simps kmalloc_split_def initial_stack_def push_all_def
        push_uint32_def c_const Let_def)
qed

theorem task_create_first_switch_witness:
  "\<exists>s1. task_create example_env example_ctx example_space 0xC0106300 NULL False example_state = ret (0xE0000064, s1) \<and>
     eip (switch_to 0xC0106400 0xE0000064 s1) = 0xC0106300"
proof -
  obtain s1 where s1: "task_create example_env example_ctx example_space 0xC0106300 NULL False example_state = ret (0xE0000064, s1)"
    "kernel_stack_top (tcbs s1 0xE0000064) = 0xD8009FD4" "regs s1 = regs example_state" "CURRENT_TASK s1 = CURRENT_TASK example_state"
    using example_task_create [of "0xC0106300" NULL] by auto
  have "span (r_esp (regs s1) - 24) 24 \<inter> span 0xD8009FD4 36 = {}"
    by (rule span_disjoint) (simp_all add: s1(3) example_state_def)
  from task_create_first_switch [OF s1(1) s1(2) [symmetric] refl _ _ this refl] s1 show ?thesis
    by (simp add: example_state_def example_node_def)
qed

end
