(* ===== verification/Sched.thy ===== *)
theory Sched
  imports Task
begin

text \<open>
  The scheduler, \<^verbatim>\<open>src/kernel/sched.c\<close>: a circular list of tasks, of which the timer takes the next
  one at every tick.
\<close>

section \<open>Operations\<close>

definition INIT_PID :: u32 where [c_const]: "INIT_PID = 1"

text \<open>\<open>return_addr\<close> is the address of the instruction behind the call of \<^verbatim>\<open>do_task_switch\<close>.\<close>

definition sched_switch_task :: "u32 \<Rightarrow> u32 \<Rightarrow> 'a kernel_state_scheme \<Rightarrow> 'a kernel_state_scheme" where
  "sched_switch_task return_addr next_task s = do_task_switch (call1 return_addr next_task s)"

text \<open>What follows the switch is run when control comes back to the return address.\<close>

definition init_sched ::
  "kernel_env \<Rightarrow> u32 \<Rightarrow> paging_context \<Rightarrow> vmm_context \<Rightarrow> 'a kernel_state_scheme \<Rightarrow> 'a kernel_state_scheme comp" where
  "init_sched env return_addr paging_ctx vmm_ctx s =
     bindK (task_create env paging_ctx vmm_ctx NULL NULL False s) (\<lambda>(task, s1).
     bindK (kmallocK sizeof_task_list s1) (\<lambda>(node, s2).
     let s3 = s2\<lparr>tasks_tail := node, tasks_head := node, tasks_sched_head := node\<rparr>
     in assertK (node \<noteq> NULL) Null_deref
       (let s4 = update_node node (\<lambda>_. \<lparr>tl_task = task, tl_priority = TASK_PRIORITY_LOW, tl_next = node\<rparr>) s3;
            s5 = s4\<lparr>CURRENT_TASK := task_lists s4 node\<rparr>;
            s6 = sched_switch_task return_addr (tl_task (CURRENT_TASK s5)) s5
        in ret (if eip s6 = return_addr then s6\<lparr>SCHED_INIT := True\<rparr> else s6))))"

definition sched_add :: "u32 \<Rightarrow> task_priority \<Rightarrow> 'a kernel_state_scheme \<Rightarrow> 'a kernel_state_scheme comp" where
  "sched_add task prio s =
     bindK (kmallocK sizeof_task_list s) (\<lambda>(new_tasks, s1).
     assertK (new_tasks \<noteq> NULL) Null_deref
    (let s2 = update_node new_tasks (\<lambda>_. \<lparr>tl_task = task, tl_priority = prio, tl_next = tl_next (task_lists s1 (tasks_tail s1))\<rparr>) s1;
         s3 = update_node (tasks_tail s2) (\<lambda>n. n\<lparr>tl_next := new_tasks\<rparr>) s2
     in ret (s3\<lparr>tasks_tail := new_tasks\<rparr>)))"

text \<open>The loop of \<^verbatim>\<open>sched_remove\<close>; it reads the successor of the tail in every round.\<close>

partial_function (option) sched_remove_loop :: "u32 \<Rightarrow> u32 \<Rightarrow> 'a kernel_state_scheme \<Rightarrow> 'a kernel_state_scheme comp" where [code]:
  "sched_remove_loop rpid task s =
     (let prev = task;
          task = tl_next (task_lists s (tasks_tail s))
      in if pid (tcbs s (tl_task (task_lists s task))) = rpid
         then let s1 = update_node prev (\<lambda>n. n\<lparr>tl_next := tl_next (task_lists s task)\<rparr>) s;
                  s2 = (if task = tasks_head s1 then s1\<lparr>tasks_head := tl_next (task_lists s1 task)\<rparr> else s1)
              in ret (kfree task s2)
         else if task \<noteq> tasks_tail s then sched_remove_loop rpid task s
         else fail (Panic ''task %u not found''))"

definition sched_remove :: "u32 \<Rightarrow> 'a kernel_state_scheme \<Rightarrow> 'a kernel_state_scheme comp" where
  "sched_remove rpid s =
     (if rpid = 0 \<or> rpid = INIT_PID then fail (Panic ''cannot remove task (PID=%u)'')
      else let task = tasks_tail s
           in if pid (tcbs s (tl_task (task_lists s task))) = rpid
              then let s1 = s\<lparr>tasks_tail := tl_next (task_lists s (tasks_tail s))\<rparr>;
                       s2 = update_node (tasks_head s1) (\<lambda>n. n\<lparr>tl_next := tasks_tail s1\<rparr>) s1
                   in ret (kfree task s2)
              else sched_remove_loop rpid task s)"

definition sched_context_switch :: "u32 \<Rightarrow> 'a kernel_state_scheme \<Rightarrow> 'a kernel_state_scheme" where
  "sched_context_switch return_addr s =
     (let task = tl_task (task_lists s (tasks_sched_head s));
          s1 = s\<lparr>tasks_sched_head := tl_next (task_lists s (tasks_sched_head s))\<rparr>
      in sched_switch_task return_addr task s1)"

section \<open>The ring of tasks\<close>

abbreviation next_node :: "'a kernel_state_scheme \<Rightarrow> u32 \<Rightarrow> u32" where
  "next_node s \<equiv> tl_next \<circ> task_lists s"

definition ring :: "'a kernel_state_scheme \<Rightarrow> u32 list \<Rightarrow> bool" where
  "ring s xs \<longleftrightarrow> xs \<noteq> [] \<and> distinct xs \<and> path_at (next_node s) (hd xs) xs (hd xs)"

definition ring_tasks :: "'a kernel_state_scheme \<Rightarrow> u32 list \<Rightarrow> u32 list" where
  "ring_tasks s xs = map (\<lambda>x. tl_task (task_lists s x)) xs"

text \<open>The scheduler's data: a ring of live heap blocks from \<open>tasks_head\<close> to \<open>tasks_tail\<close>.\<close>

definition sched_inv :: "'a kernel_state_scheme \<Rightarrow> u32 set \<Rightarrow> u32 list \<Rightarrow> bool" where
  "sched_inv s L xs \<longleftrightarrow> kmalloc_inv s L \<and> set xs \<subseteq> L \<and> ring s xs \<and>
     tasks_head s = hd xs \<and> tasks_tail s = last xs \<and> tasks_sched_head s \<in> set xs"

lemma path_at_next:
  assumes "path_at nxt p xs q" and "i < length xs"
  shows "nxt (xs ! i) = (if Suc i < length xs then xs ! Suc i else q)"
  using assms
proof (induction xs arbitrary: p i)
  case (Cons x xs)
  show ?case
  proof (cases i)
    case 0
    then show ?thesis using Cons.prems by (cases xs) auto
  next
    case (Suc j)
    then show ?thesis using Cons by auto
  qed
qed simp

lemma ring_next:
  assumes "ring s xs" shows "next_node s (xs ! (i mod length xs)) = xs ! (Suc i mod length xs)"
proof -
  have "xs \<noteq> []" "path_at (next_node s) (hd xs) xs (hd xs)" using assms by (auto simp: ring_def)
  moreover from this(1) have "i mod length xs < length xs" by simp
  moreover from this have "Suc (i mod length xs) < length xs \<or> Suc (i mod length xs) = length xs" by linarith
  ultimately show ?thesis
    using path_at_next [of "next_node s" "hd xs" xs "hd xs" "i mod length xs"]
    by (elim disjE) (simp_all add: hd_conv_nth mod_Suc)
qed

lemma ring_last: "ring s xs \<Longrightarrow> tl_next (task_lists s (last xs)) = hd xs"
  using path_at_next [of "next_node s" "hd xs" xs "hd xs" "length xs - 1"]
  by (auto simp: ring_def last_conv_nth)

section \<open>Runs of the scheduler\<close>

text \<open>
  The tasks that the ticks of the timer select, in order; between two ticks the running task may do
  anything that leaves the ring and the position of the scheduler alone.
\<close>

inductive sched_run :: "'a kernel_state_scheme \<Rightarrow> u32 list \<Rightarrow> 'a kernel_state_scheme \<Rightarrow> bool" for s where
  start: "sched_run s [] s"
| tick: "sched_run s ts s' \<Longrightarrow> s'' = sched_context_switch ra s' \<Longrightarrow> sched_run s (ts @ [tl_task (CURRENT_TASK s'')]) s''"
| work: "sched_run s ts s' \<Longrightarrow> task_lists s'' = task_lists s' \<Longrightarrow> tasks_sched_head s'' = tasks_sched_head s' \<Longrightarrow> sched_run s ts s''"

lemma sched_context_switch_simps [simp]:
  "tl_task (CURRENT_TASK (sched_context_switch ra s)) = tl_task (task_lists s (tasks_sched_head s))"
  "task_lists (sched_context_switch ra s) = task_lists s"
  "tasks_sched_head (sched_context_switch ra s) = next_node s (tasks_sched_head s)"
  "tasks_head (sched_context_switch ra s) = tasks_head s" "tasks_tail (sched_context_switch ra s) = tasks_tail s"
  by (simp_all add: sched_context_switch_def sched_switch_task_def Let_def)

lemma sched_run_position:
  assumes "sched_run s ts s'" and "ring s xs" and "tasks_sched_head s = hd xs"
  shows "task_lists s' = task_lists s \<and> tasks_sched_head s' = xs ! (length ts mod length xs) \<and>
    ts = map (\<lambda>i. tl_task (task_lists s (xs ! (i mod length xs)))) [0..<length ts]"
  using assms(1)
proof (induction rule: sched_run.induct)
  case start
  then show ?case using assms(2,3) by (simp add: ring_def hd_conv_nth)
next
  case (tick ts s' s'' ra)
  then show ?case using ring_next [OF assms(2), of "length ts"] by simp
next
  case (work ts s' s'')
  then show ?case by simp
qed

section \<open>Adding and removing tasks\<close>

lemma kmalloc_state_more:
  assumes "kmalloc_state.more s' = kmalloc_state.more (s :: 'a kernel_state_scheme)"
  shows "task_lists s' = task_lists s" "tasks_head s' = tasks_head s" "tasks_tail s' = tasks_tail s" "tasks_sched_head s' = tasks_sched_head s"
    "tcbs s' = tcbs s" "CURRENT_TASK s' = CURRENT_TASK s"
  using assms by (cases s; cases s'; simp)+

lemma kmalloc_inv_heap:
  assumes "headers s' = headers s" "KMALLOC_HEAD s' = KMALLOC_HEAD s" shows "kmalloc_inv s' L = kmalloc_inv s L"
  using assms by (simp add: kmalloc_inv_def heap_inv_def)

lemma kfree_sched [simp]:
  "task_lists (kfree p s) = task_lists s" "tasks_head (kfree p s) = tasks_head s" "tasks_tail (kfree p s) = tasks_tail s"
  "tasks_sched_head (kfree p s) = tasks_sched_head s" "tcbs (kfree p s) = tcbs s"
  "CURRENT_TASK (kfree p s) = CURRENT_TASK s" "eip (kfree p s) = eip s"
  by (simp_all add: kfree_def Let_def)

lemma path_at_relink_last:
  assumes "path_at nxt p (xs @ [x]) q" and "distinct (xs @ [x])" and "z \<notin> set (xs @ [x])" and "z \<noteq> NULL"
  shows "path_at (nxt(z := q, x := z)) p (xs @ [x, z]) q"
  using assms by (auto simp: path_at_append)

lemma sched_add_ring:
  assumes inv: "sched_inv s L xs"
  obtains (full) "sched_add task prio s = fail Null_deref"
  | (added) p s' where "sched_add task prio s = ret s'" "p \<notin> L" "sched_inv s' (insert p L) (xs @ [p])"
      "ring_tasks s' (xs @ [p]) = ring_tasks s xs @ [task]" "tcbs s' = tcbs s"
proof -
  have heap: "kmalloc_inv s L" and sub: "set xs \<subseteq> L" and ring: "ring s xs" using inv by (auto simp: sched_inv_def)
  obtain p s1 where k: "kmalloc sizeof_task_list s = Some (p, s1)" using km.alloc_returns [OF heap] by blast
  note more = kmalloc_state_more [OF kmalloc_frame [OF k]]
  have ok: "kmalloc_size_ok sizeof_task_list" by (simp add: kmalloc_size_ok_def c_const)
  show thesis
  proof (cases "p = NULL")
    case True
    then show thesis using k that(1) by (simp add: sched_add_def kmallocK_def)
  next
    case False
    have fresh: "p \<notin> L" "kmalloc_inv s1 (insert p L)"
      using km.alloc_fresh [OF heap ok k False] km.alloc_inv [OF heap ok k False] by auto
    obtain ys x where xs: "xs = ys @ [x]" using ring by (metis ring_def append_butlast_last_id)
    have x: "tasks_tail s = x" "x \<noteq> p" using inv fresh(1) by (auto simp: sched_inv_def xs)
    let ?s' = "s1\<lparr>task_lists := (task_lists s)(p := \<lparr>tl_task = task, tl_priority = prio, tl_next = hd xs\<rparr>,
        x := (task_lists s x)\<lparr>tl_next := p\<rparr>), tasks_tail := p\<rparr>"
    have add: "sched_add task prio s = ret ?s'"
      using k False x ring_last [OF ring] by (simp add: sched_add_def kmallocK_def more xs Let_def)
    have "next_node ?s' = (next_node s)(p := hd xs, x := p)" using x(2) by (auto simp: fun_eq_iff)
    moreover have "path_at ((next_node s)(p := hd xs, x := p)) (hd xs) (ys @ [x, p]) (hd xs)"
      using ring fresh(1) sub False by (intro path_at_relink_last) (auto simp: ring_def xs)
    moreover have "hd (ys @ [x, p]) = hd xs" by (cases ys) (simp_all add: xs)
    ultimately have "ring ?s' (xs @ [p])" using ring fresh(1) sub by (auto simp: ring_def xs)
    moreover have "kmalloc_inv ?s' (insert p L)" using fresh(2) kmalloc_inv_heap [of ?s' s1] by simp
    ultimately have "sched_inv ?s' (insert p L) (xs @ [p])" using inv sub by (auto simp: sched_inv_def more ring_def)
    moreover have "ring_tasks ?s' (xs @ [p]) = ring_tasks s xs @ [task]"
      using fresh(1) sub x by (auto simp: ring_tasks_def xs)
    ultimately show thesis using that(2) [OF add fresh(1)] more(5) by simp
  qed
qed

text \<open>A task that is neither the first nor the last is never found: the loop does not advance.\<close>

lemma sched_remove_loop_diverges:
  assumes "tl_next (task_lists s (tasks_tail s)) \<noteq> tasks_tail s"
    and "pid (tcbs s (tl_task (task_lists s (tl_next (task_lists s (tasks_tail s)))))) \<noteq> rpid"
  shows "sched_remove_loop rpid task s = None"
proof (rule ccontr)
  assume "sched_remove_loop rpid task s \<noteq> None"
  then obtain r where r: "sched_remove_loop rpid task s = Some r" by auto
  have "\<not> (s' = s \<and> rpid' = rpid)" if "sched_remove_loop rpid' task' s' = Some r'" for rpid' task' s' r'
  proof (rule sched_remove_loop.raw_induct [where P = "\<lambda>rpid' _ s' _. \<not> (s' = s \<and> rpid' = rpid)", OF _ that])
    fix f rpid' task' s' r' assume IH: "\<And>a b c d. f a b c = Some d \<Longrightarrow> \<not> (c = s \<and> a = rpid)" and
      body: "(let prev = task'; task = tl_next (task_lists s' (tasks_tail s'))
        in if pid (tcbs s' (tl_task (task_lists s' task))) = rpid'
           then let s1 = update_node prev (\<lambda>n. n\<lparr>tl_next := tl_next (task_lists s' task)\<rparr>) s';
                    s2 = (if task = tasks_head s1 then s1\<lparr>tasks_head := tl_next (task_lists s1 task)\<rparr> else s1)
                in ret (kfree task s2)
           else if task \<noteq> tasks_tail s' then f rpid' task s' else fail (Panic ''task %u not found'')) = Some r'"
    show "\<not> (s' = s \<and> rpid' = rpid)" using body assms IH [of rpid' "tl_next (task_lists s (tasks_tail s))" s' r'] by (auto simp: Let_def)
  qed
  with r show False by blast
qed

abbreviation pid_of :: "'a kernel_state_scheme \<Rightarrow> u32 \<Rightarrow> u32" where
  "pid_of s x \<equiv> pid (tcbs s (tl_task (task_lists s x)))"

lemma sched_remove_first:
  assumes inv: "sched_inv s L (h # xs)" and xs: "xs \<noteq> []" and rpid: "rpid \<noteq> 0" "rpid \<noteq> INIT_PID"
    and pids: "pid_of s h = rpid" "pid_of s (last xs) \<noteq> rpid"
  shows "\<exists>s'. sched_remove rpid s = ret s' \<and> kmalloc_inv s' (L - {h}) \<and> ring s' xs \<and> ring_tasks s' xs = ring_tasks s xs \<and>
    tasks_head s' = hd xs \<and> tasks_tail s' = last xs \<and> CURRENT_TASK s' = CURRENT_TASK s \<and> eip s' = eip s"
proof -
  have ring: "ring s (h # xs)" and tail: "tasks_tail s = last xs" "tasks_head s = h" and heap: "kmalloc_inv s L" "h \<in> L"
    using inv xs by (auto simp: sched_inv_def)
  obtain ys x where ys: "xs = ys @ [x]" using xs by (metis append_butlast_last_id)
  have lnk: "tl_next (task_lists s x) = h" "tl_next (task_lists s h) = hd xs" "x \<noteq> h"
    using ring ring_last [OF ring] path_at_next [of "next_node s" h "h # xs" h 0] xs
    by (auto simp: ring_def ys hd_conv_nth)
  let ?s1 = "s\<lparr>task_lists := (task_lists s)(x := (task_lists s x)\<lparr>tl_next := hd xs\<rparr>), tasks_head := hd xs\<rparr>"
  have run: "sched_remove rpid s = ret (kfree h ?s1)"
    using rpid pids tail lnk by (simp add: sched_remove_def sched_remove_loop.simps ys Let_def)
  have path: "path_at (next_node s) (hd xs) (ys @ [x]) h" "distinct xs" "h \<notin> set xs"
    using ring lnk(2) xs by (auto simp: ring_def ys)
  then have "path_at ((next_node s)(x := hd xs)) (hd xs) (ys @ [x]) (hd xs)"
    by (auto simp: path_at_append ys)
  moreover have "next_node (kfree h ?s1) = (next_node s)(x := hd xs)" by (auto simp: fun_eq_iff)
  ultimately have "ring (kfree h ?s1) xs" using path(2) xs by (simp add: ring_def ys)
  moreover have "kmalloc_inv (kfree h ?s1) (L - {h})"
    using heap(1) kmalloc_inv_heap [of ?s1 s] by (intro km.release_inv [OF _ heap(2)]) simp
  ultimately show ?thesis using run tail by (auto simp: ring_tasks_def)
qed

lemma sched_remove_last:
  assumes inv: "sched_inv s L (h # xs)" and xs: "xs \<noteq> []" and rpid: "rpid \<noteq> 0" "rpid \<noteq> INIT_PID" and pids: "pid_of s (last xs) = rpid"
  shows "\<exists>s'. sched_remove rpid s = ret s' \<and> kmalloc_inv s' (L - {last xs}) \<and> ring s' [h] \<and> tasks_head s' = h \<and> tasks_tail s' = h \<and>
    CURRENT_TASK s' = CURRENT_TASK s \<and> eip s' = eip s"
proof -
  have ring: "ring s (h # xs)" and tail: "tasks_tail s = last xs" "tasks_head s = h" and heap: "kmalloc_inv s L" "last xs \<in> L"
    using inv xs by (auto simp: sched_inv_def)
  have "h \<noteq> NULL" using ring by (simp add: ring_def)
  moreover have "tl_next (task_lists s (last xs)) = h" using ring_last [OF ring] xs by simp
  moreover have "kmalloc_inv (kfree (last xs) (s\<lparr>tasks_tail := h, task_lists := f\<rparr>)) (L - {last xs})" for f
    using heap(1) kmalloc_inv_heap [of "s\<lparr>tasks_tail := h, task_lists := f\<rparr>" s] by (intro km.release_inv [OF _ heap(2)]) simp
  ultimately show ?thesis using rpid pids tail by (simp add: sched_remove_def Let_def ring_def)
qed

lemma sched_remove_middle:
  assumes "ring s (h # xs)" and "xs \<noteq> []" and "tasks_tail s = last xs" and "rpid \<noteq> 0" and "rpid \<noteq> INIT_PID"
    and "pid_of s h \<noteq> rpid" and "pid_of s (last xs) \<noteq> rpid"
  shows "sched_remove rpid s = None"
proof -
  have "tl_next (task_lists s (last xs)) = h" "h \<noteq> last xs" using ring_last [OF assms(1)] assms(1,2) by (auto simp: ring_def)
  then have "sched_remove_loop rpid (last xs) s = None" using assms(3,6) by (intro sched_remove_loop_diverges) simp_all
  then show ?thesis using assms(3,4,5,7) by (simp add: sched_remove_def Let_def)
qed

section \<open>Properties\<close>

text \<open>The scheduler is round robin: however long the tasks run between the ticks, as long as they
  leave the ring alone the ticks select the tasks of the ring one after the other, over and over, so
  that after as many ticks as there are tasks each of them has run.\<close>

theorem sched_round_robin:
  assumes "ring s xs" and "tasks_sched_head s = hd xs" and "sched_run s ts s'"
  shows "ts = map (\<lambda>i. ring_tasks s xs ! (i mod length xs)) [0..<length ts] \<and>
    (length xs \<le> length ts \<longrightarrow> set (ring_tasks s xs) \<subseteq> set ts)"
proof -
  note run = sched_run_position [OF assms(3,1,2)]
  have xs: "xs \<noteq> []" using assms(1) by (simp add: ring_def)
  then have ts: "ts = map (\<lambda>i. ring_tasks s xs ! (i mod length xs)) [0..<length ts]"
    using run by (simp add: ring_tasks_def)
  moreover have "set (ring_tasks s xs) \<subseteq> set ts" if len: "length xs \<le> length ts"
  proof
    fix t assume "t \<in> set (ring_tasks s xs)"
    then obtain i where i: "i < length xs" "t = ring_tasks s xs ! i"
      unfolding in_set_conv_nth by (auto simp: ring_tasks_def)
    then have "ts ! i = t" using ts len by (metis (no_types, lifting) add_0 mod_less nth_map_upt order_less_le_trans minus_nat.diff_0)
    then show "t \<in> set ts" using i(1) len by (metis nth_mem order_less_le_trans)
  qed
  ultimately show ?thesis by blast
qed

lemma example_ring: "ring example_state [0xE0002000, 0xE0002100, 0xE0002200]"
  by (simp add: ring_def example_state_def example_node_def)

theorem sched_round_robin_witness:
  "\<exists>s'. sched_run example_state [0xE0001000, 0xE0001100, 0xE0001200] s'"
proof -
  let ?s1 = "sched_context_switch 0xC0106400 example_state"
  let ?s2 = "sched_context_switch 0xC0106400 ?s1"
  let ?s3 = "sched_context_switch 0xC0106400 ?s2"
  have run: "sched_run example_state ([] @ [tl_task (CURRENT_TASK ?s1)] @ [tl_task (CURRENT_TASK ?s2)] @ [tl_task (CURRENT_TASK ?s3)]) ?s3"
    using sched_run.tick [OF sched_run.tick [OF sched_run.tick [OF sched_run.start refl] refl] refl] by simp
  moreover have "tasks_sched_head example_state = hd [0xE0002000, 0xE0002100, 0xE0002200]" by (simp add: example_state_def)
  ultimately have "tl_task (CURRENT_TASK ?s1) = 0xE0001000 \<and> tl_task (CURRENT_TASK ?s2) = 0xE0001100 \<and> tl_task (CURRENT_TASK ?s3) = 0xE0001200"
    using sched_round_robin [OF example_ring _ run]
    by (simp add: upt_rec ring_tasks_def del: sched_context_switch_simps) (simp add: example_state_def example_node_def)
  with run show ?thesis by auto
qed

text \<open>C23. \<open>sched_add\<close> keeps the ring: unless the heap is exhausted the new task is the last of the ring
  and the order of the others is kept.\<close>

theorem sched_add_appends:
  assumes "sched_inv s L xs"
  shows "sched_add task prio s = fail Null_deref \<or>
    (\<exists>p s'. sched_add task prio s = ret s' \<and> p \<notin> L \<and> sched_inv s' (insert p L) (xs @ [p]) \<and>
       ring_tasks s' (xs @ [p]) = ring_tasks s xs @ [task])"
  using assms by (cases rule: sched_add_ring [where task = task and prio = prio]) blast+

text \<open>A heap with one block, and with two, that hold the ring.\<close>

definition one_task :: kernel_state where
  "one_task = (snd (the (kmalloc 12 (kmalloc_init example_state))))
     \<lparr>task_lists := (task_lists example_state)(0xE0000008 := example_node 0xE0001000 0xE0000008),
      tasks_head := 0xE0000008, tasks_tail := 0xE0000008, tasks_sched_head := 0xE0000008\<rparr>"

definition two_tasks :: kernel_state where
  "two_tasks = projr (the (sched_add 0xE0001100 TASK_PRIORITY_LOW one_task))"

lemma example_kmalloc:
  "kmalloc 12 (kmalloc_init example_state) = Some (0xE0000008, snd (the (kmalloc 12 (kmalloc_init example_state))))"
  by (simp add: kmalloc_def kmalloc_loop.simps kmalloc_split_def kmalloc_init_def example_state_def example_vmm_def c_const)

lemma one_task_inv: "sched_inv one_task {0xE0000008} [0xE0000008]"
proof -
  have "heap_reach (snd (the (kmalloc 12 (kmalloc_init example_state)))) {0xE0000008}"
    using heap_reach.alloc [OF heap_reach.init _ example_kmalloc] by simp
  from heap_reach_inv [OF this] have "kmalloc_inv one_task {0xE0000008}"
    using kmalloc_inv_heap [of one_task "snd (the (kmalloc 12 (kmalloc_init example_state)))"] by (simp add: one_task_def)
  then show ?thesis by (simp add: sched_inv_def ring_def) (simp add: one_task_def example_node_def)
qed

lemma two_tasks_add: "sched_add 0xE0001100 TASK_PRIORITY_LOW one_task = ret two_tasks"
proof -
  have "\<exists>s. sched_add 0xE0001100 TASK_PRIORITY_LOW one_task = ret s"
    by (simp add: sched_add_def kmallocK_def one_task_def kmalloc_def kmalloc_loop.simps kmalloc_split_def kmalloc_init_def
        example_state_def example_vmm_def c_const Let_def)
  then show ?thesis by (auto simp: two_tasks_def ret_def)
qed

theorem sched_add_appends_witness:
  "\<exists>p. sched_inv two_tasks {p, 0xE0000008} [0xE0000008, p] \<and> ring_tasks two_tasks [0xE0000008, p] = [0xE0001000, 0xE0001100]"
proof -
  have "ring_tasks one_task [0xE0000008] = [0xE0001000]" by (simp add: ring_tasks_def one_task_def example_node_def)
  then show ?thesis using sched_add_appends [OF one_task_inv, of "0xE0001100" TASK_PRIORITY_LOW]
    by (auto simp: two_tasks_add)
qed

lemma two_tasks_inv:
  obtains p where "sched_inv two_tasks {p, 0xE0000008} [0xE0000008, p]" "pid_of two_tasks p = 2" "tcbs two_tasks = tcbs example_state"
proof -
  obtain p where p: "sched_inv two_tasks {p, 0xE0000008} [0xE0000008, p]" "ring_tasks two_tasks [0xE0000008, p] = [0xE0001000, 0xE0001100]"
    and "tcbs two_tasks = tcbs one_task"
    using one_task_inv
  proof (cases rule: sched_add_ring [where task = "0xE0001100" and prio = TASK_PRIORITY_LOW])
    case (added p s')
    then have "s' = two_tasks" by (simp add: two_tasks_add)
    moreover have "ring_tasks one_task [0xE0000008] = [0xE0001000]" by (simp add: ring_tasks_def one_task_def example_node_def)
    ultimately show ?thesis using added that by simp
  qed (simp add: two_tasks_add)
  moreover have "tcbs one_task = tcbs example_state"
    using kmalloc_state_more(5) [OF kmalloc_frame [OF example_kmalloc]] by (simp add: one_task_def kmalloc_init_def)
  ultimately have "tcbs two_tasks = tcbs example_state" by simp
  moreover from this have "pid_of two_tasks p = 2" using p(2) by (simp add: ring_tasks_def example_state_def example_tcb_def)
  ultimately show ?thesis using that p(1) by blast
qed

text \<open>Removing a task from a ring of two or more: removing the first task leaves the others in the
  ring, but removing the last one leaves only the first task in the ring, and all the others are never
  scheduled again.\<close>

theorem sched_remove_effect:
  assumes "sched_inv s L (h # xs)" and "xs \<noteq> []" and "rpid \<noteq> 0" and "rpid \<noteq> INIT_PID"
  shows "(pid_of s h = rpid \<and> pid_of s (last xs) \<noteq> rpid \<longrightarrow>
      (\<exists>s'. sched_remove rpid s = ret s' \<and> kmalloc_inv s' (L - {h}) \<and> ring s' xs \<and> ring_tasks s' xs = ring_tasks s xs \<and>
         tasks_head s' = hd xs \<and> tasks_tail s' = last xs)) \<and>
    (pid_of s (last xs) = rpid \<longrightarrow>
      (\<exists>s'. sched_remove rpid s = ret s' \<and> kmalloc_inv s' (L - {last xs}) \<and> ring s' [h] \<and> tasks_head s' = h \<and> tasks_tail s' = h))"
  using sched_remove_first [OF assms] sched_remove_last [OF assms] by blast

theorem sched_remove_effect_witness:
  "\<exists>s'. sched_remove 2 two_tasks = ret s' \<and> ring s' [0xE0000008] \<and> tasks_tail s' = 0xE0000008"
proof -
  obtain p where p: "sched_inv two_tasks {p, 0xE0000008} [0xE0000008, p]" "pid_of two_tasks p = 2" using two_tasks_inv by blast
  then show ?thesis using sched_remove_effect [OF p(1), of 2] by (auto simp: INIT_PID_def)
qed

text \<open>C25. Removing a task that is neither the first nor the last of the ring never returns.\<close>

theorem sched_remove_middle_diverges:
  assumes "ring s (h # xs)" and "xs \<noteq> []" and "tasks_tail s = last xs" and "rpid \<noteq> 0" and "rpid \<noteq> INIT_PID"
    and "pid_of s h \<noteq> rpid" and "pid_of s (last xs) \<noteq> rpid"
  shows "sched_remove rpid s = None"
  by (rule sched_remove_middle [OF assms])

theorem sched_remove_middle_diverges_witness: "sched_remove 2 (example_state\<lparr>tcbs := (tcbs example_state)(0xE0001000 := example_tcb 7)\<rparr>) = None"
proof -
  let ?s = "example_state\<lparr>tcbs := (tcbs example_state)(0xE0001000 := example_tcb 7)\<rparr>"
  have "ring ?s [0xE0002000, 0xE0002100, 0xE0002200]" using example_ring by (simp add: ring_def)
  from sched_remove_middle_diverges [OF this, of 2] show ?thesis
    by (simp add: INIT_PID_def example_state_def example_node_def example_tcb_def)
qed

text \<open>The scheduler starts with a ring of one task, the one that is running: when \<open>init_sched\<close>
  returns, the switch of the first task to itself has come back to the instruction behind the call with interrupts
  enabled, and the scheduler is marked as initialised.\<close>

theorem init_sched_starts:
  assumes "init_sched env ra paging_ctx vmm_ctx s = ret s'"
  shows "SCHED_INIT s' \<and> int_flag s' \<and> eip s' = ra \<and> ring s' [tasks_head s'] \<and> tasks_tail s' = tasks_head s' \<and>
    tasks_sched_head s' = tasks_head s' \<and> ring_tasks s' [tasks_head s'] = [tl_task (CURRENT_TASK s')]"
proof -
  obtain task s1 node s2 where node: "node \<noteq> NULL" and
    s': "s' = (let s5 = s2\<lparr>tasks_tail := node, tasks_head := node, tasks_sched_head := node,
        task_lists := (task_lists s2)(node := \<lparr>tl_task = task, tl_priority = TASK_PRIORITY_LOW, tl_next = node\<rparr>),
        CURRENT_TASK := \<lparr>tl_task = task, tl_priority = TASK_PRIORITY_LOW, tl_next = node\<rparr>\<rparr>;
        s6 = switch_to ra task s5 in if eip s6 = ra then s6\<lparr>SCHED_INIT := True\<rparr> else s6)"
    using assms by (auto simp: init_sched_def bindK_eq_ret assertK_eq_ret Let_def sched_switch_task_def cong: if_cong)
  define s5 where "s5 = s2\<lparr>tasks_tail := node, tasks_head := node, tasks_sched_head := node,
        task_lists := (task_lists s2)(node := \<lparr>tl_task = task, tl_priority = TASK_PRIORITY_LOW, tl_next = node\<rparr>),
        CURRENT_TASK := \<lparr>tl_task = task, tl_priority = TASK_PRIORITY_LOW, tl_next = node\<rparr>\<rparr>"
  have "tl_task (CURRENT_TASK s5) = task" by (simp add: s5_def)
  with switch_suspends [of ra task s5] switch_registers [of ra task s5]
  have eip: "eip (switch_to ra task s5) = ra" "int_flag (switch_to ra task s5)" by (auto simp: suspended_def Let_def)
  then have "s' = (switch_to ra task s5)\<lparr>SCHED_INIT := True\<rparr>" using s' by (simp add: s5_def [symmetric] Let_def)
  moreover have "task_lists s5 node = \<lparr>tl_task = task, tl_priority = TASK_PRIORITY_LOW, tl_next = node\<rparr>" "tasks_head s5 = node"
    "tasks_tail s5 = node" "tasks_sched_head s5 = node" by (simp_all add: s5_def)
  ultimately show ?thesis using eip node by (simp add: ring_def ring_tasks_def)
qed

theorem init_sched_starts_witness:
  "\<exists>s'. init_sched example_env 0xC0106400 example_ctx example_space example_state = ret s' \<and> SCHED_INIT s' \<and> eip s' = 0xC0106400"
proof -
  have "\<exists>s'. init_sched example_env 0xC0106400 example_ctx example_space example_state = ret s'"
    using example_task_create [of NULL NULL] by (auto simp: init_sched_def c_const Let_def)
  then show ?thesis using init_sched_starts by blast
qed

end
