(* ===== verification/Elf.thy ===== *)
theory Elf
  imports Page_Fault
begin

text \<open>
  Program files: the header parser \<^verbatim>\<open>src/kernel/elf/elf.c\<close> and the loader \<^verbatim>\<open>src/kernel/elf/loader.c\<close>. The file
  is read through pages mapped on demand. \<open>decode_header\<close> is the meaning of the 52 bytes that the
  parser copies into its structure.
\<close>

section \<open>Constants and data\<close>

definition ELF_TYPE_EXEC :: u16 where [c_const]: "ELF_TYPE_EXEC = 2"
definition ELF_MACHINE_386 :: u16 where [c_const]: "ELF_MACHINE_386 = 3"
definition ELF_MAGIC0 :: u8 where [c_const]: "ELF_MAGIC0 = 0x7f"
definition ELF_MAGIC1 :: u8 where [c_const]: "ELF_MAGIC1 = 0x45"
definition ELF_MAGIC2 :: u8 where [c_const]: "ELF_MAGIC2 = 0x4c"
definition ELF_MAGIC3 :: u8 where [c_const]: "ELF_MAGIC3 = 0x46"
definition ELF_CLASS32 :: u8 where [c_const]: "ELF_CLASS32 = 1"
definition ELF_DATA_LSB :: u8 where [c_const]: "ELF_DATA_LSB = 1"
definition ELF_OSABI_NONE :: u8 where [c_const]: "ELF_OSABI_NONE = 0"
definition ELF_IDENT_MAGIC0 :: nat where [c_const]: "ELF_IDENT_MAGIC0 = 0"
definition ELF_IDENT_MAGIC1 :: nat where [c_const]: "ELF_IDENT_MAGIC1 = 1"
definition ELF_IDENT_MAGIC2 :: nat where [c_const]: "ELF_IDENT_MAGIC2 = 2"
definition ELF_IDENT_MAGIC3 :: nat where [c_const]: "ELF_IDENT_MAGIC3 = 3"
definition ELF_IDENT_CLASS :: nat where [c_const]: "ELF_IDENT_CLASS = 4"
definition ELF_IDENT_DATA :: nat where [c_const]: "ELF_IDENT_DATA = 5"
definition ELF_IDENT_OSABI :: nat where [c_const]: "ELF_IDENT_OSABI = 7"
definition ELF_PARSE_ERR_TRUNCATED :: int where [c_const]: "ELF_PARSE_ERR_TRUNCATED = 1"
definition ELF_PARSE_ERR_INV_IDENT :: int where [c_const]: "ELF_PARSE_ERR_INV_IDENT = 2"
definition ELF_PARSE_ERR_INV_TYPE :: int where [c_const]: "ELF_PARSE_ERR_INV_TYPE = 3"
definition ELF_PARSE_ERR_INV_CLASS :: int where [c_const]: "ELF_PARSE_ERR_INV_CLASS = 4"
definition ELF_PARSE_ERR_INV_DATA :: int where [c_const]: "ELF_PARSE_ERR_INV_DATA = 5"
definition ELF_PARSE_ERR_INV_OSABI :: int where [c_const]: "ELF_PARSE_ERR_INV_OSABI = 6"
definition ELF_PARSE_ERR_INV_MACHINE :: int where [c_const]: "ELF_PARSE_ERR_INV_MACHINE = 7"
definition ELF_PROG_HDR_TYPE_NULL :: u32 where [c_const]: "ELF_PROG_HDR_TYPE_NULL = 0"
definition ELF_PROG_HDR_TYPE_LOAD :: u32 where [c_const]: "ELF_PROG_HDR_TYPE_LOAD = 1"
definition ELF_PROG_HDR_FLAG_W :: u32 where [c_const]: "ELF_PROG_HDR_FLAG_W = 2"

record elf32_hdr =
  eh_ident :: "u8 list"
  eh_type :: u16
  eh_machine :: u16
  eh_version :: u32
  eh_entry :: u32
  eh_phoff :: u32
  eh_shoff :: u32
  eh_flags :: u32
  eh_ehsize :: u16
  eh_phentsize :: u16
  eh_phnum :: u16
  eh_shentsize :: u16
  eh_shnum :: u16
  eh_shstrndx :: u16

record elf32_prog_hdr =
  ph_type :: u32
  ph_offset :: u32
  ph_vaddr :: u32
  ph_paddr :: u32
  ph_filesz :: u32
  ph_memsz :: u32
  ph_flags :: u32
  ph_align :: u32

definition sizeof_elf32_hdr :: u32 where [c_const]: "sizeof_elf32_hdr = 52"

text \<open>The structures as little-endian bytes.\<close>

definition decode_header :: "mem \<Rightarrow> u32 \<Rightarrow> elf32_hdr" where
  "decode_header m p =
     \<lparr>eh_ident = map (\<lambda>i. m (p + of_nat i)) [0..<16], eh_type = load_u16 m (p + 16), eh_machine = load_u16 m (p + 18),
      eh_version = load_u32 m (p + 20), eh_entry = load_u32 m (p + 24), eh_phoff = load_u32 m (p + 28),
      eh_shoff = load_u32 m (p + 32), eh_flags = load_u32 m (p + 36), eh_ehsize = load_u16 m (p + 40),
      eh_phentsize = load_u16 m (p + 42), eh_phnum = load_u16 m (p + 44), eh_shentsize = load_u16 m (p + 46),
      eh_shnum = load_u16 m (p + 48), eh_shstrndx = load_u16 m (p + 50)\<rparr>"

definition decode_prog_header :: "mem \<Rightarrow> u32 \<Rightarrow> elf32_prog_hdr" where
  "decode_prog_header m p =
     \<lparr>ph_type = load_u32 m p, ph_offset = load_u32 m (p + 4), ph_vaddr = load_u32 m (p + 8), ph_paddr = load_u32 m (p + 12),
      ph_filesz = load_u32 m (p + 16), ph_memsz = load_u32 m (p + 20), ph_flags = load_u32 m (p + 24), ph_align = load_u32 m (p + 28)\<rparr>"

section \<open>The parser\<close>

text \<open>The checks of \<^verbatim>\<open>elf_parse_header\<close> on the copied header, in the order of the source.\<close>

definition elf_check_header :: "elf32_hdr \<Rightarrow> int" where
  "elf_check_header hdr =
     (let ident = (\<lambda>i. eh_ident hdr ! i)
      in if ident ELF_IDENT_MAGIC0 \<noteq> ELF_MAGIC0 \<or> ident ELF_IDENT_MAGIC1 \<noteq> ELF_MAGIC1 \<or>
            ident ELF_IDENT_MAGIC2 \<noteq> ELF_MAGIC2 \<or> ident ELF_IDENT_MAGIC3 \<noteq> ELF_MAGIC3 then ELF_PARSE_ERR_INV_IDENT
         else if ident ELF_IDENT_CLASS \<noteq> ELF_CLASS32 then ELF_PARSE_ERR_INV_CLASS
         else if ident ELF_IDENT_DATA \<noteq> ELF_DATA_LSB then ELF_PARSE_ERR_INV_DATA
         else if ident ELF_IDENT_OSABI \<noteq> ELF_OSABI_NONE then ELF_PARSE_ERR_INV_OSABI
         else if eh_type hdr \<noteq> ELF_TYPE_EXEC then ELF_PARSE_ERR_INV_TYPE
         else if eh_machine hdr \<noteq> ELF_MACHINE_386 then ELF_PARSE_ERR_INV_MACHINE
         else if eh_machine hdr \<noteq> ELF_MACHINE_386 then ELF_PARSE_ERR_INV_MACHINE
         else 0)"

text \<open>Reading bytes through pages mapped on demand, into a local copy.\<close>

primrec read_bytes :: "kernel_env \<Rightarrow> nat \<Rightarrow> u32 \<Rightarrow> 'a kernel_state_scheme \<Rightarrow> (u8 list \<times> 'a kernel_state_scheme) comp" where
  "read_bytes env 0 va s = ret ([], s)"
| "read_bytes env (Suc n) va s =
     bindK (load_byte env va s) (\<lambda>(v, s1). bindK (read_bytes env n (va + 1) s1) (\<lambda>(vs, s2). ret (v # vs, s2)))"

definition mem_of :: "u8 list \<Rightarrow> mem" where
  "mem_of bs a = (if unat a < length bs then bs ! unat a else 0)"

text \<open>The result code and, when the file is long enough, the header that was copied.\<close>

definition elf_parse_header ::
  "kernel_env \<Rightarrow> u32 \<Rightarrow> u32 \<Rightarrow> elf32_hdr \<Rightarrow> 'a kernel_state_scheme \<Rightarrow> (int \<times> elf32_hdr \<times> 'a kernel_state_scheme) comp" where
  "elf_parse_header env elf len hdr s =
     (if len < sizeof_elf32_hdr then ret (ELF_PARSE_ERR_TRUNCATED, hdr, s)
      else bindK (read_bytes env (unat sizeof_elf32_hdr) elf s) (\<lambda>(bs, s1).
           let hdr' = decode_header (mem_of bs) 0 in ret (elf_check_header hdr', hdr', s1)))"

section \<open>The loader\<close>

definition elf_flags_to_paging_flags :: "u32 \<Rightarrow> u32" where
  "elf_flags_to_paging_flags flags =
     (let pt_flags = 0 in if flags AND ELF_PROG_HDR_FLAG_W \<noteq> 0 then pt_flags OR PAGE_FLAG_WRITE else pt_flags)"

text \<open>
  One round of the loop over the pages of a segment; the file size still to be copied and both
  contexts are part of the loop state. \<^verbatim>\<open>paging_invlpg\<close> only drops a cached translation.
\<close>

definition load_page ::
  "kernel_env \<Rightarrow> paging_context \<Rightarrow> elf32_prog_hdr \<Rightarrow> u32 \<Rightarrow> u32 \<Rightarrow>
     (u32 \<times> vmm_context \<times> vmm_context \<times> 'a kernel_state_scheme) \<Rightarrow>
     (u32 \<times> vmm_context \<times> vmm_context \<times> 'a kernel_state_scheme) comp" where
  "load_page env kern_paging_ctx prog_hdr raw_elf i st =
     (case st of (file_size, kern_vmm_ctx, vmm_ctx, s) \<Rightarrow>
      let virtual_addr = ph_vaddr prog_hdr + i * PAGE_SIZE;
          aligned_vaddr = paging_align_addr virtual_addr
      in bindK (alloc_page s) (\<lambda>(physical_addr, s1).
         let flags = PAGE_FLAG_PRESENT OR PAGE_FLAG_USER OR elf_flags_to_paging_flags (ph_flags prog_hdr)
         in bindK (vmm_map_pages (KERNEL_MEMINFO env) kern_vmm_ctx aligned_vaddr physical_addr 1 flags s1) (\<lambda>(_, kern_vmm_ctx1, s2).
            bindK (memcpyK env virtual_addr (raw_elf + ph_offset prog_hdr + i * PAGE_SIZE) file_size s2) (\<lambda>s3.
            bindK (vmm_map_pages (KERNEL_MEMINFO env) vmm_ctx aligned_vaddr physical_addr 1 flags s3) (\<lambda>(_, vmm_ctx1, s4).
            bindK (if file_size < PAGE_SIZE \<and> ph_memsz prog_hdr > ph_filesz prog_hdr
                   then memsetK env (virtual_addr + file_size) 0 (ph_memsz prog_hdr - ph_filesz prog_hdr) s4
                   else ret s4) (\<lambda>s5.
            let file_size1 = (if file_size < PAGE_SIZE then file_size else file_size - PAGE_SIZE)
            in bindK (vmm_unmap_pages (KERNEL_MEMINFO env) kern_vmm_ctx1 aligned_vaddr 1 s5) (\<lambda>(kern_vmm_ctx2, s6).
               let s7 = s6\<lparr>paging := paging_unmap_addr (KERNEL_MEMINFO env) kern_paging_ctx aligned_vaddr (paging s6)\<rparr>
               in ret (file_size1, kern_vmm_ctx2, vmm_ctx1, s7))))))))"

definition handle_loadable_segment ::
  "kernel_env \<Rightarrow> paging_context \<Rightarrow> vmm_context \<Rightarrow> vmm_context \<Rightarrow> elf32_prog_hdr \<Rightarrow> u32 \<Rightarrow> 'a kernel_state_scheme \<Rightarrow>
     (vmm_context \<times> vmm_context \<times> 'a kernel_state_scheme) comp" where
  "handle_loadable_segment env kern_paging_ctx kern_vmm_ctx vmm_ctx prog_hdr raw_elf s =
     (let sz = (if ph_filesz prog_hdr > ph_memsz prog_hdr then ph_filesz prog_hdr else ph_memsz prog_hdr);
          file_size = ph_filesz prog_hdr;
          page_count = paging_page_count sz
      in bindK (for_rangeK 0 page_count (load_page env kern_paging_ctx prog_hdr raw_elf) (file_size, kern_vmm_ctx, vmm_ctx, s))
           (\<lambda>(_, kern_vmm_ctx1, vmm_ctx1, s1). ret (kern_vmm_ctx1, vmm_ctx1, s1)))"

text \<open>The loop over the program headers; a NULL header ends it.\<close>

function elf_load_loop ::
  "kernel_env \<Rightarrow> paging_context \<Rightarrow> elf32_hdr \<Rightarrow> u32 \<Rightarrow> u32 \<Rightarrow> vmm_context \<Rightarrow> vmm_context \<Rightarrow> 'a kernel_state_scheme \<Rightarrow>
     (vmm_context \<times> vmm_context \<times> 'a kernel_state_scheme) comp" where
  "elf_load_loop env kern_paging_ctx header raw_elf i kern_vmm_ctx vmm_ctx s =
     (if i < ucast (eh_phnum header)
      then let prog_header_offset = eh_phoff header + i * ucast (eh_phentsize header)
           in bindK (read_bytes env 32 (raw_elf + prog_header_offset) s) (\<lambda>(bs, s1).
              let prog_hdr = decode_prog_header (mem_of bs) 0
              in if ph_type prog_hdr = ELF_PROG_HDR_TYPE_NULL then ret (kern_vmm_ctx, vmm_ctx, s1)
                 else if ph_type prog_hdr = ELF_PROG_HDR_TYPE_LOAD
                 then bindK (handle_loadable_segment env kern_paging_ctx kern_vmm_ctx vmm_ctx prog_hdr raw_elf s1)
                        (\<lambda>(kern_vmm_ctx1, vmm_ctx1, s2).
                           elf_load_loop env kern_paging_ctx header raw_elf (i + 1) kern_vmm_ctx1 vmm_ctx1 s2)
                 else fail (Panic ''unsupported program header type %d''))
      else ret (kern_vmm_ctx, vmm_ctx, s))"
  by pat_completeness auto

termination
  by (relation "measure (\<lambda>(env, pctx, header, raw, i, k, v, s). unat (ucast (eh_phnum header) :: u32) - unat i)")
    (auto simp: unat_Suc_less word_less_nat_alt)

declare elf_load_loop.simps [simp del]

definition elf_load ::
  "kernel_env \<Rightarrow> paging_context \<Rightarrow> vmm_context \<Rightarrow> vmm_context \<Rightarrow> elf32_hdr \<Rightarrow> u32 \<Rightarrow> 'a kernel_state_scheme \<Rightarrow>
     (vmm_context \<times> vmm_context \<times> 'a kernel_state_scheme) comp" where
  "elf_load env kern_paging_ctx kern_vmm_ctx vmm_ctx header raw_elf s =
     elf_load_loop env kern_paging_ctx header raw_elf 0 kern_vmm_ctx vmm_ctx s"

section \<open>What the parser accepts\<close>

text \<open>The files that are accepted, by the bytes of the file: a 32-bit little-endian executable for the 386.\<close>

definition valid_elf :: "u8 list \<Rightarrow> bool" where
  "valid_elf bs \<longleftrightarrow> take 4 bs = [0x7f, 0x45, 0x4c, 0x46] \<and> bs ! 4 = 1 \<and> bs ! 5 = 1 \<and> bs ! 7 = 0 \<and>
     bs ! 16 = 2 \<and> bs ! 17 = 0 \<and> bs ! 18 = 3 \<and> bs ! 19 = 0"

lemma load_u16_unat: "unat (load_u16 m a) = unat (m a) + 256 * unat (m (a + 1))"
proof -
  have "(ucast (m a) :: u16) + push_bit 8 (ucast (m (a + 1))) = load_u16 m a"
    unfolding load_u16_def by (rule disjunctive_add) (auto simp: bit_simps dest: bit_imp_le_length)
  moreover have lo: "unat (ucast (m x) :: u16) = unat (m x)" for x
    using unat_byte_less [of "m x"] by (simp add: unsigned_ucast_eq take_bit_nat_eq_self)
  moreover have "unat (push_bit 8 (ucast (m (a + 1))) :: u16) = 256 * unat (m (a + 1))"
    using lo [of "a + 1"] unat_byte_less [of "m (a + 1)"] by (simp add: push_bit_eq_mult unat_word_ariths mult.commute)
  ultimately show ?thesis
    using unat_word_ariths(1) [of "ucast (m a) :: u16" "push_bit 8 (ucast (m (a + 1)))"]
      unat_byte_less [of "m a"] unat_byte_less [of "m (a + 1)"] by simp
qed

lemma load_u16_iff:
  assumes "unat v < 256" shows "load_u16 m a = v \<longleftrightarrow> unat (m a) = unat v \<and> m (a + 1) = 0"
proof -
  have "load_u16 m a = v \<longleftrightarrow> unat (m a) + 256 * unat (m (a + 1)) = unat v" by (simp add: word_unat_eq_iff load_u16_unat)
  also have "\<dots> \<longleftrightarrow> unat (m a) = unat v \<and> unat (m (a + 1)) = 0"
    using assms by (cases "unat (m (a + 1))") simp_all
  finally show ?thesis by (simp add: unat_eq_zero)
qed

lemma elf_check_header_valid:
  assumes "length bs = 52" shows "elf_check_header (decode_header (mem_of bs) 0) = 0 \<longleftrightarrow> valid_elf bs"
proof -
  have b: "mem_of bs (of_nat i) = bs ! i" if "i < 52" for i using that assms by (simp add: mem_of_def unat_of_nat)
  have ident: "mem_of bs 0 = bs ! 0" "mem_of bs 1 = bs ! 1" "mem_of bs 2 = bs ! 2" "mem_of bs 3 = bs ! 3"
      "mem_of bs 4 = bs ! 4" "mem_of bs 5 = bs ! 5" "mem_of bs 7 = bs ! 7"
    using b [of 0] b [of 1] b [of 2] b [of 3] b [of 4] b [of 5] b [of 7] by simp_all
  have half: "load_u16 (mem_of bs) 16 = 2 \<longleftrightarrow> bs ! 16 = 2 \<and> bs ! 17 = 0"
      "load_u16 (mem_of bs) 18 = 3 \<longleftrightarrow> bs ! 18 = 3 \<and> bs ! 19 = 0"
    using b [of 16] b [of 17] b [of 18] b [of 19]
    by (simp_all add: load_u16_iff word_unat_eq_iff [of "bs ! 16"] word_unat_eq_iff [of "bs ! 18"])
  have four: "take 4 bs = [bs ! 0, bs ! 1, bs ! 2, bs ! 3]"
    using assms by (simp add: numeral_eq_Suc take_Suc_conv_app_nth)
  show ?thesis
    by (auto simp add: elf_check_header_def decode_header_def valid_elf_def four ident half c_const Let_def)
qed

lemma load_byte_mapped: "translate env s va = Some (pa, fl) \<Longrightarrow> load_byte env va s = ret (frames s pa, s)"
  by (simp add: load_byte_def touch_mapped)

lemma read_bytes_mapped:
  assumes "\<forall>i < n. translate env s (va + of_nat i) = Some (P i, fl)"
  shows "read_bytes env n va s = ret (map (\<lambda>i. frames s (P i)) [0..<n], s)"
  using assms
proof (induction n arbitrary: va P)
  case (Suc n)
  have "translate env s va = Some (P 0, fl)" using Suc.prems [rule_format, of 0] by simp
  moreover have "read_bytes env n (va + 1) s = ret (map (\<lambda>i. frames s (P (Suc i))) [0..<n], s)"
    using Suc.prems by (intro Suc.IH) (auto simp: add.assoc)
  ultimately show ?case by (simp add: load_byte_mapped map_upt_Suc del: upt_Suc)
qed simp

text \<open>The bytes of a file in one page that is mapped at the first access.\<close>

lemma same_page_offset:
  fixes va :: u32
  assumes "unat va mod 4096 + n \<le> 4096" and "i < n" shows "unat (va + of_nat i) div 4096 = unat va div 4096"
proof -
  define q where "q = unat va div 4096"
  have q: "unat va = 4096 * q + unat va mod 4096" by (simp add: q_def)
  moreover have i: "unat va mod 4096 + i < 4096" using assms by simp
  moreover have "q < 1048576" using unat_u32_less [of va] by (simp add: q_def less_mult_imp_div_less)
  ultimately have "unat va + i < 4294967296" by linarith
  then have "unat (va + of_nat i) = unat va + i" using i by (simp add: unat_word_ariths unat_of_nat)
  moreover have "(unat va + i) div 4096 = q" by (rule div_nat_eqI) (use q i in simp_all)
  ultimately show ?thesis by (simp add: q_def)
qed

lemma read_bytes_on_demand:
  assumes "touch env kernel_int 0 va s = ret (P 0, s')" and "\<forall>i < Suc n. translate env s' (va + of_nat i) = Some (P i, fl)"
  shows "read_bytes env (Suc n) va s = ret (map (\<lambda>i. frames s' (P i)) [0..<Suc n], s')"
proof -
  have "read_bytes env n (va + 1) s' = ret (map (\<lambda>i. frames s' (P (Suc i))) [0..<n], s')"
    using assms(2) by (intro read_bytes_mapped) (auto simp: add.assoc)
  then show ?thesis using assms(1) by (simp add: load_byte_def map_upt_Suc del: upt_Suc)
qed

text \<open>C28. The parser accepts exactly the 32-bit little-endian executables for the 386. For a file of which
  the first 52 bytes are in one page of an allocation of the running task, not accessed yet, it reads the
  bytes of the frame behind that page, whatever they are; a file shorter than a header is refused without
  being read.\<close>

theorem elf_parse_header_valid:
  assumes "space_inv (current_space s) A" and "a \<in> A" and "unat elf \<in> interval a" and "translate env s elf = None"
    and "ctx_ok (KERNEL_MEMINFO env) (tcb_paging_ctx (current s))" and "is_flags (al_flags a)" and "al_flags a AND PAGE_FLAG_PRESENT \<noteq> 0"
    and "if al_physical_addr a \<noteq> 0 then pa = al_physical_addr a \<and> pm = pmm s else pmm_alloc_page (pmm s) = ret (pa, pm)"
    and "unat elf mod 4096 + 52 \<le> 4096"
    and "bs = map (\<lambda>i. frames s (push_bit 12 (drop_bit 12 pa) OR ((elf + of_nat i) AND 0xfff))) [0..<52]"
  shows "if len < 52 then elf_parse_header env elf len hdr s = ret (ELF_PARSE_ERR_TRUNCATED, hdr, s)
    else \<exists>res hdr' s'. elf_parse_header env elf len hdr s = ret (res, hdr', s') \<and> (res = 0 \<longleftrightarrow> valid_elf bs) \<and>
      hdr' = decode_header (mem_of bs) 0 \<and> frames s' = frames s \<and> CURRENT_TASK s' = CURRENT_TASK s"
proof -
  have P: "0 AND PAGING_ERR_CODE_P = 0" by simp
  obtain msgs s' where s': "s' = s\<lparr>pmm := pm, paging := paging_map_virtual_to_physical (KERNEL_MEMINFO env) (tcb_paging_ctx (current s))
        (paging_align_addr elf) pa (al_flags a) (paging s), io := msgs\<rparr>"
      and t: "touch env kernel_int 0 elf s = ret (push_bit 12 (drop_bit 12 pa) OR (elf AND 0xfff), s')"
      and page: "\<And>x. unat x div 4096 = unat elf div 4096 \<Longrightarrow> translate env s' x = Some (push_bit 12 (drop_bit 12 pa) OR (x AND 0xfff), al_flags a)"
    using touch_faults [OF assms(1-4) P assms(5-8)] by blast
  have "read_bytes env (Suc 51) elf s = ret (bs, s')"
    using read_bytes_on_demand [of env elf s "\<lambda>i. push_bit 12 (drop_bit 12 pa) OR ((elf + of_nat i) AND 0xfff)" s' 51 "al_flags a"]
      t page same_page_offset [OF assms(9)] by (simp add: s' assms(10) del: upt_Suc)
  then have "read_bytes env 52 elf s = ret (bs, s')" by (simp only: numeral_eq_Suc pred_numeral_simps BitM.simps)
  then show ?thesis using elf_check_header_valid [of bs]
    by (simp add: elf_parse_header_def c_const Let_def s' assms(10) del: upt_Suc)
qed

definition example_elf :: "u8 list" where
  "example_elf = [0x7f, 0x45, 0x4c, 0x46, 1, 1, 1, 0] @ replicate 8 0 @ [2, 0, 3, 0, 1, 0, 0, 0, 0x34, 0x12] @ replicate 26 0"

lemma example_elf_bytes:
  "map (\<lambda>i. mem_of example_elf ((0x900000 OR ((0x400000 + of_nat i) AND 0xfff)) - 0x900000)) [0..<52] = example_elf"
  by code_simp

theorem elf_parse_header_valid_witness:
  "\<exists>hdr' s'. elf_parse_header example_env 0x400000 1024 (decode_header (mem_of []) 0)
       (example_state\<lparr>frames := \<lambda>a. mem_of example_elf (a - 0x900000)\<rparr>) = ret (0, hdr', s') \<and> eh_entry hdr' = 0x1234"
proof -
  let ?s = "example_state\<lparr>frames := \<lambda>a. mem_of example_elf (a - 0x900000)\<rparr>"
  have inv: "space_inv (current_space ?s) {allocation 0x400000 0x900000 2 7}"
    using example_fault_space space_inv_cong [of ?s example_state] by simp
  have none: "translate example_env ?s 0x400000 = None" by (simp add: translate_def page_walk_def example_state_def empty_paging_def)
  have ctx: "ctx_ok (KERNEL_MEMINFO example_env) (tcb_paging_ctx (current ?s))" using example_fault_ctx by simp
  have valid: "valid_elf example_elf" and entry: "eh_entry (decode_header (mem_of example_elf) 0) = 0x1234" by code_simp+
  have frame: "push_bit 12 (drop_bit 12 0x900000 :: u32) = 0x900000" by simp
  from elf_parse_header_valid [OF inv _ _ none ctx, of "allocation 0x400000 0x900000 2 7" "0x900000" "pmm ?s" example_elf 1024 "decode_header (mem_of []) 0"]
  show ?thesis using valid entry by (auto simp: interval_def is_flags_def c_const frame example_elf_bytes simp del: upt_Suc)
qed

end
