(* ===== verification/Init_Task.thy ===== *)
theory Init_Task
  imports Sched Elf
begin

text \<open>
  User tasks, \<^verbatim>\<open>src/kernel/init.c\<close>, and the system calls of \<^verbatim>\<open>src/kernel/syscall\<close>. The address space structures
  are passed by value in the source: a callee's change of its copy is lost, a change of the list and
  tree nodes is not.
\<close>

section \<open>Creating user tasks\<close>

definition map_user_stack ::
  "kernel_env \<Rightarrow> u32 \<Rightarrow> vmm_context \<times> 'a kernel_state_scheme \<Rightarrow> (vmm_context \<times> 'a kernel_state_scheme) comp" where
  "map_user_stack env i st =
     (case st of (vmm_ctx, s) \<Rightarrow>
      bindK (alloc_page s) (\<lambda>(physical_addr, s1).
      bindK (vmm_map_pages (KERNEL_MEMINFO env) vmm_ctx (USER_STACK_TOP - USER_STACK_SIZE + i * PAGE_SIZE) physical_addr 1
               (PAGE_FLAG_PRESENT OR PAGE_FLAG_WRITE OR PAGE_FLAG_USER) s1) (\<lambda>(_, vmm_ctx1, s2). ret (vmm_ctx1, s2))))"

text \<open>\<open>header0\<close> is what the uninitialised local header holds.\<close>

definition init_create_user_task ::
  "kernel_env \<Rightarrow> elf32_hdr \<Rightarrow> paging_context \<Rightarrow> vmm_context \<Rightarrow> u32 \<Rightarrow> u32 \<Rightarrow> 'a kernel_state_scheme \<Rightarrow> (u32 \<times> 'a kernel_state_scheme) comp" where
  "init_create_user_task env header0 kern_paging_ctx kern_vmm_ctx user_elf_physical_addr parent_task s =
     bindK (vmm_map_pages (KERNEL_MEMINFO env) kern_vmm_ctx 0 user_elf_physical_addr 1 (PAGE_FLAG_PRESENT OR PAGE_FLAG_WRITE) s)
       (\<lambda>(user_elf, kern_vmm_ctx1, s1).
     let file_len = 1024
     in bindK (elf_parse_header env user_elf file_len header0 s1) (\<lambda>(res, header, s2).
        assertK (res = 0) (Panic (line ''failed to parse ELF: %d %u''))
       (bindK (task_create env kern_paging_ctx kern_vmm_ctx1 (fn_init_goto_user_mode env) (eh_entry header) True s2) (\<lambda>(task, s3).
        let s4 = update_tcb task (\<lambda>t. t\<lparr>parent := parent_task\<rparr>) s3
        in bindK (vmm_clone_context kern_vmm_ctx1 s4) (\<lambda>(vmm_ctx, s5).
           bindK (elf_load env kern_paging_ctx kern_vmm_ctx1 vmm_ctx header user_elf s5) (\<lambda>(_, vmm_ctx1, s6).
           bindK (for_rangeK 0 USER_STACK_PAGE_COUNT (map_user_stack env) (vmm_ctx1, s6)) (\<lambda>(vmm_ctx2, s7).
           ret (task, update_tcb task (\<lambda>t. t\<lparr>tcb_vmm_context := vmm_ctx2\<rparr>) s7))))))))"

definition init_create_task0 ::
  "kernel_env \<Rightarrow> elf32_hdr \<Rightarrow> paging_context \<Rightarrow> vmm_context \<Rightarrow> u32 \<Rightarrow> 'a kernel_state_scheme \<Rightarrow> (u32 \<times> 'a kernel_state_scheme) comp" where
  "init_create_task0 env header0 kern_paging_ctx kern_vmm_ctx user_elf_physical_addr s =
     bindK (init_create_user_task env header0 kern_paging_ctx kern_vmm_ctx user_elf_physical_addr NULL s) (\<lambda>(task, s1).
     assertK (pid (tcbs s1 task) = INIT_PID) (Panic ''invalid PID for init task: %u'') (ret (task, s1)))"

section \<open>System calls\<close>

definition SYS_EXIT :: u32 where [c_const]: "SYS_EXIT = 1"
definition SYS_FORK :: u32 where [c_const]: "SYS_FORK = 2"

definition sys_exit :: "registers \<Rightarrow> 'a kernel_state_scheme \<Rightarrow> 'a kernel_state_scheme comp" where
  "sys_exit r s =
     (let cpid = pid (current s)
      in assertK (parent (current s) \<noteq> NULL) (Panic ''init task exited'')
        (bindK (sched_remove cpid s) (\<lambda>s1.
         ret (printk_debugK (line ''task %u exited with status %#x'') [n32 cpid, n32 (r_ebx r)] s1))))"

definition sys_fork :: "registers \<Rightarrow> registers" where
  "sys_fork r = r\<lparr>r_eax := 0xbeef\<rparr>"

text \<open>The saved registers that the handler gets by reference are returned.\<close>

definition syscall_handler :: "interrupt_state \<Rightarrow> registers \<Rightarrow> 'a kernel_state_scheme \<Rightarrow> (registers \<times> 'a kernel_state_scheme) comp" where
  "syscall_handler state r s =
     (let syscall_num = r_eax r;
          s1 = printk_debugK (line ''handling syscall (eflags=%#x, cs=%d, eip=%d, syscall=%d)'')
                 [n32 (is_eflags state), n32 (is_cs state), n32 (is_eip state), n32 syscall_num] s;
          s2 = printk_debugK (line ''registers eax=%#x ebx=%#x ecx=%#x edx=%#x esi=%#x edi=%#x'')
                 [n32 (r_eax r), n32 (r_ebx r), n32 (r_ecx r), n32 (r_edx r), n32 (r_esi r), n32 (r_edi r)] s1
      in if syscall_num = SYS_EXIT then bindK (sys_exit r s2) (\<lambda>s3. ret (r, s3))
         else if syscall_num = SYS_FORK then ret (sys_fork r, s2)
         else fail (Panic ''unknown syscall %d''))"

section \<open>Interrupts\<close>

definition default_exception_handler :: "interrupt_state \<Rightarrow> 'a comp" where
  "default_exception_handler state = fail (Panic (line ''received interrupt (eflags=%#x, cs=%d, eip=%d)''))"

definition timer_irq_handler :: "u32 \<Rightarrow> 'a kernel_state_scheme \<Rightarrow> 'a kernel_state_scheme" where
  "timer_irq_handler return_addr s =
     (let s1 = s\<lparr>io := pic_send_eoi PIC_IRQ0 (io s)\<rparr>
      in if SCHED_INIT s1 then sched_context_switch return_addr s1 else s1)"

definition keyboard_irq_handler :: "kernel_env \<Rightarrow> 'a kernel_state_scheme \<Rightarrow> 'a kernel_state_scheme" where
  "keyboard_irq_handler env s =
     (let (q, io') = ps2_handle_irq1 (devices env) (scancode_queue_ctx s) (io s)
      in s\<lparr>scancode_queue_ctx := q, io := io'\<rparr>)"

definition page_fault_exception_handler ::
  "kernel_env \<Rightarrow> interrupt_state \<Rightarrow> u32 \<Rightarrow> u32 \<Rightarrow> 'a kernel_state_scheme \<Rightarrow> 'a kernel_state_scheme comp" where
  "page_fault_exception_handler env state err_code cr2 s = page_fault_handler env state err_code cr2 s"

section \<open>Properties\<close>

lemma printk_debugK_io: "\<exists>msgs. printk_debugK f a s = s\<lparr>io := msgs\<rparr>"
  by (auto simp: printk_debugK_def)

lemma sched_inv_io: "sched_inv (s\<lparr>io := x\<rparr>) L xs \<longleftrightarrow> sched_inv s L xs"
  using kmalloc_inv_heap [of "s\<lparr>io := x\<rparr>" s] by (simp add: sched_inv_def ring_def)

lemma ring_io [simp]: "ring (s\<lparr>io := x\<rparr>) xs \<longleftrightarrow> ring s xs" "ring_tasks (s\<lparr>io := x\<rparr>) xs = ring_tasks s xs"
  by (simp_all add: ring_def ring_tasks_def)

text \<open>The handler up to the choice of the call.\<close>

lemma syscall_handler_io:
  "\<exists>msgs. syscall_handler state r s =
    (if r_eax r = SYS_EXIT then bindK (sys_exit r (s\<lparr>io := msgs\<rparr>)) (\<lambda>s3. ret (r, s3))
     else if r_eax r = SYS_FORK then ret (sys_fork r, s\<lparr>io := msgs\<rparr>) else fail (Panic ''unknown syscall %d''))"
proof -
  have "\<exists>msgs. printk_debugK g b (printk_debugK f a s) = s\<lparr>io := msgs\<rparr>" for f a g b
    by (auto simp: printk_debugK_def)
  from this [of "line ''registers eax=%#x ebx=%#x ecx=%#x edx=%#x esi=%#x edi=%#x''"
      "[n32 (r_eax r), n32 (r_ebx r), n32 (r_ecx r), n32 (r_edx r), n32 (r_esi r), n32 (r_edi r)]"
      "line ''handling syscall (eflags=%#x, cs=%d, eip=%d, syscall=%d)''"
      "[n32 (is_eflags state), n32 (is_cs state), n32 (is_eip state), n32 (r_eax r)]"]
  show ?thesis by (elim exE, intro exI) (simp only: syscall_handler_def Let_def)
qed

text \<open>The system calls that the kernel refuses or answers at once: the exit of a task without a
  parent and every unknown number end in a panic, and a fork only stores 0xbeef in the caller's \<^verbatim>\<open>eax\<close>,
  so that no task is created.\<close>

theorem syscall_handler_cases:
  "(r_eax r = SYS_EXIT \<and> parent (current s) = NULL \<longrightarrow> syscall_handler state r s = fail (Panic ''init task exited'')) \<and>
   (r_eax r = SYS_FORK \<longrightarrow> (\<exists>msgs. syscall_handler state r s = ret (r\<lparr>r_eax := 0xbeef\<rparr>, s\<lparr>io := msgs\<rparr>))) \<and>
   (r_eax r \<noteq> SYS_EXIT \<and> r_eax r \<noteq> SYS_FORK \<longrightarrow> syscall_handler state r s = fail (Panic ''unknown syscall %d''))"
proof -
  obtain msgs where h: "syscall_handler state r s =
    (if r_eax r = SYS_EXIT then bindK (sys_exit r (s\<lparr>io := msgs\<rparr>)) (\<lambda>s3. ret (r, s3))
     else if r_eax r = SYS_FORK then ret (sys_fork r, s\<lparr>io := msgs\<rparr>) else fail (Panic ''unknown syscall %d''))"
    using syscall_handler_io by blast
  show ?thesis unfolding h by (auto simp: sys_exit_def sys_fork_def c_const Let_def)
qed

theorem syscall_handler_cases_witness:
  "syscall_handler kernel_int zero_registers example_state = fail (Panic ''unknown syscall %d'') \<and>
   (\<exists>msgs. syscall_handler kernel_int (zero_registers\<lparr>r_eax := 2\<rparr>) example_state =
      ret (zero_registers\<lparr>r_eax := 0xbeef\<rparr>, example_state\<lparr>io := msgs\<rparr>))"
  using syscall_handler_cases [of zero_registers example_state kernel_int]
    syscall_handler_cases [of "zero_registers\<lparr>r_eax := 2\<rparr>" example_state kernel_int]
  by (simp add: c_const zero_registers_def)

text \<open>C24. The exit of a task with a parent, by its place in the ring: the first task leaves the ring and
  the others stay, the last one takes all but the first with it, and for every other task the call never
  returns. Where the call returns, it returns to the task that asked to exit, which is still the current one.\<close>

theorem syscall_exit_effect:
  assumes "sched_inv s L (h # xs)" and "xs \<noteq> []" and "r_eax r = SYS_EXIT" and "parent (current s) \<noteq> NULL"
    and "rpid = pid (current s)" and "rpid \<noteq> 0" and "rpid \<noteq> INIT_PID"
  shows "if pid_of s (last xs) = rpid
    then \<exists>s'. syscall_handler state r s = ret (r, s') \<and> ring s' [h] \<and> CURRENT_TASK s' = CURRENT_TASK s \<and> eip s' = eip s
    else if pid_of s h = rpid
    then \<exists>s'. syscall_handler state r s = ret (r, s') \<and> ring s' xs \<and> ring_tasks s' xs = ring_tasks s xs \<and>
      CURRENT_TASK s' = CURRENT_TASK s \<and> eip s' = eip s
    else syscall_handler state r s = None"
proof -
  obtain msgs where h: "syscall_handler state r s = bindK (sys_exit r (s\<lparr>io := msgs\<rparr>)) (\<lambda>s3. ret (r, s3))"
    using syscall_handler_io [of state r s] by (auto simp: assms(3))
  let ?s = "s\<lparr>io := msgs\<rparr>"
  have inv: "sched_inv ?s L (h # xs)" using assms(1) by (simp add: sched_inv_io)
  have exit: "\<exists>m. syscall_handler state r s = ret (r, s1\<lparr>io := m\<rparr>)" if "sched_remove rpid ?s = ret s1" for s1
    using that assms(4,5) unfolding h by (auto simp: sys_exit_def printk_debugK_def Let_def)
  consider "pid_of s (last xs) = rpid" | "pid_of s (last xs) \<noteq> rpid" "pid_of s h = rpid"
    | "pid_of s (last xs) \<noteq> rpid" "pid_of s h \<noteq> rpid" by blast
  then show ?thesis
  proof cases
    case 1
    then obtain s1 where "sched_remove rpid ?s = ret s1" "ring s1 [h]" "CURRENT_TASK s1 = CURRENT_TASK s" "eip s1 = eip s"
      using sched_remove_last [OF inv assms(2,6,7)] by auto
    with exit [of s1] 1 show ?thesis by force
  next
    case 2
    then obtain s1 where "sched_remove rpid ?s = ret s1" "ring s1 xs" "ring_tasks s1 xs = ring_tasks s xs"
        "CURRENT_TASK s1 = CURRENT_TASK s" "eip s1 = eip s"
      using sched_remove_first [OF inv assms(2,6,7)] by auto
    with exit [of s1] 2 show ?thesis by force
  next
    case 3
    then have "sched_remove rpid ?s = None"
      using assms(1,2,6,7) by (intro sched_remove_middle [of _ h xs]) (auto simp: sched_inv_def)
    with 3 show ?thesis using assms(4,5) unfolding h by (simp add: sys_exit_def Let_def)
  qed
qed

theorem syscall_exit_effect_witness:
  "\<exists>s'. syscall_handler kernel_int (zero_registers\<lparr>r_eax := 1\<rparr>) (two_tasks\<lparr>CURRENT_TASK := example_node 0xE0001100 0\<rparr>) =
     ret (zero_registers\<lparr>r_eax := 1\<rparr>, s') \<and> ring s' [0xE0000008] \<and> CURRENT_TASK s' = example_node 0xE0001100 0"
proof -
  let ?s = "two_tasks\<lparr>CURRENT_TASK := example_node 0xE0001100 0\<rparr>"
  obtain p where p: "sched_inv two_tasks {p, 0xE0000008} [0xE0000008, p]" "pid_of two_tasks p = 2" "tcbs two_tasks = tcbs example_state"
    using two_tasks_inv by blast
  have inv: "sched_inv ?s {p, 0xE0000008} [0xE0000008, p]"
    using p(1) kmalloc_inv_heap [of ?s two_tasks] by (simp add: sched_inv_def ring_def)
  have cur: "current ?s = example_tcb 2" by (simp add: p(3) example_node_def) (simp add: example_state_def)
  have "r_eax (zero_registers\<lparr>r_eax := 1\<rparr>) = SYS_EXIT" "parent (current ?s) \<noteq> NULL" "2 = pid (current ?s)" "pid_of ?s (last [p]) = 2"
    using p(2) unfolding cur by (simp_all add: c_const example_tcb_def)
  with syscall_exit_effect [OF inv, of "zero_registers\<lparr>r_eax := 1\<rparr>" 2 kernel_int] show ?thesis
    by (simp add: INIT_PID_def) blast
qed

end
