(* ===== verification/Kernel_Main.thy ===== *)
theory Kernel_Main
  imports Init_Task Pmm_Init
begin

text \<open>
  \<^verbatim>\<open>kernel_main\<close> of \<^verbatim>\<open>src/kernel/kernel.c\<close>, with the boot messages of \<^verbatim>\<open>multiboot2.c\<close> and the flags of
  \<^verbatim>\<open>flags.c\<close>. It ends in an endless loop that prints the current task at every interrupt; the model ends
  where that loop starts, or where the function returns early.
\<close>

section \<open>Boot messages\<close>

definition FLAGS_INT_ENABLE_FLAG :: u32 where [c_const]: "FLAGS_INT_ENABLE_FLAG = push_bit 9 1"

text \<open>\<^verbatim>\<open>cpu_flags\<close>: only the interrupt flag is modelled.\<close>

definition cpu_flags :: "'a kernel_state_scheme \<Rightarrow> u32" where
  "cpu_flags s = (if int_flag s then FLAGS_INT_ENABLE_FLAG else 0)"

definition interrupts_enabled :: "'a kernel_state_scheme \<Rightarrow> bool" where
  "interrupts_enabled s \<longleftrightarrow> cpu_flags s AND FLAGS_INT_ENABLE_FLAG \<noteq> 0"

partial_function (option) print_memory_map_loop :: "mem \<Rightarrow> u32 \<Rightarrow> u32 \<Rightarrow> 'a kernel_state_scheme \<Rightarrow> 'a kernel_state_scheme option" where [code]:
  "print_memory_map_loop m tag mmap s =
     (if mmap < tag + tag_size (get_tag m tag)
      then let e = get_mmap_entry m mmap;
               s1 = printk_debugK ''    address: %#llx | length: %llu | type: '' [Num (mmap_addr e), Num (mmap_len e)] s;
               s2 = (if mmap_type e = MULTIBOOT_MEMORY_AVAILABLE then printk_debugK (line ''available'') [] s1
                     else if mmap_type e = MULTIBOOT_MEMORY_RESERVED then printk_debugK (line ''reserved'') [] s1
                     else if mmap_type e = MULTIBOOT_MEMORY_ACPI_RECLAIMABLE then printk_debugK (line ''ACPI reclaimable'') [] s1
                     else if mmap_type e = MULTIBOOT_MEMORY_NVS then printk_debugK (line ''NVS'') [] s1
                     else if mmap_type e = MULTIBOOT_MEMORY_BADRAM then printk_debugK (line ''bad RAM'') [] s1
                     else s1)
           in print_memory_map_loop m tag (mmap + mmap_entry_size (get_mmap m tag)) s2
      else Some s)"

definition multiboot_print_memory_map :: "mem \<Rightarrow> u32 \<Rightarrow> u32 \<Rightarrow> 'a kernel_state_scheme \<Rightarrow> 'a kernel_state_scheme option" where
  "multiboot_print_memory_map m tag mmap s = print_memory_map_loop m tag mmap (printk_debugK (line ''Memory map:'') [] s)"

definition multiboot_print_framebuffer_info :: "multiboot_tag_framebuffer_common \<Rightarrow> 'a kernel_state_scheme \<Rightarrow> 'a kernel_state_scheme" where
  "multiboot_print_framebuffer_info c s =
     printk_debugK (line ''Framebuffer: addr=%#llx size=%u width=%u height=%u'')
       [Num (framebuffer_addr c), n32 (tag_size c), n32 (framebuffer_width c), n32 (framebuffer_height c)] s"

partial_function (option) print_info_loop :: "mem \<Rightarrow> u32 \<Rightarrow> 'a kernel_state_scheme \<Rightarrow> 'a kernel_state_scheme option" where [code]:
  "print_info_loop m tag s =
     (if tag_type (get_tag m tag) \<noteq> MULTIBOOT_TAG_TYPE_END
      then Option.bind
             (if tag_type (get_tag m tag) = MULTIBOOT_TAG_TYPE_MMAP
              then multiboot_print_memory_map m tag (mmap_entries (get_mmap m tag)) s
              else if tag_type (get_tag m tag) = MULTIBOOT_TAG_TYPE_FRAMEBUFFER
              then Some (multiboot_print_framebuffer_info (get_framebuffer m tag) s)
              else Some s)
             (\<lambda>s1. print_info_loop m (advance_tag m tag) s1)
      else Some s)"

definition multiboot_print_info :: "mem \<Rightarrow> u32 \<Rightarrow> 'a kernel_state_scheme \<Rightarrow> 'a kernel_state_scheme option" where
  "multiboot_print_info m multiboot_info s = print_info_loop m (multiboot_info + 8) s"

section \<open>The main function\<close>

definition create_test_task ::
  "kernel_env \<Rightarrow> paging_context \<Rightarrow> vmm_context \<Rightarrow> u32 \<Rightarrow> 'a kernel_state_scheme \<Rightarrow> 'a kernel_state_scheme comp" where
  "create_test_task env paging_ctx vmm_ctx i s =
     bindK (task_create env paging_ctx vmm_ctx (fn_test_task env) NULL False s) (\<lambda>(task, s1). sched_add task TASK_PRIORITY_LOW s1)"

text \<open>
  From the scheduler on. The flag of the result says whether the function reached its final loop.
\<close>

definition start_tasks ::
  "kernel_env \<Rightarrow> elf32_hdr \<Rightarrow> u32 \<Rightarrow> paging_context \<Rightarrow> vmm_context \<Rightarrow> u32 \<Rightarrow> u32 \<Rightarrow> 'a kernel_state_scheme \<Rightarrow> (bool \<times> 'a kernel_state_scheme) comp" where
  "start_tasks env header0 return_addr paging_ctx vmm_ctx init_mod_addr user_mod_addr s =
     bindK (init_sched env return_addr paging_ctx vmm_ctx s) (\<lambda>s1.
     let s2 = printk_debugK (line ''scheduler init: OK'') [] s1
     in bindK (init_create_task0 env header0 paging_ctx vmm_ctx init_mod_addr s2) (\<lambda>(init_task, s3).
        bindK (init_create_user_task env header0 paging_ctx vmm_ctx user_mod_addr init_task s3) (\<lambda>(child, s4).
        bindK (for_rangeK 0 (3 :: u32) (create_test_task env paging_ctx vmm_ctx) s4) (\<lambda>s5.
        bindK (sched_add init_task TASK_PRIORITY_LOW s5) (\<lambda>s6.
        bindK (sched_add child TASK_PRIORITY_LOW s6) (\<lambda>s7. ret (True, s7)))))))"

text \<open>The messages on the interrupt flag and on the layout of the kernel.\<close>

definition print_layout :: "kernel_env \<Rightarrow> 'a kernel_state_scheme \<Rightarrow> 'a kernel_state_scheme" where
  "print_layout env s =
     (let meminfo = KERNEL_MEMINFO env;
          s1 = printk_debugK (line ''Interrupts enabled: %s'') [Str (if interrupts_enabled s then ''yes'' else ''no'')] s;
          s2 = printk_debugK (line ''kernel virtual start %#x'') [n32 (virtual_start meminfo)] s1;
          s3 = printk_debugK (line ''kernel virtual end %#x'') [n32 (virtual_end meminfo)] s2;
          s4 = printk_debugK (line ''kernel physical start %#x'') [n32 (physical_start meminfo)] s3
      in printk_debugK (line ''kernel stack top %#x'') [n32 (stack_top meminfo)] s4)"

text \<open>
  The memory managers. \<open>slot\<close>, \<open>pd\<close> and \<open>pts\<close> are the addresses that \<open>init_paging\<close> uses, \<open>m\<close> the memory the
  loader left the multiboot structure in.
\<close>

definition init_memory ::
  "kernel_env \<Rightarrow> mem \<Rightarrow> u32 \<Rightarrow> u32 \<Rightarrow> u32 \<Rightarrow> multiboot_info \<Rightarrow> 'a kernel_state_scheme \<Rightarrow>
     (paging_context \<times> vmm_context \<times> 'a kernel_state_scheme) comp" where
  "init_memory env m slot pd pts multiboot_info s =
     (let meminfo = KERNEL_MEMINFO env;
          s1 = printk_debugK (line ''Initializing memory manager'') [] s
      in bindK (pmm_init meminfo m multiboot_info (pmm s1)) (\<lambda>pm.
         let s2 = printk_debugK (line ''PMM: OK'') [] (s1\<lparr>pmm := pm\<rparr>)
         in bindK (init_paging meminfo slot pd pts (paging s2)) (\<lambda>(paging_ctx, pg).
         let s3 = printk_debugK (line ''paging: OK'') [] (s2\<lparr>paging := pg\<rparr>);
             s4 = printk_debugK (line ''kmalloc: OK'') [] (kmalloc_init s3)
         in bindK (vmm_init meminfo m multiboot_info s4) (\<lambda>(vmm_ctx, addr_space, s5).
         ret (paging_ctx, vmm_ctx, printk_debugK (line ''VMM: OK'') [] (s5\<lparr>ADDR_SPACE := addr_space\<rparr>))))))"

definition kernel_main ::
  "kernel_env \<Rightarrow> mem \<Rightarrow> elf32_hdr \<Rightarrow> u32 \<Rightarrow> u32 \<Rightarrow> u32 \<Rightarrow> u32 \<Rightarrow> multiboot_info \<Rightarrow> 'a kernel_state_scheme \<Rightarrow> (bool \<times> 'a kernel_state_scheme) comp" where
  "kernel_main env m header0 return_addr slot pd pts multiboot_info s =
     bindK (tty_init m (mb_addr multiboot_info) (higher_half_base (KERNEL_MEMINFO env)) (tty s)) (\<lambda>t.
     let s1 = s\<lparr>tty := t\<rparr>
     in bindK (liftK (ps2_init_devices (devices env) (scancode_queue_ctx s1) (io s1))) (\<lambda>(q, io').
     let s2 = s1\<lparr>scancode_queue_ctx := q, io := io'\<rparr>
     in if mb_magic multiboot_info \<noteq> MULTIBOOT2_BOOTLOADER_MAGIC
        then ret (False, printk_debugK (line ''Invalid multiboot2 magic number: %d'') [n32 (mb_magic multiboot_info)] s2)
        else bindK (liftK (multiboot_print_info m (mb_addr multiboot_info) s2)) (\<lambda>s3.
        bindK (init_memory env m slot pd pts multiboot_info (print_layout env s3)) (\<lambda>(paging_ctx, vmm_ctx, s4).
        bindK (liftK (multiboot_get_next_module m (mb_addr multiboot_info + 8))) (\<lambda>(init_mod, tag).
        if init_mod = NULL then ret (False, printk_debugK (line ''init not found'') [] s4)
        else bindK (liftK (multiboot_get_next_module m tag)) (\<lambda>(user_mod, tag1).
        if user_mod = NULL then ret (False, printk_debugK (line ''hello_userspace not found'') [] s4)
        else let init_mod_addr = mod_start (get_module m init_mod);
                 s5 = printk_debugK (line ''init_mod is at %#x'') [n32 init_mod_addr] s4;
                 user_mod_addr = mod_start (get_module m user_mod);
                 s6 = printk_debugK (line ''user_mod is at %#x'') [n32 user_mod_addr] s5
             in start_tasks env header0 return_addr paging_ctx vmm_ctx init_mod_addr user_mod_addr s6))))))"

end
