(* ===== verification/Boot.thy ===== *)
theory Boot
  imports Kernel_Main
begin

text \<open>
  The composition of the components in \<^verbatim>\<open>kernel_main\<close>: what holds when the memory managers are
  initialised and the first task is about to be created.
\<close>

section \<open>What the virtual memory manager leaves alone\<close>

text \<open>The operations change the heap and the two kinds of nodes only.\<close>

lemma kmalloc_more: "kmallocK n s = ret (p, s') \<Longrightarrow> vmm_state.more s' = vmm_state.more s"
  using kmalloc_frame [of n s p s'] by (cases s; cases s') (simp add: kmallocK_def liftK_def ret_def split: option.splits)

lemma kfree_more [simp]: "vmm_state.more (kfree p s) = vmm_state.more s"
  by (simp add: kfree_def Let_def)

lemma new_block_more: "new_block v s = ret (p, s') \<Longrightarrow> vmm_state.more s' = vmm_state.more s"
  by (auto simp: new_block_def bindK_eq_ret assertK_eq_ret dest: kmalloc_more)

lemma new_tree_more: "new_tree v s = ret (p, s') \<Longrightarrow> vmm_state.more s' = vmm_state.more s"
  by (auto simp: new_tree_def bindK_eq_ret assertK_eq_ret dest: kmalloc_more)

lemmas node_more = kmalloc_more new_block_more new_tree_more

lemma unlink_block_more: "unlink_block ctx fb prev s = (ctx', s') \<Longrightarrow> vmm_state.more s' = vmm_state.more s"
  by (auto simp: unlink_block_def Let_def split: if_splits)

lemma remove_free_blocks_more:
  "remove_free_blocks mi ctx va pc user s = ret (addr, ctx', s') \<Longrightarrow> vmm_state.more s' = vmm_state.more s"
  by (auto simp: remove_free_blocks_def bindK_eq_ret assertK_eq_ret Let_def split: if_splits prod.splits
      dest: node_more unlink_block_more)

lemma merge_free_blocks_more: "vmm_state.more (snd (merge_free_blocks mi fb va pc s)) = vmm_state.more s"
  by (simp add: merge_free_blocks_def Let_def split: prod.splits)

lemma merge_or_insert_more:
  "merge_or_insert_free_blocks mi fb va pc s = ret s' \<Longrightarrow> vmm_state.more s' = vmm_state.more s"
  using merge_free_blocks_more [of mi fb va pc s]
  by (auto simp: merge_or_insert_free_blocks_def bindK_eq_ret Let_def split: if_splits prod.splits dest: node_more)

lemma add_free_blocks_more: "add_free_blocks mi ctx va pc s = ret (ctx', s') \<Longrightarrow> vmm_state.more s' = vmm_state.more s"
  by (auto simp: add_free_blocks_def bindK_eq_ret split: if_splits prod.splits dest: node_more merge_or_insert_more)

lemma add_allocation_more: "add_allocation ctx va pa pc fl s = ret s' \<Longrightarrow> vmm_state.more s' = vmm_state.more s"
  by (auto simp: add_allocation_def bindK_eq_ret assertK_eq_ret Let_def split: if_splits dest: node_more)

lemma vmm_map_pages_more: "vmm_map_pages mi ctx va pa pc fl s = ret (addr, ctx', s') \<Longrightarrow> vmm_state.more s' = vmm_state.more s"
  by (auto simp: vmm_map_pages_def bindK_eq_ret assertK_eq_ret Let_def dest!: remove_free_blocks_more add_allocation_more)

lemma map_addr_space_more: "map_addr_space mi es ctx s = ret (ctx', s') \<Longrightarrow> vmm_state.more s' = vmm_state.more s"
  by (induction es arbitrary: ctx s) (auto simp: bindK_eq_ret dest: vmm_map_pages_more)

lemma vmm_new_context_more: "vmm_new_context mi es s = ret (ctx, s') \<Longrightarrow> vmm_state.more s' = vmm_state.more s"
  by (auto simp: vmm_new_context_def create_empty_ctx_def bindK_eq_ret Let_def
      dest!: node_more add_free_blocks_more map_addr_space_more)

section \<open>The boot messages\<close>

lemma io_update_same: "s\<lparr>io := io s\<rparr> = s"
  by simp

lemma print_memory_map_loop_io:
  "entries_at m tag a es \<Longrightarrow> \<exists>msgs. print_memory_map_loop m tag a s = Some (s\<lparr>io := msgs\<rparr>)"
proof (induction es arbitrary: a s)
  case Nil
  then show ?case by (subst print_memory_map_loop.simps) (auto intro: exI [of _ "io s"])
next
  case (Cons e es)
  then have a: "a < tag + tag_size (get_tag m tag)" and rest: "entries_at m tag (a + mmap_entry_size (get_mmap m tag)) es" by auto
  have "\<exists>msgs. print_memory_map_loop m tag (a + mmap_entry_size (get_mmap m tag)) (s\<lparr>io := x\<rparr>) = Some (s\<lparr>io := msgs\<rparr>)" for x
    using Cons.IH [OF rest, of "s\<lparr>io := x\<rparr>"] by simp
  then show ?case using a by (subst print_memory_map_loop.simps) (simp add: printk_debugK_def Let_def)
qed

lemma print_info_loop_io:
  assumes "tags_at m a ts" and "\<forall>t \<in> set ts. has_type m MULTIBOOT_TAG_TYPE_MMAP t \<longrightarrow> (\<exists>es. entries_at m t (t + 16) es)"
  shows "\<exists>msgs. print_info_loop m a s = Some (s\<lparr>io := msgs\<rparr>)"
  using assms
proof (induction ts arbitrary: a s)
  case Nil
  then show ?case by (subst print_info_loop.simps) (auto intro: exI [of _ "io s"])
next
  case (Cons t ts)
  then have t: "t = a" "tag_type (get_tag m a) \<noteq> MULTIBOOT_TAG_TYPE_END" and rest: "tags_at m (advance_tag m a) ts" by auto
  have IH: "\<exists>msgs. print_info_loop m (advance_tag m a) (s\<lparr>io := x\<rparr>) = Some (s\<lparr>io := msgs\<rparr>)" for x
    using Cons.IH [OF rest, of "s\<lparr>io := x\<rparr>"] Cons.prems(2) by simp
  then have IH0: "\<exists>msgs. print_info_loop m (advance_tag m a) s = Some (s\<lparr>io := msgs\<rparr>)" by (metis io_update_same)
  show ?case
  proof (cases "has_type m MULTIBOOT_TAG_TYPE_MMAP a")
    case True
    then obtain es where "entries_at m a (a + 16) es" using Cons.prems(2) t(1) by auto
    then obtain msgs where "multiboot_print_memory_map m a (a + 16) s = Some (s\<lparr>io := msgs\<rparr>)"
      using print_memory_map_loop_io [of m a "a + 16" es "printk_debugK (line ''Memory map:'') [] s"]
      by (auto simp: multiboot_print_memory_map_def printk_debugK_def)
    with True IH [of msgs] t(2) show ?thesis by (subst print_info_loop.simps) (simp add: get_mmap_def)
  next
    case False
    with IH IH0 t(2) show ?thesis
      by (subst print_info_loop.simps) (simp add: multiboot_print_framebuffer_info_def printk_debugK_def)
  qed
qed

lemma ps2_init_devices_returns:
  assumes "\<forall>es. dev es 0x64 AND 3 = 0" and "\<forall>es. dev es 0x60 \<noteq> 0xfe"
  shows "\<exists>q' s'. ps2_init_devices dev q s = Some (q', s')"
  using ps2_init_commands [OF assms, of q s] by blast

lemma tty_init_returns:
  assumes "tags_at m (info + 8) ts" and "find (has_type m MULTIBOOT_TAG_TYPE_FRAMEBUFFER) ts = Some fb" and "fb \<noteq> NULL"
  shows "\<exists>t'. tty_init m info hb t = ret t'"
  using framebuffer_loop_find [OF assms(1)] assms(2,3)
  by (simp add: tty_init_def multiboot_framebuffer_info_def Let_def)

lemma get_next_module_filter:
  assumes "tags_at m a ts" and "0 \<notin> set ts" and "filter (has_type m MULTIBOOT_TAG_TYPE_MODULE) ts = x # xs"
  shows "\<exists>a' ts'. multiboot_get_next_module m a = Some (x, a') \<and> tags_at m a' ts' \<and> 0 \<notin> set ts' \<and> x \<noteq> 0 \<and>
    filter (has_type m MULTIBOOT_TAG_TYPE_MODULE) ts' = xs"
  using assms
proof (induction ts arbitrary: a)
  case (Cons t ts)
  then show ?case by (subst multiboot_get_next_module.simps) (auto split: if_splits)
qed simp

section \<open>Properties\<close>

text \<open>What the loader must have left: the tags of the structure, of which \<open>tag\<close> is the first memory map with
  the entries \<open>es\<close> and \<open>fb\<close> the first framebuffer, every memory map ending at an entry, no range in the
  last page, and two modules.\<close>

definition framebuffer_range :: "mem \<Rightarrow> u32 \<Rightarrow> u32 \<times> u32" where
  "framebuffer_range m fb = (ucast (framebuffer_addr (get_framebuffer m fb)),
     ucast (framebuffer_addr (get_framebuffer m fb) +
       ucast (framebuffer_width (get_framebuffer m fb) * framebuffer_height (get_framebuffer m fb) * 2) - 1))"

definition boot_info :: "kernel_meminfo \<Rightarrow> mem \<Rightarrow> multiboot_info \<Rightarrow> u32 list \<Rightarrow> u32 \<Rightarrow> u32 \<Rightarrow> u32 list \<Rightarrow> bool" where
  "boot_info mi m info ts tag fb es \<longleftrightarrow> tags_at m (mb_addr info + 8) ts \<and> 0 \<notin> set ts \<and>
     find (has_type m MULTIBOOT_TAG_TYPE_MMAP) ts = Some tag \<and>
     find (has_type m MULTIBOOT_TAG_TYPE_FRAMEBUFFER) ts = Some fb \<and> entries_at m tag (tag + 16) es \<and>
     (\<forall>t \<in> set ts. has_type m MULTIBOOT_TAG_TYPE_MMAP t \<longrightarrow> (\<exists>es. entries_at m t (t + 16) es)) \<and>
     (\<forall>e \<in> set (reserved m es). unat (snd (entry_range m e)) \<le> 2 ^ 32 - 4096) \<and>
     unat (physical_end mi) \<le> 2 ^ 32 - 4096 \<and> unat (snd (framebuffer_range m fb)) \<le> 2 ^ 32 - 4096"

definition boot_frames :: "kernel_meminfo \<Rightarrow> mem \<Rightarrow> u32 \<Rightarrow> u32 list \<Rightarrow> nat set" where
  "boot_frames mi m fb es = range_frames (physical_start mi) (physical_end mi) \<union>
     range_frames KERNEL_HEAP_PHYS_START (KERNEL_HEAP_PHYS_START + KERNEL_HEAP_SIZE - 1) \<union>
     (\<Union>e \<in> set (reserved m es). range_frames (fst (entry_range m e)) (snd (entry_range m e))) \<union>
     range_frames (fst (framebuffer_range m fb)) (snd (framebuffer_range m fb))"

lemma boot_info_framebuffer:
  assumes "boot_info mi m info ts tag fb es"
  shows "multiboot_framebuffer_info m (mb_addr info) = Some fb" "fb \<noteq> NULL"
proof -
  have ts: "tags_at m (mb_addr info + 8) ts" "0 \<notin> set ts" "find (has_type m MULTIBOOT_TAG_TYPE_FRAMEBUFFER) ts = Some fb"
    using assms by (simp_all add: boot_info_def)
  then show "multiboot_framebuffer_info m (mb_addr info) = Some fb"
    using framebuffer_loop_find [OF ts(1)] by (simp add: multiboot_framebuffer_info_def)
  have "fb \<in> set ts" using ts(3) by (auto simp: find_Some_iff)
  with ts(2) show "fb \<noteq> NULL" by auto
qed

lemma pmm_init_boot:
  assumes "boot_info mi m info ts tag fb es"
  shows "\<exists>pm'. pmm_init mi m info pm = ret pm' \<and> frames_used pm' = frames_used pm \<union> boot_frames mi m fb es"
  using assms boot_info_framebuffer(2) [OF assms] pmm_init_frames [of m info ts tag fb es mi "framebuffer_range m fb" pm]
  by (simp add: boot_info_def boot_frames_def framebuffer_range_def Un_assoc)

lemma kernel_more:
  assumes "vmm_state.more s' = vmm_state.more (s :: 'a kernel_state_scheme)" shows "pmm s' = pmm s" "paging s' = paging s"
  using assms by (cases s; cases s'; simp)+

lemma kmalloc_init_more [simp]: "vmm_state.more (kmalloc_init s) = vmm_state.more s"
  by (simp add: kmalloc_init_def)

text \<open>
  The state in which the memory managers are left: the frames of the kernel, the heap, the reserved
  memory and the framebuffer are in use, CR3 holds the directory, which maps the kernel image and
  the heap linearly, and the address space has exactly the regions of its template.
\<close>

definition memory_ready ::
  "kernel_meminfo \<Rightarrow> mem \<Rightarrow> u32 \<Rightarrow> u32 list \<Rightarrow> u32 \<Rightarrow> nat set \<Rightarrow> vmm_context \<Rightarrow> 'a kernel_state_scheme \<Rightarrow> bool" where
  "memory_ready mi m fb es pd used ctx s \<longleftrightarrow>
     frames_used (pmm s) = used \<union> boot_frames mi m fb es \<and> cr3 (paging s) = vmm_virtual_to_physical mi pd \<and>
     (\<forall>v. higher_half_base mi \<le> v \<and> v < virtual_end mi \<longrightarrow> page_walk mi (paging s) pd v = Some (v - higher_half_base mi, RW)) \<and>
     (\<forall>v. KERNEL_HEAP_VIRT_START \<le> v \<and> v < KERNEL_HEAP_VIRT_START + KERNEL_HEAP_SIZE \<longrightarrow>
        page_walk mi (paging s) pd v = Some (KERNEL_HEAP_PHYS_START + (v - KERNEL_HEAP_VIRT_START), RW)) \<and>
     space_inv (ctx, s) (entry_allocation ` set (init_addr_space mi (get_framebuffer m fb)))"

lemma memory_ready_printk:
  "memory_ready mi m fb es pd used ctx (printk_debugK f a s) \<longleftrightarrow> memory_ready mi m fb es pd used ctx s"
  using space_inv_cong [of "printk_debugK f a s" s] by (simp add: memory_ready_def)

text \<open>The memory managers after their initialisation, one on top of the other.\<close>

lemma init_memory_result:
  assumes mi: "mi = KERNEL_MEMINFO env" and boot: "boot_info mi m info ts tag fb es"
    and pg: "ctx_ok mi \<lparr>page_directory = pd, page_tables = pts\<rparr>" "meminfo_ok mi" "pd \<noteq> NULL" "pts \<noteq> NULL"
    and tpl: "higher_half_base mi \<noteq> 0" "template_ok mi (init_addr_space mi (get_framebuffer m fb)) (initial_regions mi)"
  shows "init_memory env m slot pd pts info s = fail Null_deref \<or>
    (\<exists>ctx s'. init_memory env m slot pd pts info s = ret (\<lparr>page_directory = pd, page_tables = pts\<rparr>, ctx, s') \<and>
       memory_ready mi m fb es pd (frames_used (pmm s)) ctx s')"
proof -
  let ?pctx = "\<lparr>page_directory = pd, page_tables = pts\<rparr>" and ?as = "init_addr_space mi (get_framebuffer m fb)"
  obtain pm where pm: "pmm_init mi m info (pmm s) = ret pm" "frames_used pm = frames_used (pmm s) \<union> boot_frames mi m fb es"
    using pmm_init_boot [OF boot] by blast
  obtain p where p: "init_paging mi slot pd pts (paging s) = ret (?pctx, p)" "cr3 p = vmm_virtual_to_physical mi pd"
      "\<forall>v. higher_half_base mi \<le> v \<and> v < virtual_end mi \<longrightarrow> page_walk mi p pd v = Some (v - higher_half_base mi, RW)"
      "\<forall>v. KERNEL_HEAP_VIRT_START \<le> v \<and> v < KERNEL_HEAP_VIRT_START + KERNEL_HEAP_SIZE \<longrightarrow>
        page_walk mi p pd v = Some (KERNEL_HEAP_PHYS_START + (v - KERNEL_HEAP_VIRT_START), RW)"
    using init_paging_walks [OF pg, of slot "paging s"] by blast
  define s3 where "s3 = printk_debugK (line ''paging: OK'') [] ((printk_debugK (line ''PMM: OK'') []
      ((printk_debugK (line ''Initializing memory manager'') [] s)\<lparr>pmm := pm\<rparr>))\<lparr>paging := p\<rparr>)"
  define s4 where "s4 = printk_debugK (line ''kmalloc: OK'') [] (kmalloc_init s3)"
  have s3: "pmm s3 = pm" "paging s3 = p" by (simp_all add: s3_def)
  have s4: "pmm s4 = pm" "paging s4 = p" using s3 by (simp_all add: s4_def kernel_more [OF kmalloc_init_more])
  have "kmalloc_inv s4 {}"
    using heap_reach_inv [OF heap_reach.init, of s3] kmalloc_inv_heap [of s4 "kmalloc_init s3"] by (simp add: s4_def)
  moreover have "paging_is_aligned (higher_half_base mi)" "?as \<noteq> []" using pg(2) by (simp_all add: meminfo_ok_def init_addr_space_def)
  ultimately have new: "vmm_new_context mi ?as s4 = fail Null_deref \<or>
      (\<exists>ctx s'. vmm_new_context mi ?as s4 = ret (ctx, s') \<and> space_inv (ctx, s') (entry_allocation ` set ?as))"
    using vmm_new_context_space tpl by blast
  note fb = boot_info_framebuffer [OF boot]
  have run: "init_memory env m slot pd pts info s = bindK (vmm_new_context mi ?as s4) (\<lambda>(ctx, s5).
      ret (?pctx, ctx, printk_debugK (line ''VMM: OK'') [] (s5\<lparr>ADDR_SPACE := ?as\<rparr>)))"
    using pm(1) p(1) fb unfolding mi
    by (simp add: init_memory_def vmm_init_def s4_def s3_def Let_def liftK_def bindK_assoc split_def)
  show ?thesis
  proof (cases "vmm_new_context mi ?as s4 = fail Null_deref")
    case True
    then show ?thesis by (simp add: run)
  next
    case False
    then obtain ctx s5 where s5: "vmm_new_context mi ?as s4 = ret (ctx, s5)" "space_inv (ctx, s5) (entry_allocation ` set ?as)"
      using new by blast
    let ?s' = "printk_debugK (line ''VMM: OK'') [] (s5\<lparr>ADDR_SPACE := ?as\<rparr>)"
    have "space_inv (ctx, ?s') (entry_allocation ` set ?as)" using s5(2) space_inv_cong [of ?s' s5] by simp
    moreover have "pmm ?s' = pm" "paging ?s' = p" using kernel_more [OF vmm_new_context_more [OF s5(1)]] s4 by simp_all
    ultimately show ?thesis using pm(2) p(2-4) by (simp add: run s5(1) memory_ready_def)
  qed
qed


text \<open>The structure of the frame allocator's example with two modules added.\<close>

definition example_loader :: mem where
  "example_loader a =
     (if a = 0x1050 then 3 else if a = 0x1054 then 16 else if a = 0x105A then 0x50
      else if a = 0x1060 then 3 else if a = 0x1064 then 16 else if a = 0x106A then 0x60 else example_boot a)"

lemma example_loader_tags:
  "tag_type (get_tag example_loader 0x1008) = 6" "tag_size (get_tag example_loader 0x1008) = 40"
  "advance_tag example_loader 0x1008 = 0x1030" "mmap_entry_size (get_mmap example_loader 0x1008) = 24"
  "tag_type (get_tag example_loader 0x1030) = 8" "advance_tag example_loader 0x1030 = 0x1050"
  "tag_type (get_tag example_loader 0x1050) = 3" "advance_tag example_loader 0x1050 = 0x1060"
  "tag_type (get_tag example_loader 0x1060) = 3" "advance_tag example_loader 0x1060 = 0x1070"
  "tag_type (get_tag example_loader 0x1070) = 0"
  "mod_start (get_module example_loader 0x1050) = 0x500000" "mod_start (get_module example_loader 0x1060) = 0x600000"
  by (simp_all add: get_tag_def get_mmap_def get_module_def advance_tag_def load_u32_def example_loader_def example_boot_def)

lemma example_loader_data:
  "mmap_type (get_mmap_entry example_loader 0x1018) = 2" "entry_range example_loader 0x1018 = (0x9F000, 0xA0000)"
  "framebuffer_addr (get_framebuffer example_loader 0x1030) = 0xB8000" "framebuffer_range example_loader 0x1030 = (0xB8000, 0xB8F9F)"
  by (simp_all add: get_mmap_entry_def entry_range_def framebuffer_range_def get_framebuffer_def load_u64_def load_u32_def
      example_loader_def example_boot_def)

abbreviation example_info :: "u32 \<Rightarrow> multiboot_info" where
  "example_info magic \<equiv> \<lparr>mb_magic = magic, mb_addr = 0x1000\<rparr>"

lemma example_boot_info: "boot_info example_meminfo example_loader (example_info magic) [0x1008, 0x1030, 0x1050, 0x1060] 0x1008 0x1030 [0x1018]"
proof -
  have "entries_at example_loader 0x1008 0x1018 [0x1018]" by (simp add: example_loader_tags)
  moreover from this have "\<exists>es. entries_at example_loader 0x1008 0x1018 es" by blast
  ultimately show ?thesis
    by (simp add: boot_info_def example_loader_tags example_loader_data mmap_unavailable_def c_const example_meminfo_def)
qed

lemma example_boot_template:
  "template_ok example_meminfo (init_addr_space example_meminfo (get_framebuffer example_loader 0x1030)) (initial_regions example_meminfo)"
  by (simp add: init_addr_space_def example_loader_data initial_regions_def example_meminfo_def entry_ok_def ends_in_range_def
      paging_is_aligned_def paging_page_count_def fits_at_start_def region_matches_def is_addr_ok_for_mode_def is_addr_in_range_def
      carve_def c_const push_bit_eq_mult)


end
