(* ===== verification/User_Mode.thy ===== *)
theory User_Mode
  imports Boot
begin

text \<open>
  The border between user mode and the kernel: the entry into user mode
  (\<^verbatim>\<open>src/kernel/arch/i386/init_user_mode.S\<close>), the system call interrupt
  (\<^verbatim>\<open>src/kernel/syscall/syscall_int_handler.S\<close>), and the programs above it: \<^verbatim>\<open>crt0.S\<close> and \<^verbatim>\<open>exit.S\<close> of
  \<^verbatim>\<open>src/libc\<close> and the programs of \<^verbatim>\<open>src/programs\<close>. Of the flags register only the interrupt flag is
  modelled, as in \<open>cpu_flags\<close>.
\<close>

section \<open>Processor instructions\<close>

definition GDT_USER_RPL :: u16 where [c_const]: "GDT_USER_RPL = 3"

text \<open>
  \<open>push_reg\<close> pushes a value computed from the registers, \<open>mov\<close> sets registers from registers and stack, and \<open>pop\<close> takes
  a value off the stack, moving the stack pointer before the register is written.
\<close>

definition push_reg :: "(registers \<Rightarrow> u32) \<Rightarrow> 'a kernel_state_scheme \<Rightarrow> 'a kernel_state_scheme" where
  "push_reg f s = push (f (regs s)) s"

definition pushf :: "'a kernel_state_scheme \<Rightarrow> 'a kernel_state_scheme" where
  "pushf s = push (cpu_flags s) s"

definition mov :: "(mem \<Rightarrow> registers \<Rightarrow> registers) \<Rightarrow> 'a kernel_state_scheme \<Rightarrow> 'a kernel_state_scheme" where
  "mov f s = s\<lparr>regs := f (stack s) (regs s)\<rparr>"

definition pop :: "(u32 \<Rightarrow> registers \<Rightarrow> registers) \<Rightarrow> 'a kernel_state_scheme \<Rightarrow> 'a kernel_state_scheme" where
  "pop set_reg s = s\<lparr>regs := set_reg (top s) ((regs s)\<lparr>r_esp := r_esp (regs s) + 4\<rparr>)\<rparr>"

abbreviation pop_eax :: "'a kernel_state_scheme \<Rightarrow> 'a kernel_state_scheme" where "pop_eax \<equiv> pop (\<lambda>v r. r\<lparr>r_eax := v\<rparr>)"
abbreviation pop_ebx :: "'a kernel_state_scheme \<Rightarrow> 'a kernel_state_scheme" where "pop_ebx \<equiv> pop (\<lambda>v r. r\<lparr>r_ebx := v\<rparr>)"
abbreviation pop_ecx :: "'a kernel_state_scheme \<Rightarrow> 'a kernel_state_scheme" where "pop_ecx \<equiv> pop (\<lambda>v r. r\<lparr>r_ecx := v\<rparr>)"
abbreviation pop_edx :: "'a kernel_state_scheme \<Rightarrow> 'a kernel_state_scheme" where "pop_edx \<equiv> pop (\<lambda>v r. r\<lparr>r_edx := v\<rparr>)"
abbreviation pop_esi :: "'a kernel_state_scheme \<Rightarrow> 'a kernel_state_scheme" where "pop_esi \<equiv> pop (\<lambda>v r. r\<lparr>r_esi := v\<rparr>)"
abbreviation pop_edi :: "'a kernel_state_scheme \<Rightarrow> 'a kernel_state_scheme" where "pop_edi \<equiv> pop (\<lambda>v r. r\<lparr>r_edi := v\<rparr>)"
abbreviation pop_esp :: "'a kernel_state_scheme \<Rightarrow> 'a kernel_state_scheme" where "pop_esp \<equiv> pop (\<lambda>v r. r\<lparr>r_esp := v\<rparr>)"
abbreviation pop_ebp :: "'a kernel_state_scheme \<Rightarrow> 'a kernel_state_scheme" where "pop_ebp \<equiv> pop (\<lambda>v r. r\<lparr>r_ebp := v\<rparr>)"

text \<open>
  An interrupt from user mode: the processor takes the stack of ring 0 from the TSS and saves where
  it came from. The gate of the system call is an interrupt gate, so interrupts are disabled. \<^verbatim>\<open>iret\<close>
  takes the stack of the caller back when the privilege changes.
\<close>

definition int_user :: "u32 \<Rightarrow> 'a kernel_state_scheme \<Rightarrow> 'a kernel_state_scheme" where
  "int_user next_eip s =
     (let old = segments s;
          s1 = s\<lparr>regs := (regs s)\<lparr>r_esp := tss_esp0 (tss old)\<rparr>,
                 segments := old\<lparr>cpu_ss := tss_ss0 (tss old), cpu_cs := GDT_KERNEL_CODE_SEGMENT\<rparr>\<rparr>;
          s2 = push (ucast (cpu_ss old)) s1;
          s3 = push (r_esp (regs s)) s2;
          s4 = push (cpu_flags s) s3;
          s5 = push (ucast (cpu_cs old)) s4;
          s6 = push next_eip s5
      in s6\<lparr>int_flag := False\<rparr>)"

definition iret :: "'a kernel_state_scheme \<Rightarrow> 'a kernel_state_scheme" where
  "iret s =
     (let new_eip = top s;
          s1 = drop4 s;
          new_cs = (ucast (top s1) :: u16);
          s2 = drop4 s1;
          flags = top s2;
          s3 = drop4 s2;
          s4 = s3\<lparr>eip := new_eip, int_flag := flags AND FLAGS_INT_ENABLE_FLAG \<noteq> 0, segments := (segments s)\<lparr>cpu_cs := new_cs\<rparr>\<rparr>
      in if new_cs AND 3 = cpu_cs (segments s) AND 3 then s4
         else let new_esp = top s3;
                  new_ss = top (drop4 s3)
              in s4\<lparr>regs := (regs s4)\<lparr>r_esp := new_esp\<rparr>, segments := (segments s4)\<lparr>cpu_ss := ucast new_ss\<rparr>\<rparr>)"

section \<open>Entering user mode\<close>

definition init_goto_user_mode :: "'a kernel_state_scheme \<Rightarrow> 'a kernel_state_scheme" where
  "init_goto_user_mode s =
     (let data = GDT_USER_DATA_SEGMENT OR GDT_USER_RPL;
          s1 = mov (\<lambda>m r. r\<lparr>r_eax := (r_eax r AND 0xffff0000) OR ucast data\<rparr>) (s\<lparr>int_flag := False\<rparr>);
          s2 = s1\<lparr>segments := (segments s)\<lparr>cpu_ds := data, cpu_es := data, cpu_fs := data, cpu_gs := data\<rparr>\<rparr>;
          s3 = mov (\<lambda>m r. r\<lparr>r_esi := load_u32 m (r_esp r)\<rparr>) s2;
          s4 = pushf (push USER_STACK_TOP (push (ucast data) s3));
          s5 = s4\<lparr>stack := store_u32 (r_esp (regs s4)) (top s4 OR FLAGS_INT_ENABLE_FLAG) (stack s4)\<rparr>;
          s6 = push_reg r_esi (push (ucast (GDT_USER_CODE_SEGMENT OR GDT_USER_RPL)) s5)
      in iret s6)"

section \<open>The system call interrupt\<close>

text \<open>The two structures on the stack that the handler gets by reference.\<close>

definition load_interrupt_state :: "mem \<Rightarrow> u32 \<Rightarrow> interrupt_state" where
  "load_interrupt_state m p = \<lparr>is_eflags = load_u32 m p, is_cs = load_u32 m (p + 4), is_eip = load_u32 m (p + 8)\<rparr>"

definition load_registers :: "mem \<Rightarrow> u32 \<Rightarrow> registers" where
  "load_registers m p =
     \<lparr>r_eax = load_u32 m p, r_ebx = load_u32 m (p + 4), r_ecx = load_u32 m (p + 8), r_edx = load_u32 m (p + 12),
      r_esi = load_u32 m (p + 16), r_edi = load_u32 m (p + 20), r_esp = load_u32 m (p + 24), r_ebp = load_u32 m (p + 28)\<rparr>"

definition store_registers :: "u32 \<Rightarrow> registers \<Rightarrow> mem \<Rightarrow> mem" where
  "store_registers p r m =
     store_u32 p (r_eax r) (store_u32 (p + 4) (r_ebx r) (store_u32 (p + 8) (r_ecx r) (store_u32 (p + 12) (r_edx r)
       (store_u32 (p + 16) (r_esi r) (store_u32 (p + 20) (r_edi r) (store_u32 (p + 24) (r_esp r) (store_u32 (p + 28) (r_ebp r) m)))))))"

text \<open>
  The entry stub before the call, the call, and what follows it. \<open>ra\<close> is the return address of the call; a C function may
  leave anything in the caller-saved registers, \<open>clobbered\<close> is what it leaves there.
\<close>

definition syscall_entry :: "u32 \<Rightarrow> 'a kernel_state_scheme \<Rightarrow> 'a kernel_state_scheme" where
  "syscall_entry ra s =
     (let s1 = push_reg r_ebp s;
          s2 = mov (\<lambda>m r. r\<lparr>r_ebp := r_esp r\<rparr>) s1;
          s3 = push_reg r_esp (push_reg r_ebp s2);
          s4 = push_reg r_esi (push_reg r_edi s3);
          s5 = push_reg r_ecx (push_reg r_edx s4);
          s6 = push_reg r_eax (push_reg r_ebx s5);
          s7 = push_reg r_eax (mov (\<lambda>m r. r\<lparr>r_eax := r_esp r\<rparr>) s6);
          s8 = push_reg r_eax (mov (\<lambda>m r. r\<lparr>r_eax := r_ebp r + 4\<rparr>) s7);
          s9 = mov (\<lambda>m r. r\<lparr>r_eax := load_u32 m (r_esp r + 4)\<rparr>) s8
      in push ra s9)"

definition syscall_leave :: "'a kernel_state_scheme \<Rightarrow> 'a kernel_state_scheme" where
  "syscall_leave s =
     (let s1 = pop_eax (drop4 s);
          s2 = pop_eax s1;
          s3 = pop_eax s2;
          s4 = pop_ebx s3;
          s5 = pop_ecx s4;
          s6 = pop_edx s5;
          s7 = pop_esi s6;
          s8 = pop_edi s7;
          s9 = pop_esp s8;
          s10 = pop_ebp s9
      in iret (pop_ebp s10))"

definition syscall_interrupt_handler :: "u32 \<Rightarrow> registers \<Rightarrow> 'a kernel_state_scheme \<Rightarrow> 'a kernel_state_scheme comp" where
  "syscall_interrupt_handler ra clobbered s =
     (let s1 = syscall_entry ra s;
          state_ptr = load_u32 (stack s1) (r_esp (regs s1) + 4);
          regs_ptr = load_u32 (stack s1) (r_esp (regs s1) + 8)
      in bindK (syscall_handler (load_interrupt_state (stack s1) state_ptr) (load_registers (stack s1) regs_ptr) s1) (\<lambda>(r, s2).
         ret (syscall_leave (s2\<lparr>stack := store_registers regs_ptr r (stack s2),
                regs := (regs s2)\<lparr>r_eax := r_eax clobbered, r_ecx := r_ecx clobbered, r_edx := r_edx clobbered\<rparr>\<rparr>))))"

text \<open>The instruction \<^verbatim>\<open>int $80\<close> of a program; \<open>next_eip\<close> is the address behind it.\<close>

definition int80 :: "u32 \<Rightarrow> registers \<Rightarrow> u32 \<Rightarrow> 'a kernel_state_scheme \<Rightarrow> 'a kernel_state_scheme comp" where
  "int80 ra clobbered next_eip s = syscall_interrupt_handler ra clobbered (int_user next_eip s)"

section \<open>Programs\<close>

text \<open>
  \<^verbatim>\<open>exit\<close> and \<^verbatim>\<open>abort\<close> of the library and the start of a C program. \<open>um\<close> is the memory of the
  program's stack, \<open>main\<close> its main function, which leaves its result in \<^verbatim>\<open>eax\<close>; \<open>ret_exit\<close> and \<open>next_eip\<close> are the addresses
  behind the call of \<^verbatim>\<open>exit\<close> and behind the interrupt.
\<close>

partial_function (option) libc_abort :: "'a kernel_state_scheme \<Rightarrow> 'a kernel_state_scheme comp" where [code]:
  "libc_abort s = libc_abort s"

definition libc_exit :: "u32 \<Rightarrow> registers \<Rightarrow> u32 \<Rightarrow> mem \<Rightarrow> 'a kernel_state_scheme \<Rightarrow> 'a kernel_state_scheme comp" where
  "libc_exit ra clobbered next_eip um s =
     (let s1 = mov (\<lambda>m r. r\<lparr>r_ebx := load_u32 um (r_esp r + 4)\<rparr>) s;
          s2 = mov (\<lambda>m r. r\<lparr>r_eax := SYS_EXIT\<rparr>) s1
      in bindK (int80 ra clobbered next_eip s2) libc_abort)"

definition crt0_start ::
  "('a kernel_state_scheme \<Rightarrow> 'a kernel_state_scheme comp) \<Rightarrow> u32 \<Rightarrow> u32 \<Rightarrow> registers \<Rightarrow> u32 \<Rightarrow> mem \<Rightarrow> 'a kernel_state_scheme \<Rightarrow>
     'a kernel_state_scheme comp" where
  "crt0_start main ret_exit ra clobbered next_eip um s =
     bindK (main s) (\<lambda>s1.
     let sp = r_esp (regs s1) - 4;
         um1 = store_u32 sp (r_eax (regs s1)) um;
         sp1 = sp - 4;
         um2 = store_u32 sp1 ret_exit um1
     in libc_exit ra clobbered next_eip um2 (mov (\<lambda>m r. r\<lparr>r_esp := sp1\<rparr>) s1))"

text \<open>The main functions of \<^verbatim>\<open>init.c\<close> and \<^verbatim>\<open>main.c\<close>.\<close>

partial_function (option) init_main :: "'a kernel_state_scheme \<Rightarrow> 'a kernel_state_scheme comp" where [code]:
  "init_main s = init_main s"

definition main_main :: "'a kernel_state_scheme \<Rightarrow> 'a kernel_state_scheme comp" where
  "main_main s = ret (mov (\<lambda>m r. r\<lparr>r_eax := 0xbabe\<rparr>) s)"

text \<open>\<^verbatim>\<open>hello_userspace.s\<close> up to its second system call; \<open>um\<close> is its data section.\<close>

definition hello_userspace ::
  "u32 \<Rightarrow> registers \<Rightarrow> u32 \<Rightarrow> u32 \<Rightarrow> u32 \<Rightarrow> mem \<Rightarrow> 'a kernel_state_scheme \<Rightarrow> 'a kernel_state_scheme comp" where
  "hello_userspace ra clobbered next1 next2 SYSCALL_NUM um s =
     (let um1 = store_u32 SYSCALL_NUM 2 um;
          s1 = mov (\<lambda>m r. r\<lparr>r_eax := load_u32 um1 SYSCALL_NUM\<rparr>) s
      in bindK (int80 ra clobbered next1 s1) (\<lambda>s2.
         let s3 = mov (\<lambda>m r. r\<lparr>r_ebx := 0xdeadbabe\<rparr>) s2;
             s4 = mov (\<lambda>m r. r\<lparr>r_ecx := 0xdead\<rparr>) s3;
             s5 = mov (\<lambda>m r. r\<lparr>r_ecx := 0xbabe\<rparr>) s4;
             s6 = mov (\<lambda>m r. r\<lparr>r_edx := 0xde\<rparr>) s5;
             s7 = mov (\<lambda>m r. r\<lparr>r_esi := 0xad\<rparr>) s6;
             s8 = mov (\<lambda>m r. r\<lparr>r_edi := 0xbb\<rparr>) s7
         in int80 ra clobbered next2 s8))"

section \<open>What the stubs do\<close>

lemma user_selectors:
  "ucast (ucast x :: u32) = (x :: u16)"
  by (rule bit_word_eqI) (auto simp: bit_simps dest: bit_imp_le_length)

lemma cpu_flags_bit: "cpu_flags s AND FLAGS_INT_ENABLE_FLAG \<noteq> 0 \<longleftrightarrow> int_flag s"
  by (simp add: cpu_flags_def c_const)

text \<open>The frame of the system call on the stack of ring 0, from the return address of the handler up.\<close>

definition syscall_frame :: "u32 \<Rightarrow> u32 \<Rightarrow> 'a kernel_state_scheme \<Rightarrow> u32 list" where
  "syscall_frame ra next_eip s =
     (let k = tss_esp0 (tss (segments s)) - 68; r = regs s
      in [ra, k + 48, k + 12, r_eax r, r_ebx r, r_ecx r, r_edx r, r_esi r, r_edi r, k + 40, k + 44, r_ebp r,
          next_eip, ucast (cpu_cs (segments s)), cpu_flags s, r_esp r, ucast (cpu_ss (segments s))])"


primrec store_words :: "u32 \<Rightarrow> u32 list \<Rightarrow> mem \<Rightarrow> mem" where
  "store_words a [] m = m"
| "store_words a (v # vs) m = store_u32 a v (store_words (a + 4) vs m)"

lemma store_words_outside:
  assumes "4 * length vs < 4294967296" and "x \<notin> span a (4 * length vs)"
  shows "store_words a vs m x = m x"
  using assms
proof (induction vs arbitrary: a)
  case (Cons v vs)
  have "x \<notin> span (a + 4) (4 * length vs)"
  proof
    assume "x \<in> span (a + 4) (4 * length vs)"
    then obtain i where i: "i < 4 * length vs" "x = a + of_nat (4 + i)" unfolding span_def by (auto simp: add.assoc)
    have "x \<in> span a (4 * length (v # vs))" unfolding i(2) using i(1) Cons.prems(1) by (subst span_offset) simp_all
    with Cons.prems(2) show False by blast
  qed
  then have "store_words (a + 4) vs m x = m x" using Cons by simp
  then show ?case using store_u32_outside [OF Cons.prems(2), of 0] Cons.prems(1) by simp
qed simp

lemma push_simps [simp]:
  "regs (push v s) = (regs s)\<lparr>r_esp := r_esp (regs s) - 4\<rparr>" "stack (push v s) = store_u32 (r_esp (regs s) - 4) v (stack s)"
  "segments (push v s) = segments s" "int_flag (push v s) = int_flag s" "eip (push v s) = eip s"
  by (simp_all add: push_def)

lemma push_reg_simps [simp]:
  "regs (push_reg f s) = (regs s)\<lparr>r_esp := r_esp (regs s) - 4\<rparr>" "stack (push_reg f s) = store_u32 (r_esp (regs s) - 4) (f (regs s)) (stack s)"
  "segments (push_reg f s) = segments s" "int_flag (push_reg f s) = int_flag s" "eip (push_reg f s) = eip s"
  by (simp_all add: push_reg_def)

lemma pushf_simps [simp]:
  "regs (pushf s) = (regs s)\<lparr>r_esp := r_esp (regs s) - 4\<rparr>" "stack (pushf s) = store_u32 (r_esp (regs s) - 4) (cpu_flags s) (stack s)"
  "segments (pushf s) = segments s" "int_flag (pushf s) = int_flag s" "eip (pushf s) = eip s"
  by (simp_all add: pushf_def)

lemma mov_simps [simp]:
  "regs (mov f s) = f (stack s) (regs s)" "stack (mov f s) = stack s" "segments (mov f s) = segments s" "int_flag (mov f s) = int_flag s"
  "eip (mov f s) = eip s"
  by (simp_all add: mov_def)

lemma pop_simps [simp]:
  "regs (pop f s) = f (load_u32 (stack s) (r_esp (regs s))) ((regs s)\<lparr>r_esp := r_esp (regs s) + 4\<rparr>)" "stack (pop f s) = stack s"
  "segments (pop f s) = segments s" "int_flag (pop f s) = int_flag s" "eip (pop f s) = eip s"
  by (simp_all add: pop_def top_def)

lemma drop4_simps [simp]:
  "regs (drop4 s) = (regs s)\<lparr>r_esp := r_esp (regs s) + 4\<rparr>" "stack (drop4 s) = stack s" "segments (drop4 s) = segments s"
  "int_flag (drop4 s) = int_flag s" "eip (drop4 s) = eip s"
  by (simp_all add: drop4_def)

lemma int_user_simps:
  "regs (int_user n s) = (regs s)\<lparr>r_esp := tss_esp0 (tss (segments s)) - 20\<rparr>"
  "stack (int_user n s) = (let k = tss_esp0 (tss (segments s)) - 68
     in store_words (k + 48) [n, ucast (cpu_cs (segments s)), cpu_flags s, r_esp (regs s), ucast (cpu_ss (segments s))] (stack s))"
  "segments (int_user n s) = (segments s)\<lparr>cpu_ss := tss_ss0 (tss (segments s)), cpu_cs := GDT_KERNEL_CODE_SEGMENT\<rparr>"
  "int_flag (int_user n s) = False"
  by (simp_all add: int_user_def Let_def)

lemma syscall_entry_simps:
  assumes "r_esp (regs s) = k + 48"
  shows "regs (syscall_entry ra s) = (regs s)\<lparr>r_eax := k + 12, r_esp := k, r_ebp := k + 44\<rparr>"
    "stack (syscall_entry ra s) = store_words k [ra, k + 48, k + 12, r_eax (regs s), r_ebx (regs s), r_ecx (regs s), r_edx (regs s),
       r_esi (regs s), r_edi (regs s), k + 40, k + 44, r_ebp (regs s)] (stack s)"
    "segments (syscall_entry ra s) = segments s"
proof -
  define s2 where "s2 = push_reg r_esi (push_reg r_edi (push_reg r_esp (push_reg r_ebp (mov (\<lambda>m r. r\<lparr>r_ebp := r_esp r\<rparr>) (push_reg r_ebp s)))))"
  define s6 where "s6 = push_reg r_eax (push_reg r_ebx (push_reg r_ecx (push_reg r_edx s2)))"
  define s7 where "s7 = push_reg r_eax (mov (\<lambda>m r. r\<lparr>r_eax := r_esp r\<rparr>) s6)"
  define s8 where "s8 = push_reg r_eax (mov (\<lambda>m r. r\<lparr>r_eax := r_ebp r + 4\<rparr>) s7)"
  have run: "syscall_entry ra s = push ra (mov (\<lambda>m r. r\<lparr>r_eax := load_u32 m (r_esp r + 4)\<rparr>) s8)"
    by (simp only: syscall_entry_def Let_def s8_def s7_def s6_def s2_def)
  have s2: "regs s2 = (regs s)\<lparr>r_ebp := k + 44, r_esp := k + 28\<rparr>" "segments s2 = segments s"
    "stack s2 = store_words (k + 28) [r_esi (regs s), r_edi (regs s), k + 40, k + 44, r_ebp (regs s)] (stack s)"
    by (simp_all add: s2_def assms add.commute [of k])
  have s6: "regs s6 = (regs s)\<lparr>r_ebp := k + 44, r_esp := k + 12\<rparr>" "segments s6 = segments s"
    "stack s6 = store_words (k + 12) [r_eax (regs s), r_ebx (regs s), r_ecx (regs s), r_edx (regs s)] (stack s2)"
    by (simp_all add: s6_def s2(1,2) add.commute [of k])
  have s7: "regs s7 = (regs s)\<lparr>r_eax := k + 12, r_ebp := k + 44, r_esp := k + 8\<rparr>" "segments s7 = segments s"
    "stack s7 = store_u32 (k + 8) (k + 12) (stack s6)"
    by (simp_all add: s7_def s6(1,2) add.commute [of k])
  have s8: "regs s8 = (regs s)\<lparr>r_eax := k + 48, r_ebp := k + 44, r_esp := k + 4\<rparr>" "segments s8 = segments s"
    "stack s8 = store_u32 (k + 4) (k + 48) (stack s7)"
    by (simp_all add: s8_def s7(1,2) add.commute [of k])
  show "regs (syscall_entry ra s) = (regs s)\<lparr>r_eax := k + 12, r_esp := k, r_ebp := k + 44\<rparr>"
    by (simp add: run s8 s7(3) load_store_u32_other add.assoc)
  show "segments (syscall_entry ra s) = segments s" by (simp add: run s8)
  show "stack (syscall_entry ra s) = store_words k [ra, k + 48, k + 12, r_eax (regs s), r_ebx (regs s), r_ecx (regs s), r_edx (regs s),
       r_esi (regs s), r_edi (regs s), k + 40, k + 44, r_ebp (regs s)] (stack s)"
    by (simp add: run s8 s7(3) s6(3) s2(3) add.assoc)
qed

lemma syscall_entry_stack:
  "stack (syscall_entry ra (int_user next_eip s)) =
     store_words (tss_esp0 (tss (segments s)) - 68) (syscall_frame ra next_eip s) (stack s)"
  using syscall_entry_simps(2) [of "int_user next_eip s" "tss_esp0 (tss (segments s)) - 68" ra]
  by (simp add: int_user_simps syscall_frame_def Let_def)

lemma iret_user_simps:
  assumes "words_at (stack s) (r_esp (regs s)) 5 = [e, c, f, sp, ss]" and "(ucast c :: u16) AND 3 \<noteq> cpu_cs (segments s) AND 3"
  shows "regs (iret s) = (regs s)\<lparr>r_esp := sp\<rparr>" "eip (iret s) = e" "int_flag (iret s) \<longleftrightarrow> f AND FLAGS_INT_ENABLE_FLAG \<noteq> 0"
    "segments (iret s) = (segments s)\<lparr>cpu_cs := ucast c, cpu_ss := ucast ss\<rparr>" "stack (iret s) = stack s"
  using assms by (simp_all add: iret_def Let_def top_def add.assoc)

lemma syscall_leave_simps:
  assumes "words_at (stack s) (r_esp (regs s)) 17 = [a0, a1, a2, vax, vbx, vcx, vdx, vsi, vdi, r_esp (regs s) + 40, a10, vbp, e, c, f, sp, ss]"
    and "(ucast c :: u16) AND 3 \<noteq> cpu_cs (segments s) AND 3"
  shows "regs (syscall_leave s) = \<lparr>r_eax = vax, r_ebx = vbx, r_ecx = vcx, r_edx = vdx, r_esi = vsi, r_edi = vdi, r_esp = sp, r_ebp = vbp\<rparr>"
    "eip (syscall_leave s) = e" "int_flag (syscall_leave s) \<longleftrightarrow> f AND FLAGS_INT_ENABLE_FLAG \<noteq> 0"
    "segments (syscall_leave s) = (segments s)\<lparr>cpu_cs := ucast c, cpu_ss := ucast ss\<rparr>" "stack (syscall_leave s) = stack s"
proof -
  define s1 where "s1 = pop_eax (pop_eax (pop_eax (drop4 s)))"
  define s2 where "s2 = pop_edx (pop_ecx (pop_ebx s1))"
  define s3 where "s3 = pop_esp (pop_edi (pop_esi s2))"
  define s' where "s' = pop_ebp (pop_ebp s3)"
  have s1: "regs s1 = (regs s)\<lparr>r_eax := vax, r_esp := r_esp (regs s) + 16\<rparr>" "stack s1 = stack s" "segments s1 = segments s"
    using assms(1) by (simp_all add: s1_def add.assoc)
  have s2: "regs s2 = (regs s1)\<lparr>r_ebx := vbx, r_ecx := vcx, r_edx := vdx, r_esp := r_esp (regs s) + 28\<rparr>" "stack s2 = stack s" "segments s2 = segments s"
    using assms(1) by (simp_all add: s2_def s1 add.assoc)
  have s3: "regs s3 = (regs s2)\<lparr>r_esi := vsi, r_edi := vdi, r_esp := r_esp (regs s) + 40\<rparr>" "stack s3 = stack s" "segments s3 = segments s"
    using assms(1) by (simp_all add: s3_def s2 add.assoc)
  have "regs s' = (regs s3)\<lparr>r_ebp := vbp, r_esp := r_esp (regs s) + 48\<rparr>" and s': "stack s' = stack s" "segments s' = segments s"
    using assms(1) by (simp_all add: s'_def s3 add.assoc)
  then have w: "regs s' = \<lparr>r_eax = vax, r_ebx = vbx, r_ecx = vcx, r_edx = vdx, r_esi = vsi, r_edi = vdi, r_esp = r_esp (regs s) + 48, r_ebp = vbp\<rparr>"
    by (simp add: s1 s2 s3)
  have l: "syscall_leave s = iret s'" by (simp add: syscall_leave_def s'_def s3_def s2_def s1_def Let_def)
  have "words_at (stack s') (r_esp (regs s')) 5 = [e, c, f, sp, ss]" using assms(1) by (simp add: w s' add.assoc)
  note i = iret_user_simps [OF this] 
  show "regs (syscall_leave s) = \<lparr>r_eax = vax, r_ebx = vbx, r_ecx = vcx, r_edx = vdx, r_esi = vsi, r_edi = vdi, r_esp = sp, r_ebp = vbp\<rparr>"
    "eip (syscall_leave s) = e" "int_flag (syscall_leave s) \<longleftrightarrow> f AND FLAGS_INT_ENABLE_FLAG \<noteq> 0"
    "segments (syscall_leave s) = (segments s)\<lparr>cpu_cs := ucast c, cpu_ss := ucast ss\<rparr>" "stack (syscall_leave s) = stack s"
    using i assms(2) by (simp_all add: l w s')
qed

text \<open>The C part of the system call leaves the stack of its caller and the segments alone.\<close>

definition same_frame :: "'a kernel_state_scheme \<Rightarrow> 'a kernel_state_scheme \<Rightarrow> bool" where
  "same_frame s s' \<longleftrightarrow> regs s' = regs s \<and> stack s' = stack s \<and> segments s' = segments s"

lemma same_frame_simps [simp]:
  "same_frame s s" "same_frame s (kfree p s') \<longleftrightarrow> same_frame s s'" "same_frame s (s'\<lparr>io := x\<rparr>) \<longleftrightarrow> same_frame s s'"
  "same_frame s (s'\<lparr>task_lists := t\<rparr>) \<longleftrightarrow> same_frame s s'" "same_frame s (s'\<lparr>tasks_head := h\<rparr>) \<longleftrightarrow> same_frame s s'"
  "same_frame s (s'\<lparr>tasks_tail := h\<rparr>) \<longleftrightarrow> same_frame s s'" "same_frame (s\<lparr>io := x\<rparr>) s' \<longleftrightarrow> same_frame s s'"
  by (simp_all add: same_frame_def kfree_def Let_def)

lemma kfree_io: "io (kfree p s) = io s"
  by (simp add: kfree_def Let_def)

lemma sched_remove_loop_frame:
  assumes "sched_remove_loop rpid task s = Some r" shows "r = Inr s' \<longrightarrow> same_frame s s' \<and> io s' = io s"
  by (rule sched_remove_loop.raw_induct [where P = "\<lambda>rpid task s r. r = Inr s' \<longrightarrow> same_frame s s' \<and> io s' = io s", OF _ assms])
    (auto simp: kfree_io Let_def ret_def fail_def split: if_splits)

lemma sched_remove_frame: "sched_remove rpid s = ret s' \<Longrightarrow> same_frame s s' \<and> io s' = io s"
  using sched_remove_loop_frame [of rpid "tasks_tail s" s "Inr s'"]
  by (auto simp: sched_remove_def kfree_io Let_def ret_def fail_def split: if_splits)

lemma syscall_handler_frame:
  assumes "syscall_handler state r s = ret (r', s')"
  shows "r' = (if r_eax r = SYS_FORK then sys_fork r else r) \<and> same_frame s s'"
proof -
  obtain msgs where "(if r_eax r = SYS_EXIT then bindK (sys_exit r (s\<lparr>io := msgs\<rparr>)) (\<lambda>s3. ret (r, s3))
     else if r_eax r = SYS_FORK then ret (sys_fork r, s\<lparr>io := msgs\<rparr>) else fail (Panic ''unknown syscall %d'')) = ret (r', s')"
    using syscall_handler_io [of state r s] assms by auto
  then show ?thesis
    by (auto simp: sys_exit_def Let_def bindK_eq_ret assertK_eq_ret printk_debugK_def c_const split: if_splits dest: sched_remove_frame)
qed

lemma frame_words:
  "words_at (store_words k [a0, a1, a2, a3, a4, a5, a6, a7, a8, a9, a10, a11, a12, a13, a14, a15, a16] m) k 17 =
     [a0, a1, a2, a3, a4, a5, a6, a7, a8, a9, a10, a11, a12, a13, a14, a15, a16]"
  by (simp add: load_store_u32_other add.assoc add.commute [of k])

lemma store_registers_words:
  assumes "words_at m k 17 = [a0, a1, a2, a3, a4, a5, a6, a7, a8, a9, a10, a11, a12, a13, a14, a15, a16]"
  shows "words_at (store_registers (k + 12) r m) k 17 =
    [a0, a1, a2, r_eax r, r_ebx r, r_ecx r, r_edx r, r_esi r, r_edi r, r_esp r, r_ebp r, a11, a12, a13, a14, a15, a16]"
  using assms by (simp add: store_registers_def load_store_u32_other add.assoc add.commute [of k])

lemma store_registers_outside:
  assumes "x \<notin> span k 68" shows "store_registers (k + 12) r m x = m x"
proof -
  have out: "store_u32 (k + of_nat c) v m x = m x" if "c + 4 \<le> 68" for c v m using assms that by (rule store_u32_outside) simp
  from out [of 12] out [of 16] out [of 20] out [of 24] out [of 28] out [of 32] out [of 36] out [of 40]
  show ?thesis by (simp add: store_registers_def add.commute [of k])
qed

text \<open>The call of the handler: what it is given, and the way back.\<close>

lemma int80_run:
  assumes "cpu_cs (segments s) AND 3 = GDT_USER_RPL" and k: "k = tss_esp0 (tss (segments s)) - 68"
  shows "int80 ra clobbered next_eip s =
    bindK (syscall_handler \<lparr>is_eflags = next_eip, is_cs = ucast (cpu_cs (segments s)), is_eip = cpu_flags s\<rparr>
             ((regs s)\<lparr>r_esp := k + 40, r_ebp := k + 44\<rparr>) (syscall_entry ra (int_user next_eip s))) (\<lambda>(r, s2).
      ret (syscall_leave (s2\<lparr>stack := store_registers (k + 12) r (stack s2),
             regs := (regs s2)\<lparr>r_eax := r_eax clobbered, r_ecx := r_ecx clobbered, r_edx := r_edx clobbered\<rparr>\<rparr>)))"
proof -
  let ?s1 = "syscall_entry ra (int_user next_eip s)"
  have w: "words_at (stack ?s1) k 17 = syscall_frame ra next_eip s"
    unfolding syscall_entry_stack syscall_frame_def Let_def k by (rule frame_words)
  have esp: "r_esp (regs ?s1) = k"
    using syscall_entry_simps(1) [of "int_user next_eip s" k ra] by (simp add: int_user_simps k)
  have ptrs: "load_u32 (stack ?s1) (k + 4) = k + 48" "load_u32 (stack ?s1) (k + 8) = k + 12"
    "load_interrupt_state (stack ?s1) (k + 48) = \<lparr>is_eflags = next_eip, is_cs = ucast (cpu_cs (segments s)), is_eip = cpu_flags s\<rparr>"
    "load_registers (stack ?s1) (k + 12) = (regs s)\<lparr>r_esp := k + 40, r_ebp := k + 44\<rparr>"
    using w by (simp_all add: syscall_frame_def load_interrupt_state_def load_registers_def Let_def k add.assoc)
  show ?thesis by (simp add: int80_def syscall_interrupt_handler_def Let_def esp ptrs)
qed

lemma int80_resumes:
  assumes user: "cpu_cs (segments s) AND 3 = GDT_USER_RPL" and run: "int80 ra clobbered next_eip s = ret s'"
  shows "regs s' = (if r_eax (regs s) = SYS_FORK then sys_fork (regs s) else regs s)"
    "eip s' = next_eip" "int_flag s' = int_flag s" "segments s' = segments s"
    "x \<notin> span (tss_esp0 (tss (segments s)) - 68) 68 \<Longrightarrow> stack s' x = stack s x"
proof -
  define k where "k = tss_esp0 (tss (segments s)) - 68"
  let ?s1 = "syscall_entry ra (int_user next_eip s)" and ?r = "(regs s)\<lparr>r_esp := k + 40, r_ebp := k + 44\<rparr>"
  obtain r s2 where h: "syscall_handler \<lparr>is_eflags = next_eip, is_cs = ucast (cpu_cs (segments s)), is_eip = cpu_flags s\<rparr> ?r ?s1 = ret (r, s2)"
    and s': "s' = syscall_leave (s2\<lparr>stack := store_registers (k + 12) r (stack s2),
        regs := (regs s2)\<lparr>r_eax := r_eax clobbered, r_ecx := r_ecx clobbered, r_edx := r_edx clobbered\<rparr>\<rparr>)" (is "_ = syscall_leave ?s3")
    using run unfolding int80_run [OF user k_def] by (auto simp: bindK_eq_ret)
  have r: "r = (if r_eax (regs s) = SYS_FORK then sys_fork ?r else ?r)" and fr: "stack s2 = stack ?s1" "regs s2 = regs ?s1" "segments s2 = segments ?s1"
    using syscall_handler_frame [OF h] by (auto simp: same_frame_def)
  have rsp: "r_esp r = k + 40" "r_ebp r = k + 44" by (simp_all add: r sys_fork_def)
  have w: "words_at (stack ?s1) k 17 = syscall_frame ra next_eip s"
    unfolding syscall_entry_stack syscall_frame_def Let_def k_def by (rule frame_words)
  have esp: "r_esp (regs ?s1) = k" "segments ?s1 = (segments s)\<lparr>cpu_ss := tss_ss0 (tss (segments s)), cpu_cs := GDT_KERNEL_CODE_SEGMENT\<rparr>"
    using syscall_entry_simps [of "int_user next_eip s" k ra] by (simp_all add: int_user_simps k_def)
  have "words_at (stack ?s3) (r_esp (regs ?s3)) 17 = [ra, k + 48, k + 12, r_eax r, r_ebx r, r_ecx r, r_edx r, r_esi r, r_edi r,
      r_esp (regs ?s3) + 40, k + 44, r_ebp (regs s), next_eip, ucast (cpu_cs (segments s)), cpu_flags s, r_esp (regs s), ucast (cpu_ss (segments s))]"
    using store_registers_words [OF w [unfolded syscall_frame_def Let_def k_def [symmetric]], of r] rsp
    by (simp add: fr esp del: words_at_numeral)
  note leave = syscall_leave_simps [OF this, folded s']
  have "(ucast (ucast (cpu_cs (segments s)) :: u32) :: u16) AND 3 \<noteq> cpu_cs (segments ?s3) AND 3"
    using user by (simp add: user_selectors fr esp c_const)
  note leave = leave [OF this]
  show "regs s' = (if r_eax (regs s) = SYS_FORK then sys_fork (regs s) else regs s)"
    "eip s' = next_eip" "int_flag s' = int_flag s" "segments s' = segments s"
    using leave(1-4) by (simp_all add: r sys_fork_def cpu_flags_bit fr esp user_selectors)
  show "stack s' x = stack s x" if "x \<notin> span (tss_esp0 (tss (segments s)) - 68) 68"
  proof -
    have "stack ?s1 x = stack s x" unfolding syscall_entry_stack
      using that by (intro store_words_outside) (simp_all add: syscall_frame_def Let_def)
    with store_registers_outside [OF that, folded k_def] leave(5) show ?thesis by (simp add: fr)
  qed
qed

text \<open>A system call reaches the handler with the kernel's data as it was.\<close>

definition kernel_data :: "'a kernel_state_scheme \<Rightarrow> 'a kernel_state_scheme" where
  "kernel_data s = s\<lparr>regs := zero_registers, segments := example_segments, eip := 0, int_flag := False, stack := (\<lambda>_. 0)\<rparr>"

lemma kernel_data_simps [simp]:
  "kernel_data (push v s) = kernel_data s" "kernel_data (push_reg f s) = kernel_data s" "kernel_data (mov g s) = kernel_data s"
  "kernel_data (s\<lparr>regs := r\<rparr>) = kernel_data s" "kernel_data (s\<lparr>segments := sg\<rparr>) = kernel_data s" "kernel_data (s\<lparr>int_flag := b\<rparr>) = kernel_data s"
  "kernel_data (s\<lparr>stack := m\<rparr>) = kernel_data s" "kernel_data (s\<lparr>eip := e\<rparr>) = kernel_data s"
  "kernel_data (pop h s) = kernel_data s" "kernel_data (drop4 s) = kernel_data s"
  by (simp_all add: kernel_data_def push_def push_reg_def mov_def pop_def drop4_def)

lemma kernel_data_entry: "kernel_data (syscall_entry ra (int_user next_eip s)) = kernel_data s"
  by (simp add: syscall_entry_def int_user_def Let_def)

lemma kernel_data_io: "kernel_data (s\<lparr>io := x\<rparr>) = (kernel_data s)\<lparr>io := x\<rparr>"
  by (simp add: kernel_data_def)

lemma kernel_data_iret: "kernel_data (iret s) = kernel_data s"
  by (simp add: iret_def Let_def)

lemma kernel_data_leave: "kernel_data (syscall_leave s) = kernel_data s"
  by (simp add: syscall_leave_def kernel_data_iret Let_def)

lemma kernel_data_eq:
  assumes "kernel_data s' = kernel_data s"
  shows "headers s' = headers s" "KMALLOC_HEAD s' = KMALLOC_HEAD s" "task_lists s' = task_lists s" "tasks_head s' = tasks_head s"
    "tasks_tail s' = tasks_tail s" "tasks_sched_head s' = tasks_sched_head s" "tcbs s' = tcbs s" "CURRENT_TASK s' = CURRENT_TASK s" "io s' = io s"
  using assms by (cases s; cases s'; simp add: kernel_data_def)+

text \<open>The numbers that do not end a task.\<close>

lemma int80_fork_unknown:
  assumes "cpu_cs (segments s) AND 3 = GDT_USER_RPL"
  shows int80_fork: "r_eax (regs s) = SYS_FORK \<Longrightarrow> \<exists>s' msgs. int80 ra clobbered next_eip s = ret s' \<and> kernel_data s' = kernel_data (s\<lparr>io := msgs\<rparr>)"
    and int80_unknown: "r_eax (regs s) \<noteq> SYS_EXIT \<Longrightarrow> r_eax (regs s) \<noteq> SYS_FORK \<Longrightarrow>
      int80 ra clobbered next_eip s = fail (Panic ''unknown syscall %d'')"
proof -
  let ?k = "tss_esp0 (tss (segments s)) - 68"
  let ?r = "(regs s)\<lparr>r_esp := ?k + 40, r_ebp := ?k + 44\<rparr>"
  let ?s1 = "syscall_entry ra (int_user next_eip s)"
  have re: "r_eax ?r = r_eax (regs s)" by simp
  obtain msgs where h: "syscall_handler \<lparr>is_eflags = next_eip, is_cs = ucast (cpu_cs (segments s)), is_eip = cpu_flags s\<rparr> ?r ?s1 =
      (if r_eax (regs s) = SYS_EXIT then bindK (sys_exit ?r (?s1\<lparr>io := msgs\<rparr>)) (\<lambda>s3. ret (?r, s3))
       else if r_eax (regs s) = SYS_FORK then ret (sys_fork ?r, ?s1\<lparr>io := msgs\<rparr>) else fail (Panic ''unknown syscall %d''))"
    using syscall_handler_io [of _ ?r ?s1] unfolding re by blast
  note run = int80_run [OF assms refl, of ra clobbered next_eip, unfolded h]
  show "\<exists>s' msgs. int80 ra clobbered next_eip s = ret s' \<and> kernel_data s' = kernel_data (s\<lparr>io := msgs\<rparr>)" if "r_eax (regs s) = SYS_FORK"
    unfolding run using that by (auto simp: c_const kernel_data_leave kernel_data_io kernel_data_entry)
  show "int80 ra clobbered next_eip s = fail (Panic ''unknown syscall %d'')"
    if "r_eax (regs s) \<noteq> SYS_EXIT" "r_eax (regs s) \<noteq> SYS_FORK" unfolding run using that by simp
qed

lemma sched_inv_data:
  assumes "kernel_data s' = kernel_data s" shows "sched_inv s' L xs \<longleftrightarrow> sched_inv s L xs"
  using kernel_data_eq [OF assms] kmalloc_inv_heap [of s' s] by (simp add: sched_inv_def ring_def)

lemma sys_exit_last:
  assumes "sched_inv s L (h # xs)" and "xs \<noteq> []" and "parent (current s) \<noteq> NULL"
    and "pid (current s) \<noteq> 0" and "pid (current s) \<noteq> INIT_PID" and "pid_of s (last xs) = pid (current s)"
  shows "\<exists>s'. sys_exit r s = ret s' \<and> ring s' [h] \<and> CURRENT_TASK s' = CURRENT_TASK s \<and>
    messages (io s') = messages (io s) @ [(PRINTK_DEBUG, line ''task %u exited with status %#x'', [n32 (pid (current s)), n32 (r_ebx r)])]"
proof -
  obtain s1 where s1: "sched_remove (pid (current s)) s = ret s1" "ring s1 [h]" "CURRENT_TASK s1 = CURRENT_TASK s"
    using sched_remove_last [OF assms(1,2,4-6)] by blast
  moreover have "io s1 = io s" using sched_remove_frame [OF s1(1)] by simp
  ultimately show ?thesis using assms(3) by (auto simp: sys_exit_def Let_def printk_debugK_def)
qed

lemma libc_abort_diverges: "libc_abort s = None"
proof (cases "libc_abort s")
  case (Some r)
  have False by (rule libc_abort.raw_induct [where P = "\<lambda>_ _. False", OF _ Some])
  then show ?thesis ..
qed

lemma init_main_diverges: "init_main s = None"
proof (cases "init_main s")
  case (Some r)
  have False by (rule init_main.raw_induct [where P = "\<lambda>_ _. False", OF _ Some])
  then show ?thesis ..
qed

text \<open>The start of a program whose main function returns, as far as the system call that ends it.\<close>

lemma crt0_start_exit:
  assumes "main s = ret s1"
  shows "crt0_start main ret_exit ra clobbered next_eip um s =
    bindK (int80 ra clobbered next_eip (s1\<lparr>regs := (regs s1)\<lparr>r_esp := r_esp (regs s1) - 8, r_ebx := r_eax (regs s1), r_eax := SYS_EXIT\<rparr>\<rparr>)) libc_abort"
  by (simp add: crt0_start_def assms libc_exit_def mov_def load_store_u32_other Let_def)

lemma switch_segments:
  "segments (switch_to ra task s) = (segments s)\<lparr>tss := (tss (segments s))\<lparr>tss_esp0 := esp0 (tcbs s task)\<rparr>\<rparr>"
  by (simp add: do_task_switch_def save_registers_call restore_registers_simps change_task_def Let_def)

lemma init_goto_user_mode_enters:
  assumes "cpu_cs (segments s) AND 3 = 0"
  shows "eip (init_goto_user_mode s) = top s" "r_esp (regs (init_goto_user_mode s)) = USER_STACK_TOP" "int_flag (init_goto_user_mode s)"
    "segments (init_goto_user_mode s) = (segments s)\<lparr>cpu_cs := 0x1b, cpu_ss := 0x23, cpu_ds := 0x23, cpu_es := 0x23, cpu_fs := 0x23, cpu_gs := 0x23\<rparr>"
proof -
  define data :: u16 where "data = GDT_USER_DATA_SEGMENT OR GDT_USER_RPL"
  define s3 where "s3 = mov (\<lambda>m r. r\<lparr>r_esi := load_u32 m (r_esp r)\<rparr>) ((mov (\<lambda>m r. r\<lparr>r_eax := (r_eax r AND 0xffff0000) OR ucast data\<rparr>) (s\<lparr>int_flag := False\<rparr>))
      \<lparr>segments := (segments s)\<lparr>cpu_ds := data, cpu_es := data, cpu_fs := data, cpu_gs := data\<rparr>\<rparr>)"
  define s4 where "s4 = pushf (push USER_STACK_TOP (push (ucast data) s3))"
  define s6 where "s6 = push_reg r_esi (push (ucast (GDT_USER_CODE_SEGMENT OR GDT_USER_RPL))
      (s4\<lparr>stack := store_u32 (r_esp (regs s4)) (top s4 OR FLAGS_INT_ENABLE_FLAG) (stack s4)\<rparr>))"
  have run: "init_goto_user_mode s = iret s6" by (simp add: init_goto_user_mode_def s6_def s4_def s3_def data_def Let_def)
  define k where "k = r_esp (regs s) - 20"
  have k: "r_esp (regs s) = k + 20" by (simp add: k_def)
  have s3: "r_esp (regs s3) = k + 20" "r_esi (regs s3) = top s" "\<not> int_flag s3" "stack s3 = stack s"
    "segments s3 = (segments s)\<lparr>cpu_ds := data, cpu_es := data, cpu_fs := data, cpu_gs := data\<rparr>"
    by (simp_all add: s3_def k top_def)
  have s4: "r_esp (regs s4) = k + 8" "r_esi (regs s4) = top s" "segments s4 = segments s3"
    "stack s4 = store_u32 (k + 8) 0 (store_u32 (k + 12) USER_STACK_TOP (store_u32 (k + 16) (ucast data) (stack s)))"
    by (simp_all add: s4_def s3 cpu_flags_def add.commute [of k])
  have s6: "r_esp (regs s6) = k" "segments s6 = segments s3"
    "words_at (stack s6) k 5 = [top s, ucast (GDT_USER_CODE_SEGMENT OR GDT_USER_RPL), FLAGS_INT_ENABLE_FLAG, USER_STACK_TOP, ucast data]"
    by (simp_all add: s6_def s4 top_def [of s4] load_store_u32_other add.assoc add.commute [of k])
  note i = iret_user_simps [of s6, unfolded s6(1), OF s6(3)]
  show "eip (init_goto_user_mode s) = top s" "r_esp (regs (init_goto_user_mode s)) = USER_STACK_TOP" "int_flag (init_goto_user_mode s)"
    "segments (init_goto_user_mode s) = (segments s)\<lparr>cpu_cs := 0x1b, cpu_ss := 0x23, cpu_ds := 0x23, cpu_es := 0x23, cpu_fs := 0x23, cpu_gs := 0x23\<rparr>"
    using i assms by (simp_all add: run s6(2) s3 data_def c_const)
qed

section \<open>Properties\<close>



text \<open>C11. A system call from user mode comes back: whenever the interrupt returns, the program continues
  behind its \<^verbatim>\<open>int\<close> instruction with all its registers, its stack, its segments and its interrupt flag, except that a
  fork has changed \<^verbatim>\<open>eax\<close>, and of the kernel stack only the 68 bytes below the top were used. A fork always returns,
  and an unknown number never does.\<close>

theorem int80_roundtrip:
  assumes "cpu_cs (segments s) AND 3 = GDT_USER_RPL"
  shows "(\<forall>s'. int80 ra clobbered next_eip s = ret s' \<longrightarrow>
      regs s' = (if r_eax (regs s) = SYS_FORK then (regs s)\<lparr>r_eax := 0xbeef\<rparr> else regs s) \<and>
      eip s' = next_eip \<and> int_flag s' = int_flag s \<and> segments s' = segments s \<and>
      (\<forall>x. x \<notin> span (tss_esp0 (tss (segments s)) - 68) 68 \<longrightarrow> stack s' x = stack s x)) \<and>
    (r_eax (regs s) = SYS_FORK \<longrightarrow> (\<exists>s'. int80 ra clobbered next_eip s = ret s')) \<and>
    (r_eax (regs s) \<noteq> SYS_EXIT \<and> r_eax (regs s) \<noteq> SYS_FORK \<longrightarrow> int80 ra clobbered next_eip s = fail (Panic ''unknown syscall %d''))"
proof (intro conjI allI impI)
  fix s' x assume run: "int80 ra clobbered next_eip s = ret s'"
  note resumed = int80_resumes [OF assms run]
  show "regs s' = (if r_eax (regs s) = SYS_FORK then (regs s)\<lparr>r_eax := 0xbeef\<rparr> else regs s)" using resumed(1) by (simp add: sys_fork_def)
  show "eip s' = next_eip" "int_flag s' = int_flag s" "segments s' = segments s" using resumed(2-4) by simp_all
  show "stack s' x = stack s x" if "x \<notin> span (tss_esp0 (tss (segments s)) - 68) 68" using that by (rule resumed(5))
next
  assume "r_eax (regs s) = SYS_FORK"
  then show "\<exists>s'. int80 ra clobbered next_eip s = ret s'" using int80_fork [OF assms] by blast
next
  assume "r_eax (regs s) \<noteq> SYS_EXIT \<and> r_eax (regs s) \<noteq> SYS_FORK"
  then show "int80 ra clobbered next_eip s = fail (Panic ''unknown syscall %d'')" by (intro int80_unknown [OF assms]) simp_all
qed

abbreviation example_user :: "u32 \<Rightarrow> kernel_state" where
  "example_user n \<equiv> two_tasks\<lparr>CURRENT_TASK := example_node 0xE0001100 0, regs := zero_registers\<lparr>r_eax := n\<rparr>, segments := example_segments\<lparr>cpu_cs := 0x1b\<rparr>\<rparr>"

theorem int80_roundtrip_witness:
  "\<exists>s'. int80 0xC0107000 zero_registers 0x8049010 (example_user 2) = ret s' \<and> regs s' = zero_registers\<lparr>r_eax := 0xbeef\<rparr> \<and> eip s' = 0x8049010"
proof -
  have "cpu_cs (segments (example_user 2)) AND 3 = GDT_USER_RPL" "r_eax (regs (example_user 2)) = SYS_FORK" by (simp_all add: c_const)
  from int80_roundtrip [OF this(1), of "0xC0107000" zero_registers "0x8049010"] this(2) show ?thesis by auto
qed



text \<open>The program \<^verbatim>\<open>hello_userspace\<close> takes the kernel down: after its fork it makes a second system
  call without loading a number, so that the result of the fork is taken for one.\<close>

theorem hello_userspace_panics:
  assumes "cpu_cs (segments s) AND 3 = GDT_USER_RPL"
  shows "hello_userspace ra clobbered next1 next2 SYSCALL_NUM um s = fail (Panic ''unknown syscall %d'')"
proof -
  let ?s1 = "mov (\<lambda>m r. r\<lparr>r_eax := 2\<rparr>) s"
  obtain s2 where s2: "int80 ra clobbered next1 ?s1 = ret s2" using int80_fork [of ?s1 ra clobbered next1] assms by (force simp: SYS_FORK_def)
  have "r_eax (regs s2) = 0xbeef" "segments s2 = segments s"
    using int80_resumes(1,4) [OF _ s2] assms by (simp_all add: sys_fork_def c_const)
  with assms show ?thesis by (simp add: hello_userspace_def s2 int80_unknown SYS_EXIT_def SYS_FORK_def Let_def)
qed

theorem hello_userspace_panics_witness:
  "hello_userspace 0xC0107000 zero_registers 0x8049010 0x8049030 0x804A000 (\<lambda>_. 0) (example_user 0) = fail (Panic ''unknown syscall %d'')"
  by (rule hello_userspace_panics) (simp add: c_const)

end
