(* ===== verification/Kernel_Run.thy ===== *)
theory Kernel_Run
  imports User_Mode
begin

text \<open>
  The kernel after the boot, as a machine that reacts to events in any order: ticks of the timer,
  scancodes of the keyboard, accesses of the running task to its memory, its instructions and its system
  calls. A run ends where a handler panics or never returns.
\<close>

section \<open>Events\<close>

text \<open>
  \<open>User_Code\<close> stands for instructions of a program that stay inside the program: they change
  the general registers and the instruction pointer. The other events are the entries into the kernel.
\<close>

datatype kernel_event =
    Timer u32
  | Keyboard
  | Access interrupt_state u32 u32
  | User_Code registers u32
  | Int80 u32 registers u32

fun kernel_step :: "kernel_env \<Rightarrow> kernel_event \<Rightarrow> 'a kernel_state_scheme \<Rightarrow> 'a kernel_state_scheme comp" where
  "kernel_step env (Timer return_addr) s = ret (timer_irq_handler return_addr s)"
| "kernel_step env Keyboard s = ret (keyboard_irq_handler env s)"
| "kernel_step env (Access state err_code va) s = bindK (touch env state err_code va s) (\<lambda>(pa, s1). ret s1)"
| "kernel_step env (User_Code r e) s = ret (s\<lparr>regs := r, eip := e\<rparr>)"
| "kernel_step env (Int80 ra clobbered next_eip) s = int80 ra clobbered next_eip s"

text \<open>A program makes system calls from user mode; calls of exit, which break the ring, are left out.\<close>

fun allowed :: "kernel_event \<Rightarrow> 'a kernel_state_scheme \<Rightarrow> bool" where
  "allowed (Int80 ra clobbered next_eip) s \<longleftrightarrow> cpu_cs (segments s) AND 3 = GDT_USER_RPL \<and> r_eax (regs s) \<noteq> SYS_EXIT"
| "allowed ev s \<longleftrightarrow> True"

inductive kernel_run :: "kernel_env \<Rightarrow> 'a kernel_state_scheme \<Rightarrow> kernel_event list \<Rightarrow> 'a kernel_state_scheme \<Rightarrow> bool" for env s where
  start: "kernel_run env s [] s"
| step: "kernel_run env s evs s' \<Longrightarrow> allowed ev s' \<Longrightarrow> kernel_step env ev s' = ret s'' \<Longrightarrow> kernel_run env s (evs @ [ev]) s''"

inductive_cases kernel_run_snocE: "kernel_run env s (evs @ [ev]) s''"

definition ticks :: "kernel_event list \<Rightarrow> nat" where
  "ticks evs = length (filter (\<lambda>ev. case ev of Timer _ \<Rightarrow> True | _ \<Rightarrow> False) evs)"

lemma ticks_simps [simp]:
  "ticks [] = 0" "ticks (evs @ [Timer ra]) = Suc (ticks evs)" "ticks (evs @ [Keyboard]) = ticks evs" "ticks (evs @ [Access st e va]) = ticks evs"
  "ticks (evs @ [User_Code r pc]) = ticks evs" "ticks (evs @ [Int80 ra c n]) = ticks evs"
  by (simp_all add: ticks_def)

section \<open>What the handlers leave alone\<close>

text \<open>The heap, the nodes of the address spaces and the ring of tasks.\<close>

definition same_data :: "'a kernel_state_scheme \<Rightarrow> 'a kernel_state_scheme \<Rightarrow> bool" where
  "same_data s s' \<longleftrightarrow> headers s' = headers s \<and> KMALLOC_HEAD s' = KMALLOC_HEAD s \<and> blocks s' = blocks s \<and> trees s' = trees s \<and>
     task_lists s' = task_lists s \<and> tasks_head s' = tasks_head s \<and> tasks_tail s' = tasks_tail s \<and> SCHED_INIT s' = SCHED_INIT s"

text \<open>The same, with the position of the scheduler and the running task.\<close>

definition same_task :: "'a kernel_state_scheme \<Rightarrow> 'a kernel_state_scheme \<Rightarrow> bool" where
  "same_task s s' \<longleftrightarrow> same_data s s' \<and> tasks_sched_head s' = tasks_sched_head s \<and> CURRENT_TASK s' = CURRENT_TASK s"

lemma same_data_refl [simp]: "same_data s s" "same_task s s"
  by (simp_all add: same_data_def same_task_def)

lemma same_data_trans: "same_data s s' \<Longrightarrow> same_data s' s'' \<Longrightarrow> same_data s s''"
  by (simp add: same_data_def)

lemma same_task_trans: "same_task s s' \<Longrightarrow> same_task s' s'' \<Longrightarrow> same_task s s''"
  by (simp add: same_data_def same_task_def)

lemma same_task_updates [simp]:
  "same_task s (s'\<lparr>io := x\<rparr>) \<longleftrightarrow> same_task s s'" "same_task s (s'\<lparr>pmm := p\<rparr>) \<longleftrightarrow> same_task s s'"
  "same_task s (s'\<lparr>paging := g\<rparr>) \<longleftrightarrow> same_task s s'" "same_task s (s'\<lparr>regs := r, eip := e\<rparr>) \<longleftrightarrow> same_task s s'"
  "same_task s (s'\<lparr>scancode_queue_ctx := q\<rparr>) \<longleftrightarrow> same_task s s'" "same_task (s\<lparr>io := x\<rparr>) s' \<longleftrightarrow> same_task s s'"
  by (simp_all add: same_task_def same_data_def)

lemma page_fault_handler_same:
  "page_fault_handler env state err_code va s = ret s' \<Longrightarrow> same_task s s'"
  by (auto simp: page_fault_handler_def log_page_fault_def printk_debugK_def alloc_page_def Let_def bindK_eq_ret assertK_eq_ret split: if_splits)

lemma touch_same:
  assumes "touch env state err_code va s = Some r" shows "r = Inr (pa, s') \<longrightarrow> same_task s s'"
proof (rule touch.raw_induct [where P = "\<lambda>env state err_code va s r. r = Inr (pa, s') \<longrightarrow> same_task s s'", OF _ assms], intro impI)
  fix f env state err_code va and s :: "'a kernel_state_scheme" and r
  assume IH: "\<And>env state err_code va s r. f env state err_code va s = Some r \<Longrightarrow> r = Inr (pa, s') \<longrightarrow> same_task s s'"
    and body: "(case translate env s va of None \<Rightarrow> bindK (page_fault_handler env state err_code va s) (f env state err_code va)
        | Some (pa, flags) \<Rightarrow> ret (pa, s)) = Some r" and r: "r = Inr (pa, s')"
  show "same_task s s'"
  proof (cases "translate env s va")
    case None
    then have "bindK (page_fault_handler env state err_code va s) (f env state err_code va) = ret (pa, s')" using body r by (simp add: ret_def)
    then obtain s1 where "page_fault_handler env state err_code va s = ret s1" "f env state err_code va s1 = ret (pa, s')"
      unfolding bindK_eq_ret by blast
    with IH [of env state err_code va s1 "Inr (pa, s')"] show ?thesis
      by (auto simp: ret_def [of "(pa, s')"] dest!: page_fault_handler_same intro: same_task_trans)
  next
    case (Some p)
    then show ?thesis using body r by (cases p) (simp add: ret_def)
  qed
qed

lemma kernel_data_same: "kernel_data s' = kernel_data s \<Longrightarrow> same_task s s'"
  by (cases s; cases s'; simp add: kernel_data_def same_task_def same_data_def)

lemma int80_same:
  assumes "cpu_cs (segments s) AND 3 = GDT_USER_RPL" and "r_eax (regs s) \<noteq> SYS_EXIT" and "int80 ra clobbered next_eip s = ret s'"
  shows "same_task s s'"
proof -
  have "r_eax (regs s) = SYS_FORK" using int80_unknown [OF assms(1,2), of ra clobbered next_eip] assms(3) by auto
  then obtain msgs where "kernel_data s' = kernel_data (s\<lparr>io := msgs\<rparr>)" using int80_fork [OF assms(1), of ra clobbered next_eip] assms(3) by auto
  from kernel_data_same [OF this] show ?thesis by simp
qed

lemma timer_same:
  assumes "SCHED_INIT s" and "s' = timer_irq_handler ra s"
  shows "same_data s s'" "tl_task (CURRENT_TASK s') = tl_task (task_lists s (tasks_sched_head s))" "tasks_sched_head s' = next_node s (tasks_sched_head s)"
  using assms
  by (simp_all add: timer_irq_handler_def sched_context_switch_def sched_switch_task_def same_data_def do_task_switch_def save_registers_call restore_registers_simps
      change_task_def Let_def)

lemma kernel_step_same:
  assumes "SCHED_INIT s" and "allowed ev s" and "kernel_step env ev s = ret s'"
  shows "(\<exists>ra. ev = Timer ra \<and> s' = timer_irq_handler ra s) \<or> ticks [ev] = 0 \<and> same_task s s'"
proof (cases ev)
  case Keyboard
  then show ?thesis using assms(3) by (auto simp: ticks_def keyboard_irq_handler_def case_prod_unfold Let_def)
next
  case (Access state err_code va)
  then obtain pa where "touch env state err_code va s = Some (Inr (pa, s'))" using assms(3) by (auto simp: bindK_eq_ret ret_def [of "(_, _)"])
  from touch_same [OF this] Access show ?thesis by (simp add: ticks_def)
next
  case (Int80 ra clobbered next_eip)
  then show ?thesis using assms(2,3) int80_same by (auto simp: ticks_def)
qed (use assms(3) in \<open>auto simp: ticks_def\<close>)

section \<open>Runs\<close>

text \<open>The state of a run after any number of events.\<close>

lemma kernel_run_state:
  assumes "kernel_run env s evs s'" and "ring s xs" and "tasks_sched_head s = hd xs" and "SCHED_INIT s"
  shows "same_data s s' \<and> tasks_sched_head s' = xs ! (ticks evs mod length xs) \<and>
    (ticks evs > 0 \<longrightarrow> tl_task (CURRENT_TASK s') = ring_tasks s xs ! ((ticks evs - 1) mod length xs))"
  using assms(1)
proof (induction rule: kernel_run.induct)
  case start
  then show ?case using assms(2,3) by (simp add: ring_def hd_conv_nth)
next
  case (step evs s' ev s'')
  let ?n = "length xs"
  have xs: "?n > 0" using assms(2) by (simp add: ring_def)
  have run: "same_data s s'" "tasks_sched_head s' = xs ! (ticks evs mod ?n)" "SCHED_INIT s'" using step.IH assms(4) by (auto simp: same_data_def)
  show ?case using kernel_step_same [OF run(3) step.hyps(2,3)]
  proof (elim disjE exE conjE)
    fix ra assume t: "ev = Timer ra" "s'' = timer_irq_handler ra s'"
    have "next_node s (xs ! (ticks evs mod ?n)) = xs ! (Suc (ticks evs) mod ?n)" by (rule ring_next [OF assms(2)])
    moreover have "ring_tasks s xs ! (ticks evs mod ?n) = tl_task (task_lists s (xs ! (ticks evs mod ?n)))" using xs by (simp add: ring_tasks_def)
    ultimately show ?thesis using timer_same [OF run(3) t(2)] run same_data_trans [OF run(1)] t(1)
      by (auto simp: same_data_def)
  next
    assume t: "ticks [ev] = 0" "same_task s' s''"
    then have "ticks (evs @ [ev]) = ticks evs" by (simp add: ticks_def)
    then show ?thesis using step.IH t(2) same_data_trans [OF run(1)] by (auto simp: same_task_def)
  qed
qed

lemma kernel_run_prefix:
  assumes "kernel_run env s evs s'" and "k \<le> length evs" shows "\<exists>s1. kernel_run env s (take k evs) s1"
  using assms
proof (induction rule: kernel_run.induct)
  case (step evs s' ev s'')
  then show ?case by (cases "k = length evs + 1") (auto intro: kernel_run.step)
qed (auto intro: kernel_run.start)

lemma ticks_prefix:
  assumes "j \<le> ticks evs" shows "\<exists>k \<le> length evs. ticks (take k evs) = j"
  using assms
proof (induction evs rule: rev_induct)
  case (snoc ev evs)
  show ?case
  proof (cases "j \<le> ticks evs")
    case True
    then obtain k where "k \<le> length evs" "ticks (take k evs) = j" using snoc.IH by blast
    then show ?thesis by (intro exI [of _ k]) simp
  next
    case False
    then have "ticks (evs @ [ev]) = j" using snoc.prems by (cases ev) auto
    then show ?thesis by (intro exI [of _ "Suc (length evs)"]) simp
  qed
qed simp

section \<open>Properties\<close>

text \<open>C7. The kernel stays well formed and fair in every interleaving: whatever the order of ticks,
  scancodes, memory accesses, program code and forks, the heap, every address space and the ring of
  tasks are as they were, the running task is the one that the number of ticks selects, and in a run with as many ticks
  as there are tasks every task of the ring has been the running one at some point.\<close>

theorem kernel_run_fair:
  assumes "kernel_run env s evs s'" and "sched_inv s L xs" and "tasks_sched_head s = hd xs" and "SCHED_INIT s"
  shows "kmalloc_inv s' L \<and> ring s' xs \<and> ring_tasks s' xs = ring_tasks s xs \<and>
    (\<forall>ctx A. space_inv (ctx, s) A \<longrightarrow> space_inv (ctx, s') A) \<and>
    (ticks evs > 0 \<longrightarrow> tl_task (CURRENT_TASK s') = ring_tasks s xs ! ((ticks evs - 1) mod length xs)) \<and>
    (length xs \<le> ticks evs \<longrightarrow> (\<forall>t \<in> set (ring_tasks s xs). \<exists>k \<le> length evs. \<exists>s1. kernel_run env s (take k evs) s1 \<and> tl_task (CURRENT_TASK s1) = t))"
proof -
  have ring: "ring s xs" "kmalloc_inv s L" using assms(2) by (simp_all add: sched_inv_def)
  note state = kernel_run_state [OF _ ring(1) assms(3,4)]
  have data: "same_data s s'" using state [OF assms(1)] by blast
  have "\<exists>k \<le> length evs. \<exists>s1. kernel_run env s (take k evs) s1 \<and> tl_task (CURRENT_TASK s1) = t"
    if len: "length xs \<le> ticks evs" and t: "t \<in> set (ring_tasks s xs)" for t
  proof -
    obtain i where i: "i < length xs" "t = ring_tasks s xs ! i" using t unfolding in_set_conv_nth by (auto simp: ring_tasks_def)
    obtain k where k: "k \<le> length evs" "ticks (take k evs) = Suc i" using ticks_prefix [of "Suc i" evs] i(1) len by auto
    obtain s1 where "kernel_run env s (take k evs) s1" using kernel_run_prefix [OF assms(1) k(1)] by blast
    with state [OF this] k i show ?thesis by auto
  qed
  moreover have "space_inv (ctx, s') A" if "space_inv (ctx, s) A" for ctx A
    using that data space_inv_cong [of s' s] by (auto simp: same_data_def)
  moreover have "kmalloc_inv s' L" using ring(2) data kmalloc_inv_heap [of s' s] by (simp add: same_data_def)
  moreover have "ring s' xs" "ring_tasks s' xs = ring_tasks s xs" using ring(1) data by (simp_all add: same_data_def ring_def ring_tasks_def)
  ultimately show ?thesis using state [OF assms(1)] by blast
qed

lemma projr_ret: "projr (the (ret x)) = x"
  by (simp add: ret_def)

lemma two_tasks_ready: "tasks_sched_head two_tasks = 0xE0000008" "SCHED_INIT two_tasks" "map (tl_task \<circ> task_lists two_tasks) [tasks_head two_tasks, tasks_tail two_tasks] = [0xE0001000, 0xE0001100]"
  by (simp_all add: two_tasks_def sched_add_def kmallocK_def one_task_def kmalloc_def kmalloc_loop.simps kmalloc_split_def kmalloc_init_def
        example_state_def example_vmm_def example_node_def c_const Let_def projr_ret)

theorem kernel_run_fair_witness:
  "\<exists>s'. kernel_run example_env two_tasks [Timer 0xC0106400, Keyboard, Timer 0xC0106400] s' \<and> tl_task (CURRENT_TASK s') = 0xE0001100"
proof -
  let ?s1 = "timer_irq_handler 0xC0106400 two_tasks"
  let ?s2 = "keyboard_irq_handler example_env ?s1"
  have "kernel_run example_env two_tasks ([] @ [Timer 0xC0106400]) ?s1" by (rule kernel_run.step [OF kernel_run.start]) simp_all
  from kernel_run.step [OF kernel_run.step [OF this, of Keyboard ?s2], of "Timer 0xC0106400"]
  have run: "kernel_run example_env two_tasks [Timer 0xC0106400, Keyboard, Timer 0xC0106400] (timer_irq_handler 0xC0106400 ?s2)" by simp
  obtain p where p: "sched_inv two_tasks {p, 0xE0000008} [0xE0000008, p]" using two_tasks_inv by blast
  then have tasks: "ring_tasks two_tasks [0xE0000008, p] = [0xE0001000, 0xE0001100]"
    using two_tasks_ready(3) by (simp add: ring_tasks_def sched_inv_def)
  have "ticks [Timer 0xC0106400, Keyboard, Timer 0xC0106400] = 2" by (simp add: ticks_def)
  with kernel_run_fair [OF run p] tasks two_tasks_ready run show ?thesis by auto
qed

end
