(* ===== verification/Start.thy ===== *)
theory Start
  imports Kernel_Main
begin

text \<open>
  The entry point of the kernel, \<^verbatim>\<open>_start\<close> of \<^verbatim>\<open>src/kernel/arch/i386/boot.S\<close> with its include files
  \<^verbatim>\<open>gdt.inc\<close>, \<^verbatim>\<open>page_directory.inc\<close> and \<^verbatim>\<open>macros.inc\<close>, \<^verbatim>\<open>_init\<close> of \<^verbatim>\<open>crti.S\<close> and \<^verbatim>\<open>crtn.S\<close>, the header in \<^verbatim>\<open>multiboot2_header.S\<close>, and
  \<^verbatim>\<open>kernel_meminfo_size\<close> of \<^verbatim>\<open>mm/meminfo.c\<close>: from the boot loader to the call of \<^verbatim>\<open>kernel_main\<close>.
  Memory is physical here, because the stack is used first without paging, then through the boot
  directory and last through the directory of \<open>paging_bootstrap\<close>. Of the registers that a C
  function may change only the result in \<^verbatim>\<open>eax\<close> is modelled, and of its stack only the return address.
\<close>

section \<open>State\<close>

record boot_state =
  b_regs :: registers
  b_cr0 :: u32
  b_cr3 :: u32
  b_cr4 :: u32
  b_dirs :: "page_table store"
  b_mem :: mem
  b_gdt :: gdt_state
  b_idt :: idt_state
  b_io :: io_state

text \<open>
  What comes from the linker, the compiler and the hardware: the symbols of \<^verbatim>\<open>linker.ld\<close> in the order of
  the structure, addresses of static objects, the return addresses of the calls, the handlers and
  the devices. \<open>ctors\<close> is the code that the compiler puts between \<^verbatim>\<open>crti.S\<close> and \<^verbatim>\<open>crtn.S\<close>.
\<close>

record boot_env =
  symbols :: kernel_meminfo
  at_tmp_gdt :: u32
  at_boot_page_directory :: u32
  at_KERNEL_PAGE_DIRECTORY :: u32
  at_tss :: u32
  at_gdt_entries :: u32
  at_idt :: u32
  isr_addr :: "isr \<Rightarrow> u32"
  boot_devices :: device
  return_to :: "nat \<Rightarrow> u32"
  ctors :: "boot_state \<Rightarrow> boot_state"

abbreviation b_esp :: "boot_state \<Rightarrow> u32" where "b_esp s \<equiv> r_esp (b_regs s)"

abbreviation set_regs :: "(registers \<Rightarrow> registers) \<Rightarrow> boot_state \<Rightarrow> boot_state" where
  "set_regs f s \<equiv> s\<lparr>b_regs := f (b_regs s)\<rparr>"

section \<open>Static data\<close>

definition KERNEL_PAGE_TABLE_ENTRY :: nat where [c_const]: "KERNEL_PAGE_TABLE_ENTRY = 768"

text \<open>The words of \<^verbatim>\<open>page_directory.inc\<close>, and the counter that the assembler places behind them.\<close>

definition boot_page_directory_words :: "u32 list" where
  "boot_page_directory_words =
     [0b10000011] @ replicate (KERNEL_PAGE_TABLE_ENTRY - 1) 0 @
     [0b10000011] @ replicate (1024 - KERNEL_PAGE_TABLE_ENTRY - 2) 0"

definition PAGE_TABLE_ENTRY_COUNT :: u32 where [c_const]: "PAGE_TABLE_ENTRY_COUNT = 1024"

definition boot_page_directory :: page_table where
  "boot_page_directory = \<lparr>entries = (\<lambda>i. if unat i < 1024 then (boot_page_directory_words @ [PAGE_TABLE_ENTRY_COUNT]) ! unat i else 0)\<rparr>"

definition null_descriptor :: segment_descriptor where
  "null_descriptor = \<lparr>limit_low = 0, base_low = 0, base_middle = 0, access_type = 0, seg_flags = 0, base_high = 0\<rparr>"

definition code_descriptor :: segment_descriptor where
  "code_descriptor = \<lparr>limit_low = 0xffff, base_low = 0, base_middle = 0, access_type = 0b10011010, seg_flags = 0b11001111, base_high = 0\<rparr>"

definition data_descriptor :: segment_descriptor where
  "data_descriptor = \<lparr>limit_low = 0xffff, base_low = 0, base_middle = 0, access_type = 0b10010010, seg_flags = 0b11001111, base_high = 0\<rparr>"

definition tmp_gdt :: "segment_descriptor list" where
  "tmp_gdt = [null_descriptor, code_descriptor, data_descriptor]"

definition TMP_GDT_CODE_SEGMENT :: u16 where [c_const]: "TMP_GDT_CODE_SEGMENT = 8"
definition TMP_GDT_DATA_SEGMENT :: u16 where [c_const]: "TMP_GDT_DATA_SEGMENT = 16"

definition tmp_gdt_descriptor :: "u32 \<Rightarrow> gdt_descriptor" where
  "tmp_gdt_descriptor addr = \<lparr>gdt_limit = of_nat (8 * length tmp_gdt) - 1, gdt_base = addr\<rparr>"

text \<open>The header in \<^verbatim>\<open>multiboot2_header.S\<close> by which the boot loader knows the kernel, as words.\<close>

definition MULTIBOOT2_HEADER_MAGIC :: u32 where [c_const]: "MULTIBOOT2_HEADER_MAGIC = 0xE85250D6"
definition MULTIBOOT2_ARCHITECTURE_I386 :: u32 where [c_const]: "MULTIBOOT2_ARCHITECTURE_I386 = 0"
definition MULTIBOOT2_HEADER_LEN :: u32 where [c_const]: "MULTIBOOT2_HEADER_LEN = 32"
definition CHECKSUM :: u32 where
  [c_const]: "CHECKSUM = - (MULTIBOOT2_HEADER_MAGIC + MULTIBOOT2_ARCHITECTURE_I386 + MULTIBOOT2_HEADER_LEN)"
definition MULTIBOOT2_HEADER_MODULE_ALIGNMENT_TAG :: u16 where [c_const]: "MULTIBOOT2_HEADER_MODULE_ALIGNMENT_TAG = 6"
definition MULTIBOOT2_HEADER_TAG_END :: u16 where [c_const]: "MULTIBOOT2_HEADER_TAG_END = 0"

definition multiboot_header :: "u32 list" where
  "multiboot_header =
     (let header_tag = (\<lambda>t :: u16. \<lambda>flags :: u16. ucast t OR push_bit 16 (ucast flags) :: u32)
      in [MULTIBOOT2_HEADER_MAGIC, MULTIBOOT2_ARCHITECTURE_I386, MULTIBOOT2_HEADER_LEN, CHECKSUM,
          header_tag MULTIBOOT2_HEADER_MODULE_ALIGNMENT_TAG 0, 8, header_tag MULTIBOOT2_HEADER_TAG_END 0, 8])"

lemma multiboot_header_valid:
  "sum_list (take 4 multiboot_header) = 0" "4 * length multiboot_header = unat MULTIBOOT2_HEADER_LEN"
  by (simp_all add: multiboot_header_def Let_def c_const)

text \<open>\<^verbatim>\<open>KERNEL_MEMINFO\<close> before \<^verbatim>\<open>kernel_main\<close> stores its argument there: a static variable is zero.\<close>

definition zero_meminfo :: kernel_meminfo where
  "zero_meminfo = \<lparr>physical_start = 0, physical_end = 0, virtual_start = 0, virtual_end = 0,
     text_virtual_start = 0, text_physical_start = 0, text_virtual_end = 0,
     rodata_virtual_start = 0, rodata_physical_start = 0, rodata_virtual_end = 0,
     data_virtual_start = 0, data_physical_start = 0, data_virtual_end = 0,
     bss_virtual_start = 0, bss_physical_start = 0, bss_virtual_end = 0, higher_half_base = 0, stack_top = 0\<rparr>"

section \<open>Memory and stack\<close>

text \<open>
  The processor's translation of an address: none without paging, large pages once \<^verbatim>\<open>CR4.PSE\<close> is set. No
  translation means a page fault without a handler, after which the machine resets. Stack words are
  aligned, so a word lies in one page.
\<close>

definition linear :: "boot_state \<Rightarrow> u32 \<Rightarrow> u32 option" where
  "linear s va =
     (if \<not> bit (b_cr0 s) 31 then Some va
      else if bit (b_cr4 s) 4 then map_option fst (pse_walk (b_dirs s (b_cr3 s)) va) else None)"

definition boot_push :: "u32 \<Rightarrow> boot_state \<Rightarrow> boot_state option" where
  "boot_push v s = map_option (\<lambda>pa. s\<lparr>b_regs := (b_regs s)\<lparr>r_esp := b_esp s - 4\<rparr>, b_mem := store_u32 pa v (b_mem s)\<rparr>)
     (linear s (b_esp s - 4))"

definition boot_load :: "boot_state \<Rightarrow> u32 \<Rightarrow> u32 option" where
  "boot_load s a = map_option (load_u32 (b_mem s)) (linear s a)"

primrec boot_pushes :: "u32 list \<Rightarrow> boot_state \<Rightarrow> boot_state option" where
  "boot_pushes [] s = Some s"
| "boot_pushes (v # vs) s = Option.bind (boot_push v s) (boot_pushes vs)"

primrec boot_loads :: "nat \<Rightarrow> boot_state \<Rightarrow> u32 \<Rightarrow> u32 list option" where
  "boot_loads 0 s a = Some []"
| "boot_loads (Suc n) s a = Option.bind (boot_load s a) (\<lambda>v. map_option (Cons v) (boot_loads n s (a + 4)))"

text \<open>\<^verbatim>\<open>call\<close> and the \<^verbatim>\<open>ret\<close> at the end of the function.\<close>

definition boot_call :: "u32 \<Rightarrow> (boot_state \<Rightarrow> boot_state option) \<Rightarrow> boot_state \<Rightarrow> boot_state option" where
  "boot_call return_addr f s =
     Option.bind (boot_push return_addr s) (\<lambda>s1. map_option (set_regs (\<lambda>r. r\<lparr>r_esp := r_esp r + 4\<rparr>)) (f s1))"

definition PUSH_KERN_MEMINFO :: "kernel_meminfo \<Rightarrow> boot_state \<Rightarrow> boot_state option" where
  "PUSH_KERN_MEMINFO ld = boot_pushes
     [stack_top ld, higher_half_base ld, bss_virtual_end ld, bss_physical_start ld, bss_virtual_start ld,
      data_virtual_end ld, data_physical_start ld, data_virtual_start ld,
      rodata_virtual_end ld, rodata_physical_start ld, rodata_virtual_start ld,
      text_virtual_end ld, text_physical_start ld, text_virtual_start ld,
      virtual_end ld, virtual_start ld, physical_end ld, physical_start ld]"

text \<open>Structures passed by value, as the called function reads them.\<close>

definition decode_meminfo :: "u32 list \<Rightarrow> kernel_meminfo" where
  "decode_meminfo ws = \<lparr>physical_start = ws ! 0, physical_end = ws ! 1, virtual_start = ws ! 2, virtual_end = ws ! 3,
     text_virtual_start = ws ! 4, text_physical_start = ws ! 5, text_virtual_end = ws ! 6,
     rodata_virtual_start = ws ! 7, rodata_physical_start = ws ! 8, rodata_virtual_end = ws ! 9,
     data_virtual_start = ws ! 10, data_physical_start = ws ! 11, data_virtual_end = ws ! 12,
     bss_virtual_start = ws ! 13, bss_physical_start = ws ! 14, bss_virtual_end = ws ! 15,
     higher_half_base = ws ! 16, stack_top = ws ! 17\<rparr>"

definition kernel_meminfo_size :: u32 where
  "kernel_meminfo_size = 18 * 4"

section \<open>The entry point\<close>

text \<open>Without paging: the stack, the two registers of the boot loader, segments and paging itself.\<close>

definition start_unpaged :: "boot_env \<Rightarrow> boot_state \<Rightarrow> boot_state option" where
  "start_unpaged env s =
     (let s1 = s\<lparr>b_idt := (b_idt s)\<lparr>cpu_if := False\<rparr>\<rparr>;
          s2 = set_regs (\<lambda>r. r\<lparr>r_esp := stack_top (symbols env) - 0xC0000000\<rparr>) s1;
          s3 = set_regs (\<lambda>r. r\<lparr>r_ebx := r_ebx r + 0xC0000000\<rparr>) s2
      in Option.bind (boot_push (r_ebx (b_regs s3)) s3) (\<lambda>s4.
         Option.bind (boot_push (r_eax (b_regs s4)) s4) (\<lambda>s5.
         let s6 = s5\<lparr>b_gdt := load_gdt (tmp_gdt_descriptor (at_tmp_gdt env)) TMP_GDT_CODE_SEGMENT TMP_GDT_DATA_SEGMENT (b_gdt s5)\<rparr>;
             s7 = set_regs (\<lambda>r. r\<lparr>r_eax := (r_eax r AND 0xffff0000) OR ucast TMP_GDT_DATA_SEGMENT\<rparr>) s6;
             s8 = set_regs (\<lambda>r. r\<lparr>r_ebx := b_cr4 s7 OR 0x00000010\<rparr>) s7;
             s9 = s8\<lparr>b_cr4 := r_ebx (b_regs s8)\<rparr>;
             s10 = (set_regs (\<lambda>r. r\<lparr>r_eax := at_boot_page_directory env\<rparr>) s9)\<lparr>b_cr3 := at_boot_page_directory env\<rparr>;
             s11 = set_regs (\<lambda>r. r\<lparr>r_eax := b_cr0 s10 OR 0x80000000\<rparr>) s10
         in Some (s11\<lparr>b_cr0 := r_eax (b_regs s11)\<rparr>))))"

definition call_paging_bootstrap :: "boot_env \<Rightarrow> boot_state \<Rightarrow> boot_state option" where
  "call_paging_bootstrap env = boot_call (return_to env 0) (\<lambda>s.
     Option.bind (boot_loads 18 s (b_esp s + 4)) (\<lambda>ws.
     let a = at_KERNEL_PAGE_DIRECTORY env;
         (pd, t) = paging_bootstrap (decode_meminfo ws) a (b_dirs s a)
     in Some (s\<lparr>b_dirs := (b_dirs s)(a := t), b_regs := (b_regs s)\<lparr>r_eax := pd\<rparr>\<rparr>)))"

text \<open>Through the boot directory, still at low addresses.\<close>

definition enable_paging :: "boot_env \<Rightarrow> boot_state \<Rightarrow> boot_state option" where
  "enable_paging env s =
     Option.bind (PUSH_KERN_MEMINFO (symbols env) s) (\<lambda>s1.
     Option.bind (call_paging_bootstrap env s1) (\<lambda>s2.
     let s3 = set_regs (\<lambda>r. r\<lparr>r_ebx := r_eax r\<rparr>) s2
     in Option.bind (boot_call (return_to env 1) (\<lambda>s. Some (set_regs (\<lambda>r. r\<lparr>r_eax := kernel_meminfo_size\<rparr>) s)) s3) (\<lambda>s4.
        Some (set_regs (\<lambda>r. r\<lparr>r_esp := r_esp r + r_eax r\<rparr>) s4))))"

text \<open>The higher half up to the point where interrupts are enabled.\<close>

definition higher_half_idt :: "boot_env \<Rightarrow> boot_state \<Rightarrow> boot_state option" where
  "higher_half_idt env s =
     (let s1 = set_regs (\<lambda>r. r\<lparr>r_esp := stack_top (symbols env)\<rparr>) s;
          s2 = set_regs (\<lambda>r. r\<lparr>r_esp := r_esp r - 8\<rparr>) s1;
          s3 = s2\<lparr>b_cr3 := r_ebx (b_regs s2)\<rparr>
      in boot_call (return_to env 2) (\<lambda>s.
           let (idt', io') = idt_init (isr_addr env) (at_idt env) (boot_devices env) (b_idt s) (b_io s)
           in Some (s\<lparr>b_idt := idt', b_io := io'\<rparr>)) s3)"

definition crt_init :: "boot_env \<Rightarrow> boot_state \<Rightarrow> boot_state option" where
  "crt_init env s =
     Option.bind (boot_push (r_ebp (b_regs s)) s) (\<lambda>s1.
     let s2 = ctors env (set_regs (\<lambda>r. r\<lparr>r_ebp := r_esp r\<rparr>) s1)
     in map_option (\<lambda>v. set_regs (\<lambda>r. r\<lparr>r_ebp := v, r_esp := r_esp r + 4\<rparr>) s2) (boot_load s2 (b_esp s2)))"

definition higher_half_main :: "boot_env \<Rightarrow> boot_state \<Rightarrow> (kernel_meminfo \<times> multiboot_info \<times> boot_state) option" where
  "higher_half_main env s =
     Option.bind (boot_call (return_to env 3) (\<lambda>s.
       Some (s\<lparr>b_gdt := gdt_init zero_meminfo (at_tss env) (at_gdt_entries env) (b_gdt s)\<rparr>)) s) (\<lambda>s1.
     Option.bind (boot_call (return_to env 4) (crt_init env) s1) (\<lambda>s2.
     Option.bind (PUSH_KERN_MEMINFO (symbols env) s2) (\<lambda>s3.
     Option.bind (boot_push (return_to env 5) s3) (\<lambda>s4.
     Option.bind (boot_loads 20 s4 (b_esp s4 + 4)) (\<lambda>ws.
     Some (decode_meminfo ws, \<lparr>mb_magic = ws ! 18, mb_addr = ws ! 19\<rparr>, s4))))))"

text \<open>\<^verbatim>\<open>_start\<close> up to the call of \<^verbatim>\<open>kernel_main\<close>: its arguments and the state at its first instruction.\<close>

definition boot_until_idt :: "boot_env \<Rightarrow> boot_state \<Rightarrow> boot_state option" where
  "boot_until_idt env s = Option.bind (start_unpaged env s) (\<lambda>s1. Option.bind (enable_paging env s1) (higher_half_idt env))"

definition boot_start :: "boot_env \<Rightarrow> boot_state \<Rightarrow> (kernel_meminfo \<times> multiboot_info \<times> boot_state) option" where
  "boot_start env s = Option.bind (boot_until_idt env s) (higher_half_main env)"

section \<open>The boot directory\<close>

lemma boot_page_directory_entries:
  "entries boot_page_directory i = (if i = 0 \<or> i = 768 then 0x83 else if i = 1023 then 1024 else 0)"
proof (cases "unat i < 1024")
  case True
  have eq: "i = 0 \<longleftrightarrow> unat i = 0" "i = 768 \<longleftrightarrow> unat i = 768" "i = 1023 \<longleftrightarrow> unat i = 1023" by (auto simp: word_unat_eq_iff)
  show ?thesis using True unfolding boot_page_directory_def boot_page_directory_words_def eq
    by (auto simp: c_const nth_append nth_Cons' simp del: unat_eq_0 unat_eq_zero)
next
  case False
  then have "i \<noteq> 0" "i \<noteq> 768" "i \<noteq> 1023" by auto
  with False show ?thesis by (simp add: boot_page_directory_def)
qed

text \<open>The directory is a word short, so its last entry is the counter; the counter is not a present entry.\<close>

lemma boot_page_directory_short: "length boot_page_directory_words = 1023"
  by (simp add: boot_page_directory_words_def c_const)

lemma div_is: "unat (v :: u32) div 4194304 = k \<longleftrightarrow> k * 4194304 \<le> unat v \<and> unat v < Suc k * 4194304"
proof -
  have "unat v div 4194304 = k \<longleftrightarrow> k \<le> unat v div 4194304 \<and> unat v div 4194304 < Suc k" by linarith
  then show ?thesis by (simp only: less_eq_div_iff_mult_less_eq div_less_iff_less_mult zero_less_numeral)
qed

lemma boot_directory_walk:
  "pse_walk boot_page_directory v =
     (if v < 0x400000 \<or> 0xC0000000 \<le> v \<and> v < 0xC0400000 then Some (v AND 0x3FFFFF, 3) else None)"
proof -
  have "PAGE_DIRECTORY_INDEX v = 0 \<longleftrightarrow> v < 0x400000" "PAGE_DIRECTORY_INDEX v = 768 \<longleftrightarrow> 0xC0000000 \<le> v \<and> v < 0xC0400000"
    unfolding word_unat_eq_iff directory_index_unat word_less_nat_alt word_le_nat_alt div_is by simp_all
  then show ?thesis by (auto simp: pse_walk_def boot_page_directory_entries Let_def c_const)
qed

section \<open>The stack\<close>

lemma linear_simps [simp]:
  "linear (s\<lparr>b_regs := r\<rparr>) = linear s" "linear (s\<lparr>b_mem := m\<rparr>) = linear s" "linear (s\<lparr>b_gdt := g\<rparr>) = linear s"
  "linear (s\<lparr>b_idt := d\<rparr>) = linear s" "linear (s\<lparr>b_io := i\<rparr>) = linear s"
  by (simp_all add: linear_def fun_eq_iff)

primrec push_words :: "u32 \<Rightarrow> u32 list \<Rightarrow> mem \<Rightarrow> mem" where
  "push_words p [] m = m"
| "push_words p (v # vs) m = push_words (p - 4) vs (store_u32 (p - 4) v m)"

text \<open>The \<open>n\<close> words below the stack pointer are mapped to the words below the physical address \<open>p\<close>.\<close>

definition stack_mapped :: "boot_state \<Rightarrow> u32 \<Rightarrow> nat \<Rightarrow> bool" where
  "stack_mapped s p n \<longleftrightarrow> (\<forall>k \<in> {1..n}. linear s (b_esp s - of_nat (4 * k)) = Some (p - of_nat (4 * k)))"

lemma boot_push_mapped:
  assumes "stack_mapped s p (Suc n)"
  shows "boot_push v s = Some (s\<lparr>b_regs := (b_regs s)\<lparr>r_esp := b_esp s - 4\<rparr>, b_mem := store_u32 (p - 4) v (b_mem s)\<rparr>)"
  using assms unfolding stack_mapped_def boot_push_def by (force simp: Ball_def)

lemma stack_mapped_below:
  assumes "stack_mapped s p (m + n)" and "linear s' = linear s" and "b_esp s' = b_esp s - of_nat (4 * m)"
  shows "stack_mapped s' (p - of_nat (4 * m)) n"
  unfolding stack_mapped_def
proof
  fix k assume "k \<in> {1..n}"
  then have "linear s (b_esp s - of_nat (4 * (m + k))) = Some (p - of_nat (4 * (m + k)))"
    using bspec [OF assms(1) [unfolded stack_mapped_def], of "m + k"] by simp
  then show "linear s' (b_esp s' - of_nat (4 * k)) = Some (p - of_nat (4 * m) - of_nat (4 * k))"
    by (simp add: assms(2,3) diff_diff_eq distrib_left)
qed

lemma boot_pushes_mapped:
  assumes "stack_mapped s p (length vs + n)"
  shows "boot_pushes vs s = Some (s\<lparr>b_regs := (b_regs s)\<lparr>r_esp := b_esp s - of_nat (4 * length vs)\<rparr>, b_mem := push_words p vs (b_mem s)\<rparr>)"
  using assms
proof (induction vs arbitrary: s p)
  case (Cons v vs)
  let ?s1 = "s\<lparr>b_regs := (b_regs s)\<lparr>r_esp := b_esp s - 4\<rparr>, b_mem := store_u32 (p - 4) v (b_mem s)\<rparr>"
  have "boot_push v s = Some ?s1" using Cons.prems boot_push_mapped by simp
  moreover have "stack_mapped ?s1 (p - 4) (length vs + n)"
    using stack_mapped_below [of s p 1 "length vs + n" ?s1] Cons.prems by simp
  from Cons.IH [OF this] have "boot_pushes vs ?s1 = Some (?s1\<lparr>b_regs := (b_regs ?s1)\<lparr>r_esp := b_esp ?s1 - of_nat (4 * length vs)\<rparr>,
      b_mem := push_words (p - 4) vs (b_mem ?s1)\<rparr>)" .
  ultimately show ?case by (simp add: diff_diff_eq)
qed simp

text \<open>Words that were pushed are found again, and words above them stay.\<close>

lemma load_push_above:
  assumes "4 * (length vs + j + 1) \<le> 4294967296"
  shows "load_u32 (push_words p vs m) (p + of_nat (4 * j)) = load_u32 m (p + of_nat (4 * j))"
  using assms
proof (induction vs arbitrary: p m j)
  case (Cons v vs)
  have "p + of_nat (4 * j) = p - 4 + of_nat (4 * Suc j)" by simp
  then have "load_u32 (push_words p (v # vs) m) (p + of_nat (4 * j)) = load_u32 (store_u32 (p - 4) v m) (p + of_nat (4 * j))"
    using Cons.IH [of "Suc j" "p - 4" "store_u32 (p - 4) v m"] Cons.prems by (simp only: push_words.simps length_Cons) simp
  also have "\<dots> = load_u32 m (p + of_nat (4 * j))"
  proof (rule load_store_u32_other)
    have lt: "4 + 4 * j < 4294967296" using Cons.prems by simp
    have "p + of_nat (4 * j) - (p - 4) = of_nat (4 + 4 * j)" by simp
    then have u: "unat (p + of_nat (4 * j) - (p - 4)) = 4 + 4 * j" using lt by (simp only: unat_of_nat) simp
    then show "4 \<le> unat (p + of_nat (4 * j) - (p - 4))" by simp
    have "p + of_nat (4 * j) \<noteq> p - 4" using u by auto
    from unat_minus_pair [OF this] u Cons.prems show "4 \<le> unat (p - 4 - (p + of_nat (4 * j)))" by simp
  qed
  finally show ?case .
qed simp

lemma load_push:
  assumes "k < length vs" and "4 * length vs \<le> 4294967296"
  shows "load_u32 (push_words p vs m) (p - of_nat (4 * Suc k)) = vs ! k"
  using assms
proof (induction vs arbitrary: p m k)
  case (Cons v vs)
  show ?case
  proof (cases k)
    case 0
    then show ?thesis using load_push_above [of vs 0 "p - 4" "store_u32 (p - 4) v m"] Cons.prems by simp
  next
    case (Suc l)
    have "p - of_nat (4 * Suc k) = p - 4 - of_nat (4 * Suc l)" by (simp add: Suc)
    then show ?thesis using Cons.IH [of l "p - 4" "store_u32 (p - 4) v m"] Cons.prems Suc by (simp only: push_words.simps) simp
  qed
qed simp

lemma boot_loads_mapped:
  assumes "\<forall>i < n. linear s (a + of_nat (4 * i)) = Some (p + of_nat (4 * i))"
  shows "boot_loads n s a = Some (map (\<lambda>i. load_u32 (b_mem s) (p + of_nat (4 * i))) [0..<n])"
  using assms
proof (induction n arbitrary: a p)
  case (Suc n)
  have "linear s a = Some p" using Suc.prems [rule_format, of 0] by simp
  moreover have "\<forall>i < n. linear s (a + 4 + of_nat (4 * i)) = Some (p + 4 + of_nat (4 * i))"
  proof (intro allI impI)
    fix i assume "i < n"
    then show "linear s (a + 4 + of_nat (4 * i)) = Some (p + 4 + of_nat (4 * i))"
      using Suc.prems [rule_format, of "Suc i"] by (simp add: algebra_simps)
  qed
  from Suc.IH [OF this] have "boot_loads n s (a + 4) = Some (map (\<lambda>i. load_u32 (b_mem s) (p + 4 + of_nat (4 * i))) [0..<n])" .
  ultimately show ?case by (simp add: boot_load_def map_upt_Suc algebra_simps del: upt_Suc)
qed simp

text \<open>Both in one place: a region that is mapped with a constant offset.\<close>

definition mapped_region :: "boot_state \<Rightarrow> u32 \<Rightarrow> u32 \<Rightarrow> u32 \<Rightarrow> bool" where
  "mapped_region s lo hi d \<longleftrightarrow> (\<forall>v. lo \<le> v \<and> v < hi \<longrightarrow> linear s v = Some (v - d))"

lemma mapped_region_cong: "linear s' = linear s \<Longrightarrow> mapped_region s' lo hi d \<longleftrightarrow> mapped_region s lo hi d"
  by (simp add: mapped_region_def)

lemma region_stack:
  assumes "mapped_region s lo hi d" and "b_esp s \<le> hi" and "unat lo + 4 * n \<le> unat (b_esp s)"
  shows "stack_mapped s (b_esp s - d) n"
  unfolding stack_mapped_def
proof
  fix k assume "k \<in> {1..n}"
  then have k: "1 \<le> k" "4 * k \<le> 4 * n" by simp_all
  moreover have "unat (b_esp s) < 4294967296" by simp
  ultimately have "4 * k < 4294967296" using assms(3) by linarith
  then have u: "unat (of_nat (4 * k) :: u32) = 4 * k" by (simp only: unat_of_nat) simp
  have "of_nat (4 * k) \<le> b_esp s" using assms(3) k(2) by (simp only: word_le_nat_alt u)
  from unat_sub [OF this] have "unat (b_esp s - of_nat (4 * k)) = unat (b_esp s) - 4 * k" by (simp only: u)
  then have "lo \<le> b_esp s - of_nat (4 * k)" "b_esp s - of_nat (4 * k) < hi"
    using assms(2,3) k by (simp_all only: word_le_nat_alt word_less_nat_alt)
  then show "linear s (b_esp s - of_nat (4 * k)) = Some (b_esp s - d - of_nat (4 * k))"
    using assms(1) by (simp add: mapped_region_def algebra_simps)
qed

lemma region_loads:
  assumes "mapped_region s lo hi d" and "lo \<le> a" and "unat a + 4 * n \<le> unat hi"
  shows "boot_loads n s a = Some (map (\<lambda>i. load_u32 (b_mem s) (a - d + of_nat (4 * i))) [0..<n])"
proof (rule boot_loads_mapped, intro allI impI)
  fix i assume "i < n"
  moreover have "unat hi < 4294967296" by simp
  ultimately have lt: "4 * i < 4294967296" "unat a + 4 * i < 4294967296" using assms(3) by linarith+
  then have "unat (of_nat (4 * i) :: u32) = 4 * i" by (simp only: unat_of_nat) simp
  then have "unat (a + of_nat (4 * i)) = unat a + 4 * i" using lt by (simp only: unat_word_ariths) simp
  then have "lo \<le> a + of_nat (4 * i)" "a + of_nat (4 * i) < hi"
    using assms(2,3) \<open>i < n\<close> by (simp_all only: word_le_nat_alt word_less_nat_alt)
  then show "linear s (a + of_nat (4 * i)) = Some (a - d + of_nat (4 * i))"
    using assms(1) by (simp add: mapped_region_def algebra_simps)
qed

text \<open>The words a function finds on its stack when they were pushed in reverse.\<close>

lemma loads_push_words:
  assumes "4 * length vs \<le> 4294967296" and "a = p - of_nat (4 * length vs)"
  shows "map (\<lambda>i. load_u32 (push_words p vs m) (a + of_nat (4 * i))) [0..<length vs] = rev vs"
proof (rule nth_equalityI)
  fix i assume i: "i < length (map (\<lambda>i. load_u32 (push_words p vs m) (a + of_nat (4 * i))) [0..<length vs])"
  then have "4 * length vs = 4 * Suc (length vs - Suc i) + 4 * i" by simp
  then have "a + of_nat (4 * i) = p - of_nat (4 * Suc (length vs - Suc i))"
    unfolding assms(2) by (simp only: of_nat_add diff_add_eq_diff_diff_swap) simp
  moreover have "load_u32 (push_words p vs m) (p - of_nat (4 * Suc (length vs - Suc i))) = vs ! (length vs - Suc i)"
    using i assms(1) by (intro load_push) simp_all
  ultimately have "load_u32 (push_words p vs m) (a + of_nat (4 * i)) = vs ! (length vs - Suc i)" by (simp only:)
  with i show "map (\<lambda>i. load_u32 (push_words p vs m) (a + of_nat (4 * i))) [0..<length vs] ! i = rev vs ! i"
    by (simp add: rev_nth)
qed simp

text \<open>The same under a return address, with \<open>j\<close> words of the caller above.\<close>

lemma loads_under_return:
  assumes "length vs + j < 1000" and "a = p - of_nat (4 * length vs)"
  shows "map (\<lambda>i. load_u32 (store_u32 (a - 4) v (push_words p vs m)) (a + of_nat (4 * i))) [0..<length vs + j] =
    rev vs @ map (\<lambda>i. load_u32 m (p + of_nat (4 * i))) [0..<j]"
proof -
  let ?m = "push_words p vs m"
  have "map (\<lambda>i. load_u32 (store_u32 (a - 4) v ?m) (a + of_nat (4 * i))) [0..<length vs + j] =
      map (\<lambda>i. load_u32 ?m (a + of_nat (4 * i))) [0..<length vs + j]"
    using load_push_above [of "[v]" _ a ?m] assms(1) by (intro map_cong refl) simp
  also have "\<dots> = map (\<lambda>i. load_u32 ?m (a + of_nat (4 * i))) [0..<length vs] @ map (\<lambda>i. load_u32 ?m (a + of_nat (4 * (i + length vs)))) [0..<j]"
  proof -
    have "[0..<length vs + j] = [0..<length vs] @ map (\<lambda>i. i + length vs) [0..<j]"
      by (simp only: upt_add_eq_append [OF le0] map_add_upt add.commute [of j])
    then show ?thesis by (simp only: map_append map_map comp_def)
  qed
  also have "map (\<lambda>i. load_u32 ?m (a + of_nat (4 * i))) [0..<length vs] = rev vs"
    using assms by (intro loads_push_words) simp_all
  also have "map (\<lambda>i. load_u32 ?m (a + of_nat (4 * (i + length vs)))) [0..<j] = map (\<lambda>i. load_u32 m (p + of_nat (4 * i))) [0..<j]"
  proof (rule map_cong [OF refl])
    fix i assume "i \<in> set [0..<j]"
    moreover have "a + of_nat (4 * (i + length vs)) = p + of_nat (4 * i)" by (simp add: assms(2) distrib_left)
    ultimately show "load_u32 ?m (a + of_nat (4 * (i + length vs))) = load_u32 m (p + of_nat (4 * i))"
      using load_push_above [of vs i p m] assms(1) by (simp only: set_upt) simp
  qed
  finally show ?thesis .
qed

definition meminfo_words :: "kernel_meminfo \<Rightarrow> u32 list" where
  "meminfo_words ld = [stack_top ld, higher_half_base ld, bss_virtual_end ld, bss_physical_start ld, bss_virtual_start ld,
      data_virtual_end ld, data_physical_start ld, data_virtual_start ld,
      rodata_virtual_end ld, rodata_physical_start ld, rodata_virtual_start ld,
      text_virtual_end ld, text_physical_start ld, text_virtual_start ld,
      virtual_end ld, virtual_start ld, physical_end ld, physical_start ld]"

lemma decode_meminfo_words: "decode_meminfo (rev (meminfo_words ld) @ ws) = ld"
  by (simp add: decode_meminfo_def meminfo_words_def)

lemma length_meminfo_words [simp]: "length (meminfo_words ld) = 18"
  by (simp add: meminfo_words_def)

lemma PUSH_KERN_MEMINFO_words: "PUSH_KERN_MEMINFO ld = boot_pushes (meminfo_words ld)"
  by (simp only: PUSH_KERN_MEMINFO_def meminfo_words_def)

section \<open>The stages\<close>

text \<open>The loader's two words at the top of the stack, which starts at the physical address \<open>P\<close>.\<close>

definition saved :: "u32 \<Rightarrow> u32 \<Rightarrow> u32 \<Rightarrow> mem \<Rightarrow> bool" where
  "saved P x y m \<longleftrightarrow> load_u32 m (P - 8) = x \<and> load_u32 m (P - 4) = y"

lemma saved_push:
  assumes "length vs + j < 1000" shows "saved P x y (push_words (P - 8 - of_nat (4 * j)) vs m) \<longleftrightarrow> saved P x y m"
proof -
  have eq: "P - 8 = P - 8 - of_nat (4 * j) + of_nat (4 * j)" "P - 4 = P - 8 - of_nat (4 * j) + of_nat (4 * Suc j)" by simp_all
  show ?thesis unfolding saved_def
    using load_push_above [of vs j "P - 8 - of_nat (4 * j)" m] load_push_above [of vs "Suc j" "P - 8 - of_nat (4 * j)" m] assms
    unfolding eq [symmetric] by simp
qed

lemmas saved_push_here = saved_push [of _ 0, simplified]

lemma saved_store: "saved P x y (store_u32 (P - 84) v m) \<longleftrightarrow> saved P x y m"
  using saved_push [of "[v]" 18 P x y m] by simp

text \<open>What \<^verbatim>\<open>linker.ld\<close> says of the symbols, with the kernel's stack in the first 4 MB, as the boot directory needs.\<close>

definition linked :: "kernel_meminfo \<Rightarrow> bool" where
  "linked ld \<longleftrightarrow> physical_start ld = 0x100000 \<and> virtual_start ld = 0xC0100000 \<and> 4194304 dvd unat (virtual_end ld) \<and>
     stack_top ld \<le> virtual_end ld \<and> 0xC0104000 \<le> stack_top ld \<and> stack_top ld \<le> 0xC0400000"

text \<open>What the loader leaves: paging is off, and the image is in memory.\<close>

definition loaded :: "boot_env \<Rightarrow> boot_state \<Rightarrow> bool" where
  "loaded env s \<longleftrightarrow> linked (symbols env) \<and> \<not> bit (b_cr0 s) 31 \<and>
     b_dirs s (at_boot_page_directory env) = boot_page_directory \<and> at_KERNEL_PAGE_DIRECTORY env \<noteq> at_boot_page_directory env"

abbreviation stack_phys :: "boot_env \<Rightarrow> u32" where
  "stack_phys env \<equiv> stack_top (symbols env) - 0xC0000000"

lemma linked_stack:
  assumes "linked ld"
  shows "unat (stack_top ld - 0xC0000000) = unat (stack_top ld) - 0xC0000000" "0xC0104000 \<le> unat (stack_top ld)" "unat (stack_top ld) \<le> 0xC0400000"
proof -
  show le: "0xC0104000 \<le> unat (stack_top ld)" "unat (stack_top ld) \<le> 0xC0400000" using assms by (simp_all add: linked_def word_le_nat_alt)
  then have "0xC0000000 \<le> stack_top ld" by (simp add: word_le_nat_alt)
  from unat_sub [OF this] show "unat (stack_top ld - 0xC0000000) = unat (stack_top ld) - 0xC0000000" by simp
qed

lemma linked_sub:
  assumes "linked ld" and "n \<le> 0x104000" shows "unat (stack_top ld - 0xC0000000 - of_nat n) = unat (stack_top ld) - 0xC0000000 - n"
    and "unat (stack_top ld - of_nat n) = unat (stack_top ld) - n"
proof -
  note st = linked_stack [OF assms(1)]
  have u: "unat (of_nat n :: u32) = n" using assms(2) by (simp add: unat_of_nat)
  have "of_nat n \<le> stack_top ld - 0xC0000000" "of_nat n \<le> stack_top ld" using st u assms(2) by (simp_all add: word_le_nat_alt)
  from unat_sub [OF this(1)] unat_sub [OF this(2)] show "unat (stack_top ld - 0xC0000000 - of_nat n) = unat (stack_top ld) - 0xC0000000 - n"
    "unat (stack_top ld - of_nat n) = unat (stack_top ld) - n" by (simp_all only: u st(1))
qed

lemma start_unpaged_run:
  assumes "loaded env s"
  obtains s1 where "start_unpaged env s = Some s1" "b_esp s1 = stack_phys env - 8" "b_dirs s1 = b_dirs s"
    "b_cr3 s1 = at_boot_page_directory env" "bit (b_cr0 s1) 31" "bit (b_cr4 s1) 4"
    "saved (stack_phys env) (r_eax (b_regs s)) (r_ebx (b_regs s) + 0xC0000000) (b_mem s1)"
    "cpu_gdtr (b_gdt s1) = tmp_gdt_descriptor (at_tmp_gdt env)"
proof -
  let ?m = "push_words (stack_phys env) [r_ebx (b_regs s) + 0xC0000000, r_eax (b_regs s)] (b_mem s)"
  have off: "linear s v = Some v" for v using assms by (simp add: linear_def loaded_def)
  have "load_u32 ?m (stack_phys env - of_nat (4 * Suc 1)) = r_eax (b_regs s)" "load_u32 ?m (stack_phys env - of_nat (4 * Suc 0)) = r_ebx (b_regs s) + 0xC0000000"
    by (subst load_push; simp)+
  then have sv: "saved (stack_phys env) (r_eax (b_regs s)) (r_ebx (b_regs s) + 0xC0000000) ?m" unfolding saved_def by simp
  have "bit (0x80000000 :: u32) 31" "bit (0x10 :: u32) 4" by (simp_all add: bit_iff_odd)
  then have bits: "bit (x OR 0x80000000 :: u32) 31" "bit (x OR 0x10 :: u32) 4" for x by (simp_all only: bit_or_iff simp_thms)
  show thesis
    by (rule that, simp add: start_unpaged_def Let_def boot_push_def off)
      (use sv bits in \<open>simp_all add: diff_diff_eq load_gdt_def\<close>)
qed

lemma boot_region:
  assumes "b_dirs s (b_cr3 s) = boot_page_directory" "bit (b_cr0 s) 31" "bit (b_cr4 s) 4"
  shows "mapped_region s 0 0x400000 0"
proof -
  have "v AND 0x3FFFFF = v" if "v < 0x400000" for v :: u32
    using that unfolding large_mask take_bit_eq_mask [symmetric]
    by (intro u32_eqI) (simp add: unsigned_take_bit_eq take_bit_eq_mod word_less_nat_alt unat_mod)
  then show ?thesis using assms by (simp add: mapped_region_def linear_def boot_directory_walk)
qed

lemma call_paging_bootstrap_run:
  assumes "boot_push (return_to env 0) s = Some s1" and "b_esp s1 + 4 = a" and "boot_loads 18 s1 a = Some (rev (meminfo_words ld))"
    and "k = at_KERNEL_PAGE_DIRECTORY env"
  shows "call_paging_bootstrap env s = Some (s1\<lparr>b_dirs := (b_dirs s1)(k := snd (paging_bootstrap ld k (b_dirs s1 k))),
    b_regs := (b_regs s1)\<lparr>r_eax := k, r_esp := a\<rparr>\<rparr>)"
  using assms decode_meminfo_words [of ld "[]"]
  by (auto simp: call_paging_bootstrap_def boot_call_def paging_bootstrap_def Let_def)

lemma enable_paging_run:
  assumes "loaded env s" and "b_dirs s1 = b_dirs s" "b_esp s1 = stack_phys env - 8" "b_cr3 s1 = at_boot_page_directory env" "bit (b_cr0 s1) 31" "bit (b_cr4 s1) 4"
    and "saved (stack_phys env) x y (b_mem s1)"
  obtains s2 where "enable_paging env s1 = Some s2" "r_ebx (b_regs s2) = at_KERNEL_PAGE_DIRECTORY env"
    "b_dirs s2 (at_KERNEL_PAGE_DIRECTORY env) = snd (paging_bootstrap (symbols env) (at_KERNEL_PAGE_DIRECTORY env) (b_dirs s (at_KERNEL_PAGE_DIRECTORY env)))"
    "bit (b_cr0 s2) 31" "bit (b_cr4 s2) 4" "saved (stack_phys env) x y (b_mem s2)" "b_gdt s2 = b_gdt s1"
proof -
  let ?p = "stack_phys env - 8" and ?ws = "meminfo_words (symbols env)" and ?a = "stack_phys env - 8 - 72" and ?k = "at_KERNEL_PAGE_DIRECTORY env"
  have lk: "linked (symbols env)" using assms(1) by (simp add: loaded_def)
  note st = linked_stack [OF lk] linked_sub(1) [OF lk, of 8] linked_sub(1) [OF lk, of 80]
  have "b_dirs s1 (b_cr3 s1) = boot_page_directory" using assms by (simp add: loaded_def)
  note region = boot_region [OF this assms(5,6)]
  have "b_esp s1 \<le> 0x400000" "unat (0 :: u32) + 4 * 20 \<le> unat (b_esp s1)" using st by (simp_all add: assms(3) word_le_nat_alt)
  from region_stack [OF region this] have map20: "stack_mapped s1 ?p (length ?ws + 2)" by (simp add: assms(3))
  let ?s2 = "s1\<lparr>b_regs := (b_regs s1)\<lparr>r_esp := ?a\<rparr>, b_mem := push_words ?p ?ws (b_mem s1)\<rparr>"
  have push: "PUSH_KERN_MEMINFO (symbols env) s1 = Some ?s2"
    unfolding PUSH_KERN_MEMINFO_words boot_pushes_mapped [OF map20] by (simp add: assms(3))
  have map2: "stack_mapped ?s2 ?a (Suc 1)" using stack_mapped_below [of s1 ?p "length ?ws" 2 ?s2] map20 by (simp add: assms(3) numeral_2_eq_2)
  let ?s3 = "?s2\<lparr>b_regs := (b_regs ?s2)\<lparr>r_esp := ?a - 4\<rparr>, b_mem := store_u32 (?a - 4) (return_to env 0) (b_mem ?s2)\<rparr>"
  have ret0: "boot_push (return_to env 0) ?s2 = Some ?s3" unfolding boot_push_mapped [OF map2] by simp
  have "boot_loads 18 ?s3 ?a = Some (map (\<lambda>i. load_u32 (b_mem ?s3) (?a - 0 + of_nat (4 * i))) [0..<18])"
    using region st by (intro region_loads [where lo = 0 and hi = "0x400000"]) (simp_all add: mapped_region_def)
  also have "map (\<lambda>i. load_u32 (b_mem ?s3) (?a - 0 + of_nat (4 * i))) [0..<18] = rev ?ws"
    using loads_under_return [of ?ws 0 ?a ?p "return_to env 0" "b_mem s1"] by simp
  finally have loads: "boot_loads 18 ?s3 ?a = Some (rev ?ws)" .
  let ?t = "snd (paging_bootstrap (symbols env) ?k (b_dirs s ?k))"
  let ?s4 = "?s3\<lparr>b_dirs := (b_dirs ?s3)(?k := snd (paging_bootstrap (symbols env) ?k (b_dirs ?s3 ?k))), b_regs := (b_regs ?s3)\<lparr>r_eax := ?k, r_esp := ?a\<rparr>\<rparr>"
  have call: "call_paging_bootstrap env ?s2 = Some ?s4"
    by (rule call_paging_bootstrap_run [OF ret0 _ loads refl]) simp
  let ?s5 = "set_regs (\<lambda>r. r\<lparr>r_ebx := r_eax r\<rparr>) ?s4"
  have "linear ?s5 = linear s1"
    using assms by (auto simp: linear_def loaded_def fun_eq_iff)
  then have "stack_mapped ?s5 ?a (Suc 1)" using map2 by (simp add: stack_mapped_def)
  note ret1 = boot_push_mapped [OF this, of "return_to env 1"]
  have mem: "b_mem ?s5 = store_u32 (?a - 4) (return_to env 0) (push_words ?p ?ws (b_mem s1))" by simp
  have low: "?a - 4 = stack_phys env - 84" by simp
  have "saved (stack_phys env) x y (push_words ?p ?ws (b_mem s1))" by (rule saved_push_here [THEN iffD2, OF _ assms(7)]) simp
  then have "saved (stack_phys env) x y (store_u32 (?a - 4) (return_to env 1) (store_u32 (?a - 4) (return_to env 0) (push_words ?p ?ws (b_mem s1))))"
    unfolding low saved_store .
  then have sv: "saved (stack_phys env) x y (store_u32 (?a - 4) (return_to env 1) (b_mem ?s5))" unfolding mem .
  let ?s6 = "?s5\<lparr>b_regs := (b_regs ?s5)\<lparr>r_eax := 72, r_esp := ?p\<rparr>, b_mem := store_u32 (?a - 4) (return_to env 1) (b_mem ?s5)\<rparr>"
  have run: "enable_paging env s1 = Some ?s6"
    by (simp only: enable_paging_def push bind.bind_lunit call Let_def boot_call_def ret1) (simp add: kernel_meminfo_size_def)
  show thesis by (rule that [OF run]) (use sv assms in simp_all)
qed

lemma kernel_region:
  assumes "linked ld" and "b_dirs s (b_cr3 s) = snd (paging_bootstrap ld a t)" and "bit (b_cr0 s) 31" "bit (b_cr4 s) 4"
  shows "mapped_region s 0xC0000000 (virtual_end ld) 0xC0000000" and "v < 0xC0000000 \<Longrightarrow> linear s v = None"
proof -
  have "take_bit 22 (virtual_start ld) = take_bit 22 (physical_start ld)" "4194304 dvd unat (virtual_end ld)"
    using assms(1) by (simp_all add: linked_def take_bit_eq_mod)
  note walk = bootstrap_walk [OF this(2,1), of a t]
  have "768 \<le> unat v div 4194304 \<longleftrightarrow> 0xC0000000 \<le> v" for v :: u32
    by (simp add: less_eq_div_iff_mult_less_eq word_le_nat_alt)
  then have lin: "linear s v = (if 0xC0000000 \<le> v \<and> v < virtual_end ld then Some (v - 0xC0000000) else None)" for v
    using assms walk [of v] by (simp add: linear_def linked_def)
  then show "mapped_region s 0xC0000000 (virtual_end ld) 0xC0000000" and "v < 0xC0000000 \<Longrightarrow> linear s v = None"
    by (simp_all add: mapped_region_def not_le)
qed

text \<open>The stack in the higher half: a call finds room for its return address.\<close>

lemma high_stack:
  assumes "linked ld" and "mapped_region s 0xC0000000 (virtual_end ld) 0xC0000000" and "b_esp s = stack_top ld - 8"
  shows "stack_mapped s (stack_top ld - 0xC0000000 - 8) 20"
proof -
  note st = linked_stack [OF assms(1)] linked_sub(2) [OF assms(1), of 8]
  have "unat (stack_top ld) \<le> unat (virtual_end ld)" using assms(1) by (simp add: linked_def word_le_nat_alt)
  then have "b_esp s \<le> virtual_end ld" "unat (0xC0000000 :: u32) + 4 * 20 \<le> unat (b_esp s)"
    using st by (simp_all add: assms(3) word_le_nat_alt)
  from region_stack [OF assms(2) this] show ?thesis by (simp add: assms(3) algebra_simps)
qed

lemma high_push:
  assumes "linked ld" and "mapped_region s 0xC0000000 (virtual_end ld) 0xC0000000" and "b_esp s = stack_top ld - 8"
  shows "boot_push v s = Some (s\<lparr>b_regs := (b_regs s)\<lparr>r_esp := stack_top ld - 12\<rparr>, b_mem := push_words (stack_top ld - 0xC0000000 - 8) [v] (b_mem s)\<rparr>)"
  using boot_push_mapped [of s "stack_top ld - 0xC0000000 - 8" 19] high_stack [OF assms] by (simp add: assms(3))

lemma higher_half_idt_run:
  assumes "linked (symbols env)" and "r_ebx (b_regs s2) = k" "b_dirs s2 k = snd (paging_bootstrap (symbols env) a t)" "bit (b_cr0 s2) 31" "bit (b_cr4 s2) 4"
    and "saved (stack_phys env) x y (b_mem s2)"
  obtains s3 where "higher_half_idt env s2 = Some s3" "b_esp s3 = stack_top (symbols env) - 8"
    "mapped_region s3 0xC0000000 (virtual_end (symbols env)) 0xC0000000" "\<And>v. v < 0xC0000000 \<Longrightarrow> linear s3 v = None"
    "cpu_if (b_idt s3)" "saved (stack_phys env) x y (b_mem s3)" "b_gdt s3 = b_gdt s2"
proof -
  let ?s1 = "s2\<lparr>b_regs := (b_regs s2)\<lparr>r_esp := stack_top (symbols env) - 8\<rparr>, b_cr3 := k\<rparr>"
  have dir: "b_dirs ?s1 (b_cr3 ?s1) = snd (paging_bootstrap (symbols env) a t)" "bit (b_cr0 ?s1) 31" "bit (b_cr4 ?s1) 4" using assms by simp_all
  note region = kernel_region [OF assms(1) dir]
  note push = high_push [OF assms(1) region(1), of "return_to env 2"]
  obtain idt' io' where idt: "idt_init (isr_addr env) (at_idt env) (boot_devices env) (b_idt s2) (b_io s2) = (idt', io')" by fastforce
  then have "cpu_if idt'" by (auto simp: idt_init_def Let_def split: prod.splits)
  moreover have "saved (stack_phys env) x y (push_words (stack_phys env - 8) [return_to env 2] (b_mem s2))"
    by (simp only: saved_push_here list.size) (rule assms(6))
  ultimately show thesis
    by (intro that [of "?s1\<lparr>b_idt := idt', b_io := io', b_mem := push_words (stack_phys env - 8) [return_to env 2] (b_mem s2)\<rparr>"])
      (use region push idt assms(2) in \<open>simp_all add: higher_half_idt_def boot_call_def Let_def mapped_region_def\<close>)
qed

text \<open>The constructors keep to the calling convention and leave the processor's tables alone.\<close>

definition ctors_ok :: "boot_env \<Rightarrow> bool" where
  "ctors_ok env \<longleftrightarrow> (\<forall>s. b_esp (ctors env s) = b_esp s \<and> b_mem (ctors env s) = b_mem s \<and> linear (ctors env s) = linear s \<and>
     b_gdt (ctors env s) = b_gdt s \<and> b_idt (ctors env s) = b_idt s)"

lemma crt_init_run:
  assumes "ctors_ok env" and "stack_mapped s p (Suc n)"
  obtains s' where "crt_init env s = Some s'" "b_esp s' = b_esp s" "linear s' = linear s" "b_mem s' = push_words p [r_ebp (b_regs s)] (b_mem s)"
    "b_gdt s' = b_gdt s" "b_idt s' = b_idt s"
proof -
  let ?s1 = "s\<lparr>b_regs := (b_regs s)\<lparr>r_esp := b_esp s - 4\<rparr>, b_mem := store_u32 (p - 4) (r_ebp (b_regs s)) (b_mem s)\<rparr>"
  let ?s2 = "ctors env (set_regs (\<lambda>r. r\<lparr>r_ebp := r_esp r\<rparr>) ?s1)"
  have "linear s (b_esp s - 4) = Some (p - 4)" using bspec [OF assms(2) [unfolded stack_mapped_def], of 1] by simp
  then have load: "boot_load ?s2 (b_esp ?s2) = Some (r_ebp (b_regs s))" using assms(1) by (simp add: boot_load_def ctors_ok_def)
  show thesis
    by (rule that, simp only: crt_init_def boot_push_mapped [OF assms(2)] bind.bind_lunit Let_def load option.map)
      (use assms(1) in \<open>simp_all add: ctors_ok_def\<close>)
qed

lemma higher_half_main_run:
  assumes "linked (symbols env)" "ctors_ok env" and esp: "b_esp s = stack_top (symbols env) - 8"
    and region: "mapped_region s 0xC0000000 (virtual_end (symbols env)) 0xC0000000"
    and sv: "saved (stack_phys env) x y (b_mem s)"
  obtains s' where "higher_half_main env s = Some (symbols env, \<lparr>mb_magic = x, mb_addr = y\<rparr>, s')"
    "b_gdt s' = gdt_init zero_meminfo (at_tss env) (at_gdt_entries env) (b_gdt s)" "b_idt s' = b_idt s" "linear s' = linear s"
proof -
  let ?T = "stack_top (symbols env)" and ?p = "stack_phys env - 8" and ?ws = "meminfo_words (symbols env)" and ?hi = "virtual_end (symbols env)"
  note push = high_push [OF assms(1)] and st = high_stack [OF assms(1)]
  define s1 where "s1 = s\<lparr>b_gdt := gdt_init zero_meminfo (at_tss env) (at_gdt_entries env) (b_gdt s), b_mem := push_words ?p [return_to env 3] (b_mem s)\<rparr>"
  have call1: "boot_call (return_to env 3) (\<lambda>s. Some (s\<lparr>b_gdt := gdt_init zero_meminfo (at_tss env) (at_gdt_entries env) (b_gdt s)\<rparr>)) s = Some s1"
    unfolding boot_call_def push [OF region esp] by (simp add: s1_def esp)
  have region1: "mapped_region s1 0xC0000000 ?hi 0xC0000000" and esp1: "b_esp s1 = ?T - 8"
    using region esp by (simp_all add: s1_def mapped_region_def)
  define s2 where "s2 = s1\<lparr>b_regs := (b_regs s1)\<lparr>r_esp := ?T - 12\<rparr>, b_mem := push_words ?p [return_to env 4] (b_mem s1)\<rparr>"
  have "stack_mapped s2 (?p - of_nat (4 * 1)) 19"
    by (rule stack_mapped_below [of s1]) (use st [OF region1 esp1] in \<open>simp_all add: s2_def esp1\<close>)
  then have "stack_mapped s2 (?p - of_nat (4 * 1)) (Suc 18)" by simp
  from crt_init_run [OF assms(2) this] obtain s3 where s3: "crt_init env s2 = Some s3" "b_esp s3 = ?T - 12" "linear s3 = linear s1"
    "b_mem s3 = push_words (?p - of_nat (4 * 1)) [r_ebp (b_regs s2)] (push_words ?p [return_to env 4] (b_mem s1))"
    "b_gdt s3 = b_gdt s1" "b_idt s3 = b_idt s1" by (auto simp: s2_def)
  define s4 where "s4 = set_regs (\<lambda>r. r\<lparr>r_esp := ?T - 8\<rparr>) s3"
  have call2: "boot_call (return_to env 4) (crt_init env) s1 = Some s4"
    unfolding boot_call_def push [OF region1 esp1] bind.bind_lunit s2_def [symmetric] s3(1) by (simp add: s4_def s3(2))
  have region4: "mapped_region s4 0xC0000000 ?hi 0xC0000000" and esp4: "b_esp s4 = ?T - 8"
    using region1 by (simp_all add: s4_def mapped_region_def s3(3))
  have sv4: "saved (stack_phys env) x y (b_mem s4)"
  proof -
    have "saved (stack_phys env) x y (push_words ?p [return_to env 3] (b_mem s))" by (rule saved_push_here [THEN iffD2, OF _ sv]) simp
    then have "saved (stack_phys env) x y (push_words ?p [return_to env 4] (b_mem s1))"
      by (intro saved_push_here [THEN iffD2]) (simp_all add: s1_def)
    then have "saved (stack_phys env) x y (b_mem s3)" unfolding s3(4) by (intro saved_push [THEN iffD2]) simp_all
    then show ?thesis by (simp add: s4_def)
  qed
  have map20: "stack_mapped s4 ?p (length ?ws + 2)" using st [OF region4 esp4] by simp
  define s5 where "s5 = s4\<lparr>b_regs := (b_regs s4)\<lparr>r_esp := ?T - 80\<rparr>, b_mem := push_words ?p ?ws (b_mem s4)\<rparr>"
  have pushes: "PUSH_KERN_MEMINFO (symbols env) s4 = Some s5"
    unfolding PUSH_KERN_MEMINFO_words boot_pushes_mapped [OF map20] by (simp add: s5_def esp4)
  have "stack_mapped s5 (?p - of_nat (4 * length ?ws)) (Suc 1)"
    using stack_mapped_below [of s4 ?p "length ?ws" 2 s5] map20 by (simp add: s5_def esp4 numeral_2_eq_2)
  note ret = boot_push_mapped [OF this, of "return_to env 5"]
  define a where "a = ?p - of_nat (4 * length ?ws)"
  define s6 where "s6 = s5\<lparr>b_regs := (b_regs s5)\<lparr>r_esp := b_esp s5 - 4\<rparr>, b_mem := store_u32 (a - 4) (return_to env 5) (b_mem s5)\<rparr>"
  have region6: "mapped_region s6 0xC0000000 ?hi 0xC0000000" using region4 by (simp add: s6_def s5_def mapped_region_def)
  have "0xC0000000 \<le> ?T - 80" "unat (?T - 80) + 4 * 20 \<le> unat ?hi"
    using linked_sub(2) [OF assms(1), of 80] linked_stack [OF assms(1)] assms(1) by (simp_all add: word_le_nat_alt linked_def)
  from region_loads [OF region6 this] have "boot_loads 20 s6 (?T - 80) =
      Some (map (\<lambda>i. load_u32 (b_mem s6) (a + of_nat (4 * i))) [0..<length ?ws + 2])" by (simp add: a_def)
  also have "map (\<lambda>i. load_u32 (b_mem s6) (a + of_nat (4 * i))) [0..<length ?ws + 2] = rev ?ws @ [x, y]"
    using loads_under_return [of ?ws 2 a ?p "return_to env 5" "b_mem s4"] sv4 by (simp add: a_def s6_def s5_def saved_def numeral_2_eq_2)
  finally have loads: "boot_loads 20 s6 (b_esp s6 + 4) = Some (rev ?ws @ [x, y])" by (simp add: s6_def s5_def)
  have "higher_half_main env s = Some (symbols env, \<lparr>mb_magic = x, mb_addr = y\<rparr>, s6)"
    unfolding higher_half_main_def call1 call2 pushes bind.bind_lunit ret a_def [symmetric] s6_def [symmetric] loads
    by (simp add: decode_meminfo_words nth_append)
  then show thesis by (rule that) (simp_all add: s6_def s5_def s4_def s3 s1_def)
qed

lemma boot_until_idt_run:
  assumes "loaded env s"
  obtains s' where "boot_until_idt env s = Some s'" "b_esp s' = stack_top (symbols env) - 8"
    "mapped_region s' 0xC0000000 (virtual_end (symbols env)) 0xC0000000" "\<And>v. v < 0xC0000000 \<Longrightarrow> linear s' v = None"
    "cpu_if (b_idt s')" "saved (stack_phys env) (r_eax (b_regs s)) (r_ebx (b_regs s) + 0xC0000000) (b_mem s')"
    "cpu_gdtr (b_gdt s') = tmp_gdt_descriptor (at_tmp_gdt env)"
proof -
  have lk: "linked (symbols env)" using assms by (simp add: loaded_def)
  from start_unpaged_run [OF assms] obtain s1 where s1: "start_unpaged env s = Some s1" "b_esp s1 = stack_phys env - 8" "b_dirs s1 = b_dirs s"
    "b_cr3 s1 = at_boot_page_directory env" "bit (b_cr0 s1) 31" "bit (b_cr4 s1) 4"
    "saved (stack_phys env) (r_eax (b_regs s)) (r_ebx (b_regs s) + 0xC0000000) (b_mem s1)" "cpu_gdtr (b_gdt s1) = tmp_gdt_descriptor (at_tmp_gdt env)" .
  from enable_paging_run [OF assms s1(3,2,4-7)] obtain s2 where s2: "enable_paging env s1 = Some s2" "r_ebx (b_regs s2) = at_KERNEL_PAGE_DIRECTORY env"
    "b_dirs s2 (at_KERNEL_PAGE_DIRECTORY env) = snd (paging_bootstrap (symbols env) (at_KERNEL_PAGE_DIRECTORY env) (b_dirs s (at_KERNEL_PAGE_DIRECTORY env)))"
    "bit (b_cr0 s2) 31" "bit (b_cr4 s2) 4" "saved (stack_phys env) (r_eax (b_regs s)) (r_ebx (b_regs s) + 0xC0000000) (b_mem s2)" "b_gdt s2 = b_gdt s1" .
  show thesis
    by (rule higher_half_idt_run [OF lk s2(2-6)], rule that) (auto simp: boot_until_idt_def s1(1,8) s2(1,7))
qed

text \<open>A loaded kernel at the addresses of the linker script.\<close>

definition example_boot_env :: boot_env where
  "example_boot_env = \<lparr>symbols = example_meminfo, at_tmp_gdt = 0x101000, at_boot_page_directory = 0x102000, at_KERNEL_PAGE_DIRECTORY = 0x105000,
     at_tss = 0xC010E000, at_gdt_entries = 0xC010E100, at_idt = 0xC010E200, isr_addr = (\<lambda>_. 0xC0106000), boot_devices = (\<lambda>_ _. 0),
     return_to = (\<lambda>_. 0), ctors = (\<lambda>s. s)\<rparr>"

definition example_boot_state :: boot_state where
  "example_boot_state = \<lparr>b_regs = zero_registers\<lparr>r_eax := 0x36d76289, r_ebx := 0x9500\<rparr>, b_cr0 = 0x11, b_cr3 = 0, b_cr4 = 0,
     b_dirs = (\<lambda>_. \<lparr>entries = (\<lambda>_. 0)\<rparr>)(0x102000 := boot_page_directory), b_mem = (\<lambda>_. 0), b_gdt = example_segments,
     b_idt = \<lparr>idt_descriptors = (\<lambda>_. \<lparr>addr_low = 0, segment_selector = 0, gate_reserved = 0, gate_flags = 0, addr_high = 0\<rparr>),
       idtr = \<lparr>idt_limit = 0, idt_base = 0\<rparr>, cpu_idtr = \<lparr>idt_limit = 0, idt_base = 0\<rparr>, cpu_if = True\<rparr>,
     b_io = \<lparr>io_trace = [], messages = []\<rparr>\<rparr>"

lemma example_loaded: "loaded example_boot_env example_boot_state" "ctors_ok example_boot_env"
  by (simp_all add: loaded_def linked_def ctors_ok_def example_boot_env_def example_boot_state_def example_meminfo_def bit_iff_odd)

section \<open>Properties\<close>



text \<open>C32. Between the calls of \<open>idt_init\<close> and \<open>gdt_init\<close> interrupts are enabled, but the descriptor table in
  use is the temporary one at its physical address, which the directory in use does not map: an interrupt
  cannot load its code segment. The stack of ring 0 that \<open>gdt_init\<close> then stores is 0, because
  \<open>KERNEL_MEMINFO\<close> is set only by \<open>kernel_main\<close>.\<close>

theorem boot_interrupt_window:
  assumes "loaded env s" and "ctors_ok env" and "at_tmp_gdt env < 0xC0000000"
  shows "\<exists>s1 mi info s2. boot_until_idt env s = Some s1 \<and> cpu_if (b_idt s1) \<and> linear s1 (gdt_base (cpu_gdtr (b_gdt s1))) = None \<and>
    boot_start env s = Some (mi, info, s2) \<and> tss_esp0 (tss (b_gdt s2)) = 0"
proof -
  have lk: "linked (symbols env)" using assms by (simp add: loaded_def)
  from boot_until_idt_run [OF assms(1)] obtain s1 where s1: "boot_until_idt env s = Some s1" "b_esp s1 = stack_top (symbols env) - 8"
    "mapped_region s1 0xC0000000 (virtual_end (symbols env)) 0xC0000000" "\<And>v. v < 0xC0000000 \<Longrightarrow> linear s1 v = None"
    "cpu_if (b_idt s1)" "saved (stack_phys env) (r_eax (b_regs s)) (r_ebx (b_regs s) + 0xC0000000) (b_mem s1)"
    "cpu_gdtr (b_gdt s1) = tmp_gdt_descriptor (at_tmp_gdt env)" by metis
  from higher_half_main_run [OF lk assms(2) s1(2,3,6)] obtain mi info s2 where
    s2: "higher_half_main env s1 = Some (mi, info, s2)" "b_gdt s2 = gdt_init zero_meminfo (at_tss env) (at_gdt_entries env) (b_gdt s1)" by metis
  have "tss_esp0 (tss (b_gdt s2)) = 0"
    by (simp add: s2(2) gdt_init_def Let_def load_tss_def load_gdt_def set_segment_descriptor_def tss_init_def zero_meminfo_def)
  then show ?thesis using s1 s2(1) assms(3) by (simp add: boot_start_def tmp_gdt_descriptor_def)
qed

theorem boot_interrupt_window_witness:
  "\<exists>s1 mi info s2. boot_until_idt example_boot_env example_boot_state = Some s1 \<and> cpu_if (b_idt s1) \<and> linear s1 (gdt_base (cpu_gdtr (b_gdt s1))) = None \<and>
     boot_start example_boot_env example_boot_state = Some (mi, info, s2) \<and> tss_esp0 (tss (b_gdt s2)) = 0"
  using boot_interrupt_window [OF example_loaded] by (simp add: example_boot_env_def)

end
