(* ===== verification/Loader.thy ===== *)
theory Loader
  imports Boot
begin

text \<open>
  How the loader of \<^verbatim>\<open>src/kernel/elf/loader.c\<close> moves the bytes of a segment: \<^verbatim>\<open>memcpy\<close> reads the file
  through a mapped page and writes to a page that is mapped by the page fault its first byte causes.
\<close>

section \<open>Faults by lookup\<close>

text \<open>
  The page fault handler asks the address space of the running task. The loader works on a copy of
  its context, whose list of free regions moves on; the handler only needs the lookup to succeed.
\<close>

lemma translate_frames [simp]: "translate env (s\<lparr>frames := x\<rparr>) va = translate env s va"
  by (simp add: translate_def)

lemma touch_looks_up:
  assumes find: "vmm_find_allocation (tcb_vmm_context (current s)) (paging_align_addr va) s = ret a" and used: "al_page_count a \<noteq> 0"
    and frame: "al_physical_addr a \<noteq> 0" and none: "translate env s va = None" and err: "err_code AND PAGING_ERR_CODE_P = 0"
    and ctx: "ctx_ok (KERNEL_MEMINFO env) (tcb_paging_ctx (current s))" and fl: "is_flags (al_flags a)" "al_flags a AND PAGE_FLAG_PRESENT \<noteq> 0"
  obtains msgs s' where "s' = s\<lparr>paging := paging_map_virtual_to_physical (KERNEL_MEMINFO env) (tcb_paging_ctx (current s))
      (paging_align_addr va) (al_physical_addr a) (al_flags a) (paging s), io := msgs\<rparr>"
    and "touch env state err_code va s = ret (push_bit 12 (drop_bit 12 (al_physical_addr a)) OR (va AND 0xfff), s')"
    and "\<And>x. unat x div 4096 = unat va div 4096 \<Longrightarrow>
      translate env s' x = Some (push_bit 12 (drop_bit 12 (al_physical_addr a)) OR (x AND 0xfff), al_flags a)"
proof -
  let ?map = "paging_map_virtual_to_physical (KERNEL_MEMINFO env) (tcb_paging_ctx (current s))
      (paging_align_addr va) (al_physical_addr a) (al_flags a) (paging s)"
  obtain msgs where run: "page_fault_handler env state err_code va s = ret (s\<lparr>paging := ?map, io := msgs\<rparr>)" (is "_ = ret ?s'")
    using find used frame err log_page_fault_io [of state err_code va s]
    by (auto simp: page_fault_handler_def Let_def vmm_find_allocation_def printk_debugK_def)
  have page: "translate env ?s' x = Some (push_bit 12 (drop_bit 12 (al_physical_addr a)) OR (x AND 0xfff), al_flags a)"
    if "unat x div 4096 = unat va div 4096" for x
    using maps_to_walk [OF ctx pg.map_same [OF ctx] aligned_frame fl] that by (simp add: translate_def same_page_align)
  have "touch env state err_code va s = ret (push_bit 12 (drop_bit 12 (al_physical_addr a)) OR (va AND 0xfff), ?s')"
    using none run touch_mapped [OF page [OF refl]] by (subst touch.simps) simp
  with page that [OF refl] show ?thesis by blast
qed

lemma touch_not_found:
  assumes "vmm_find_allocation (tcb_vmm_context (current s)) (paging_align_addr va) s = ret no_allocation"
    and "translate env s va = None" and "err_code AND PAGING_ERR_CODE_P = 0"
  shows "touch env state err_code va s = fail (Panic ''invalid VMM state'')"
  using assms log_page_fault_io [of state err_code va s]
  by (subst touch.simps) (auto simp: page_fault_handler_def Let_def vmm_find_allocation_def no_allocation_def)

section \<open>Mappings that stay\<close>

lemma map_keeps_other_directory:
  assumes "ctx_ok mi ctx" and "PAGE_DIRECTORY_INDEX v \<noteq> PAGE_DIRECTORY_INDEX w" and "maps_to mi ctx s v frame g"
  shows "maps_to mi ctx (paging_map_virtual_to_physical mi ctx w pa flags s) v frame g"
  using assms ctx_ok_table [OF assms(1)] table_of_inj [of ctx v w]
  by (auto simp: maps_to_def paging_map_virtual_to_physical_def set_entry_def Let_def)

lemma map_keeps_absent:
  assumes "ctx_ok mi ctx" and "\<not> same_page v w" and "PAGE_DIRECTORY_INDEX v = PAGE_DIRECTORY_INDEX w" and "is_flags flags"
    and "entries (tables s (table_of ctx v)) (PAGE_TABLE_INDEX v) AND PAGE_FLAG_PRESENT = 0"
  shows "page_walk mi (paging_map_virtual_to_physical mi ctx w pa flags s) (page_directory ctx) v = None"
proof -
  let ?t = "vmm_virtual_to_physical mi (table_of ctx w)"
  have "vmm_physical_to_virtual mi ((?t OR flags) AND NOT 0xfff) = table_of ctx w"
    using entry_parts(1) [OF ctx_ok_table(3) [OF assms(1)] assms(4), of w] by (simp add: vmm_virtual_to_physical_def vmm_physical_to_virtual_def)
  then show ?thesis
    using assms(2,3,5) ctx_ok_table(2) [OF assms(1), of w]
    by (simp add: page_walk_def paging_map_virtual_to_physical_def set_entry_def Let_def same_page_def)
qed

text \<open>A byte of the file: its page is mapped, in another 4 MB region than the destination.\<close>

definition mapped_at :: "kernel_env \<Rightarrow> 'a kernel_state_scheme \<Rightarrow> u32 \<Rightarrow> u32 \<Rightarrow> bool" where
  "mapped_at env s v pa \<longleftrightarrow> (\<exists>frame g. maps_to (KERNEL_MEMINFO env) (tcb_paging_ctx (current s)) (paging s) v frame g \<and>
     paging_is_aligned frame \<and> is_flags g \<and> g AND PAGE_FLAG_PRESENT \<noteq> 0 \<and> pa = frame OR (v AND 0xfff))"

lemma mapped_at_translate:
  assumes "mapped_at env s v pa" and "ctx_ok (KERNEL_MEMINFO env) (tcb_paging_ctx (current s))"
  shows "\<exists>g. translate env s v = Some (pa, g)"
  using assms maps_to_walk [OF assms(2)] unfolding mapped_at_def translate_def by blast

section \<open>Copying\<close>

definition copy_frames :: "(u32 \<Rightarrow> u32) \<Rightarrow> (u32 \<Rightarrow> u32) \<Rightarrow> u32 list \<Rightarrow> mem \<Rightarrow> mem" where
  "copy_frames D P is m = fold (\<lambda>i m. m(D i := m (P i))) is m"

abbreviation copy_byte :: "kernel_env \<Rightarrow> u32 \<Rightarrow> u32 \<Rightarrow> u32 \<Rightarrow> 'a kernel_state_scheme \<Rightarrow> 'a kernel_state_scheme comp" where
  "copy_byte env dst src i s \<equiv> bindK (load_byte env (src + i) s) (\<lambda>(v, s1). store_byte env (dst + i) v s1)"

lemma copy_mapped:
  assumes "\<forall>i \<in> set is. (\<exists>g. translate env s (src + i) = Some (P i, g)) \<and> (\<exists>g. translate env s (dst + i) = Some (D i, g))"
  shows "foldK (copy_byte env dst src) is s = ret (s\<lparr>frames := copy_frames D P is (frames s)\<rparr>)"
  using assms
proof (induction "is" arbitrary: s)
  case (Cons i "is")
  let ?s1 = "s\<lparr>frames := (frames s)(D i := frames s (P i))\<rparr>"
  have "copy_byte env dst src i s = ret ?s1"
    using Cons.prems by (auto simp: load_byte_def store_byte_def touch_mapped)
  moreover have "foldK (copy_byte env dst src) is ?s1 = ret (?s1\<lparr>frames := copy_frames D P is (frames ?s1)\<rparr>)"
    using Cons.prems by (intro Cons.IH) simp
  ultimately show ?case by (simp add: copy_frames_def)
qed (simp add: copy_frames_def)

lemma copy_frames_other: "x \<notin> D ` set is \<Longrightarrow> copy_frames D P is m x = m x"
  unfolding copy_frames_def by (induction "is" arbitrary: m) simp_all

lemma copy_frames_at:
  assumes "inj_on D (set is)" and "D ` set is \<inter> P ` set is = {}" and "distinct is" and "i \<in> set is"
  shows "copy_frames D P is m (D i) = m (P i)"
  using assms
proof (induction "is" arbitrary: m)
  case (Cons j "is")
  have step: "copy_frames D P (j # is) m = copy_frames D P is (m(D j := m (P j)))" by (simp add: copy_frames_def)
  show ?case
  proof (cases "i = j")
    case True
    then have "D i \<notin> D ` set is" using Cons.prems(1,3) by (auto simp: inj_on_def)
    then show ?thesis unfolding step using True by (simp add: copy_frames_other)
  next
    case False
    then have "copy_frames D P is (m(D j := m (P j))) (D i) = (m(D j := m (P j))) (P i)"
      using Cons.prems by (intro Cons.IH) auto
    moreover have "P i \<noteq> D j" using Cons.prems(2,4) by (metis IntI empty_iff imageI list.set_intros(1))
    ultimately show ?thesis unfolding step by simp
  qed
qed simp

text \<open>The bytes of a page in its frame.\<close>

abbreviation frame_byte :: "u32 \<Rightarrow> u32 \<Rightarrow> u32" where
  "frame_byte f v \<equiv> f OR (v AND 0xfff)"

lemma frame_byte_parts:
  assumes "paging_is_aligned f" shows "frame_byte f v AND 0xfff = v AND 0xfff" and "drop_bit 12 (frame_byte f v) = drop_bit 12 f"
proof -
  have "is_flags (v AND 0xfff)" by (simp add: is_flags_def and.assoc)
  from entry_parts(2) [OF assms this] show "frame_byte f v AND 0xfff = v AND 0xfff" .
  show "drop_bit 12 (frame_byte f v) = drop_bit 12 f" unfolding low_mask by (rule bit_word_eqI) (simp add: bit_simps)
qed

lemma frame_byte_inj:
  assumes "paging_is_aligned f" and "frame_byte f v = frame_byte f w" and "unat v div 4096 = unat w div 4096"
  shows "v = w"
proof -
  have "v AND 0xfff = w AND 0xfff" using frame_byte_parts(1) [OF assms(1)] assms(2) by metis
  moreover have "unat (x AND 0xfff) = unat x mod 4096" for x :: u32
    by (simp add: low_mask take_bit_eq_mask [symmetric] unsigned_take_bit_eq take_bit_eq_mod unat_mod)
  ultimately have "unat v mod 4096 = unat w mod 4096" by metis
  with assms(3) show ?thesis by (metis mult_div_mod_eq u32_eqI)
qed

text \<open>A copy into a page that is not present yet: the first byte faults, the rest is plain.\<close>

lemma copy_on_demand:
  fixes P :: "u32 \<Rightarrow> u32"
  assumes find: "vmm_find_allocation (tcb_vmm_context (current s)) (paging_align_addr dst) s = ret a" and used: "al_page_count a \<noteq> 0"
    and frame: "al_physical_addr a = f" "f \<noteq> 0" "paging_is_aligned f" and fl: "is_flags (al_flags a)" "al_flags a AND PAGE_FLAG_PRESENT \<noteq> 0"
    and ctx: "ctx_ok (KERNEL_MEMINFO env) (tcb_paging_ctx (current s))" and none: "translate env s dst = None"
    and n: "0 < n" "unat dst mod 4096 + n \<le> 4096"
    and src: "\<forall>i < n. mapped_at env s (src + of_nat i) (P (of_nat i)) \<and> drop_bit 12 (P (of_nat i)) \<noteq> drop_bit 12 f \<and>
      PAGE_DIRECTORY_INDEX (src + of_nat i) \<noteq> PAGE_DIRECTORY_INDEX dst"
  obtains msgs fr s' where "foldK (copy_byte env dst src) (map of_nat [0..<n]) s = ret s'"
    "s' = s\<lparr>paging := paging_map_virtual_to_physical (KERNEL_MEMINFO env) (tcb_paging_ctx (current s)) (paging_align_addr dst) f (al_flags a) (paging s),
       io := msgs, frames := fr\<rparr>"
    "\<And>i. i < n \<Longrightarrow> fr (frame_byte f (dst + of_nat i)) = frames s (P (of_nat i))"
    "\<And>x. drop_bit 12 x \<noteq> drop_bit 12 f \<Longrightarrow> fr x = frames s x"
    "\<And>x. unat x div 4096 = unat dst div 4096 \<Longrightarrow> translate env s' x = Some (frame_byte f x, al_flags a)"
    "\<And>i. i < n \<Longrightarrow> \<exists>g. translate env s' (src + of_nat i) = Some (P (of_nat i), g)"
proof -
  have wr: "PAGING_ERR_CODE_WR AND PAGING_ERR_CODE_P = 0" by (simp add: c_const)
  have "al_physical_addr a \<noteq> 0" using frame by simp
  from touch_looks_up [OF find used this none wr ctx fl] obtain msgs s1 where
    s1: "s1 = s\<lparr>paging := paging_map_virtual_to_physical (KERNEL_MEMINFO env) (tcb_paging_ctx (current s)) (paging_align_addr dst) f (al_flags a) (paging s),
        io := msgs\<rparr>"
    and t: "touch env kernel_int PAGING_ERR_CODE_WR dst s = ret (frame_byte f dst, s1)"
    and page: "\<And>x. unat x div 4096 = unat dst div 4096 \<Longrightarrow> translate env s1 x = Some (frame_byte f x, al_flags a)"
    unfolding frame(1) aligned_frame_id [OF frame(3)] by metis
  have dir: "PAGE_DIRECTORY_INDEX (paging_align_addr dst) = PAGE_DIRECTORY_INDEX dst"
    using same_page_align [of dst] unfolding same_page_iff [symmetric] same_page_def by simp
  have src1: "mapped_at env s1 (src + of_nat i) (P (of_nat i))" if "i < n" for i
    using src [rule_format, OF that] map_keeps_other_directory [OF ctx, of _ "paging_align_addr dst", unfolded dir]
    unfolding mapped_at_def by (simp add: s1) blast
  have ctx1: "ctx_ok (KERNEL_MEMINFO env) (tcb_paging_ctx (current s1))" using ctx by (simp add: s1)
  define D where "D i = frame_byte f (dst + i)" for i
  have same: "unat (dst + of_nat i) div 4096 = unat dst div 4096" if "i < n" for i by (rule same_page_offset [OF n(2) that])
  have tr: "\<exists>g. translate env s1 (src + of_nat i) = Some (P (of_nat i), g)" "translate env s1 (dst + of_nat i) = Some (D (of_nat i), al_flags a)" if "i < n" for i
    using mapped_at_translate [OF src1 [OF that] ctx1] page [OF same [OF that]] by (auto simp: D_def)
  have "copy_byte env dst src 0 s = ret (s1\<lparr>frames := (frames s)(D 0 := frames s (P 0))\<rparr>)"
  proof -
    have "load_byte env src s = ret (frames s (P 0), s)"
      using mapped_at_translate [of env s src "P 0"] src n(1) ctx by (force simp: load_byte_mapped)
    then show ?thesis by (simp add: store_byte_def t D_def s1)
  qed
  moreover have "foldK (copy_byte env dst src) (map of_nat [1..<n]) (s1\<lparr>frames := (frames s)(D 0 := frames s (P 0))\<rparr>) =
      ret (s1\<lparr>frames := copy_frames D P (map of_nat [1..<n]) ((frames s)(D 0 := frames s (P 0)))\<rparr>)"
    using copy_mapped [of "map of_nat [1..<n]" env "s1\<lparr>frames := (frames s)(D 0 := frames s (P 0))\<rparr>" src P dst D] tr by auto
  moreover have cons: "map of_nat [0..<n] = (0 :: u32) # map of_nat [1..<n]" using n(1) by (simp add: upt_conv_Cons)
  ultimately have run: "foldK (copy_byte env dst src) (map of_nat [0..<n]) s = ret (s1\<lparr>frames := copy_frames D P (map of_nat [0..<n]) (frames s)\<rparr>)"
    by (simp add: copy_frames_def)
  have small: "n < 4294967296" using n(2) by linarith
  have inj: "inj_on D (set (map of_nat [0..<n]))"
    using frame_byte_inj [OF frame(3)] same by (fastforce simp: inj_on_def D_def)
  have "D i \<noteq> P (of_nat j)" if "j < n" for i j using src [rule_format, OF that] frame_byte_parts(2) [OF frame(3)] unfolding D_def by metis
  then have apart: "D ` set (map of_nat [0..<n]) \<inter> P ` set (map of_nat [0..<n]) = {}" by auto
  have "unat (of_nat i :: u32) = i" if "i < n" for i using that small by (simp add: unat_of_nat)
  then have "(of_nat i :: u32) = of_nat j \<Longrightarrow> i = j" if "i < n" "j < n" for i j using that by metis
  then have dist: "distinct (map of_nat [0..<n] :: u32 list)" by (auto simp: distinct_map inj_on_def)
  show thesis
  proof (rule that [OF run])
    show "copy_frames D P (map of_nat [0..<n]) (frames s) (frame_byte f (dst + of_nat i)) = frames s (P (of_nat i))" if "i < n" for i
      using copy_frames_at [OF inj apart dist, of "of_nat i"] that by (simp add: D_def)
    show "copy_frames D P (map of_nat [0..<n]) (frames s) x = frames s x" if "drop_bit 12 x \<noteq> drop_bit 12 f" for x
      using that frame_byte_parts(2) [OF frame(3)] by (intro copy_frames_other) (auto simp: D_def)
  qed (use page tr s1 in auto)
qed

lemma memcpyK_fold: "memcpyK env dst src num s = foldK (copy_byte env dst src) (map of_nat [0..<unat num]) s"
  by (simp add: memcpyK_def for_rangeK_def)

lemma foldK_append: "foldK body (xs @ ys) s = bindK (foldK body xs s) (foldK body ys)"
proof (induction xs arbitrary: s)
  case (Cons x xs)
  then have "foldK body (xs @ ys) = (\<lambda>s. bindK (foldK body xs s) (foldK body ys))" by (intro ext)
  then show ?case by (simp add: bindK_assoc)
qed simp

text \<open>A copy that runs past the page it starts in, when nothing is allocated behind the page.\<close>

lemma copy_past_page:
  fixes P :: "u32 \<Rightarrow> u32"
  defines "m dst \<equiv> 4096 - unat dst mod 4096"
  assumes find: "vmm_find_allocation (tcb_vmm_context (current s)) (paging_align_addr dst) s = ret a" and used: "al_page_count a \<noteq> 0"
    and frame: "al_physical_addr a = f" "f \<noteq> 0" "paging_is_aligned f" and fl: "is_flags (al_flags a)" "al_flags a AND PAGE_FLAG_PRESENT \<noteq> 0"
    and ctx: "ctx_ok (KERNEL_MEMINFO env) (tcb_paging_ctx (current s))" and none: "translate env s dst = None"
    and src: "\<forall>i \<le> m dst. mapped_at env s (src + of_nat i) (P (of_nat i)) \<and> drop_bit 12 (P (of_nat i)) \<noteq> drop_bit 12 f \<and>
      PAGE_DIRECTORY_INDEX (src + of_nat i) \<noteq> PAGE_DIRECTORY_INDEX dst"
    and nxt: "nxt = paging_align_addr dst + 4096" "unat (paging_align_addr dst) + 8192 \<le> 4294967296" "PAGE_DIRECTORY_INDEX nxt = PAGE_DIRECTORY_INDEX dst"
      "entries (tables (paging s) (table_of (tcb_paging_ctx (current s)) nxt)) (PAGE_TABLE_INDEX nxt) AND PAGE_FLAG_PRESENT = 0"
      "vmm_find_allocation (tcb_vmm_context (current s)) nxt s = ret no_allocation"
    and long: "m dst < unat num"
  shows "memcpyK env dst src num s = fail (Panic ''invalid VMM state'')"
proof -
  let ?n = "m dst"
  have n: "0 < ?n" "unat dst mod 4096 + ?n \<le> 4096" by (simp_all add: m_def)
  have src': "\<forall>i < ?n. mapped_at env s (src + of_nat i) (P (of_nat i)) \<and> drop_bit 12 (P (of_nat i)) \<noteq> drop_bit 12 f \<and>
      PAGE_DIRECTORY_INDEX (src + of_nat i) \<noteq> PAGE_DIRECTORY_INDEX dst" using src by simp
  obtain msgs fr s' where run: "foldK (copy_byte env dst src) (map of_nat [0..<?n]) s = ret s'"
    and s': "s' = s\<lparr>paging := paging_map_virtual_to_physical (KERNEL_MEMINFO env) (tcb_paging_ctx (current s)) (paging_align_addr dst) f (al_flags a) (paging s),
       io := msgs, frames := fr\<rparr>"
    by (rule copy_on_demand [OF find used frame fl ctx none n src']) (rule that)
  have split: "map of_nat [0..<unat num] = map of_nat [0..<?n] @ (of_nat ?n :: u32) # map of_nat [Suc ?n..<unat num]"
    using long upt_add_eq_append [of 0 ?n "unat num - ?n"] upt_conv_Cons [OF long] by simp
  have unat_nxt: "unat nxt = unat dst div 4096 * 4096 + 4096"
    using nxt(1,2) by (simp add: paging_align_addr_unat unat_simps)
  have at: "dst + of_nat ?n = nxt"
  proof (rule u32_eqI)
    have "unat dst + ?n = unat dst div 4096 * 4096 + 4096" unfolding m_def using div_mult_mod_eq [of "unat dst" 4096] mod_less_divisor [of 4096 "unat dst"] by linarith
    moreover have "?n < 4294967296" using n(2) by linarith
    then have "unat (of_nat ?n :: u32) = ?n" by (simp add: unat_of_nat)
    ultimately show "unat (dst + of_nat ?n) = unat nxt" using nxt(2) by (simp add: unat_nxt unat_simps paging_align_addr_unat)
  qed
  have align: "paging_align_addr nxt = nxt" by (rule u32_eqI) (simp add: paging_align_addr_unat unat_nxt)
  have "\<not> same_page nxt (paging_align_addr dst)" by (simp add: same_page_iff unat_nxt paging_align_addr_unat)
  moreover have "PAGE_DIRECTORY_INDEX nxt = PAGE_DIRECTORY_INDEX (paging_align_addr dst)"
    using nxt(3) same_page_align [of dst] unfolding same_page_iff [symmetric] same_page_def by simp
  ultimately have "translate env s' nxt = None"
    using map_keeps_absent [OF ctx _ _ fl(1) nxt(4)] by (simp add: translate_def s')
  moreover have "vmm_find_allocation (tcb_vmm_context (current s')) (paging_align_addr nxt) s' = ret no_allocation"
    using nxt(5) by (simp add: align s' vmm_find_allocation_def)
  ultimately have "touch env kernel_int PAGING_ERR_CODE_WR nxt s' = fail (Panic ''invalid VMM state'')"
    by (intro touch_not_found) (simp_all add: c_const)
  moreover have "\<exists>g. translate env s' (src + of_nat ?n) = Some (P (of_nat ?n), g)"
  proof -
    have "PAGE_DIRECTORY_INDEX (src + of_nat ?n) \<noteq> PAGE_DIRECTORY_INDEX (paging_align_addr dst)" "mapped_at env s (src + of_nat ?n) (P (of_nat ?n))"
      using src same_page_align [of dst] unfolding same_page_iff [symmetric] same_page_def by auto
    then have "mapped_at env s' (src + of_nat ?n) (P (of_nat ?n))"
      using map_keeps_other_directory [OF ctx] unfolding mapped_at_def by (simp add: s') blast
    then show ?thesis using ctx by (intro mapped_at_translate) (simp_all add: s')
  qed
  ultimately have "copy_byte env dst src (of_nat ?n) s' = fail (Panic ''invalid VMM state'')"
    by (auto simp: load_byte_def store_byte_def touch_mapped at)
  then show ?thesis by (simp add: memcpyK_fold split foldK_append run)
qed

section \<open>Loading a segment\<close>

lemma remove_free_blocks_root: "remove_free_blocks mi ctx va pc user s = ret (addr, ctx', s') \<Longrightarrow> allocations ctx' = allocations ctx"
  by (auto simp: remove_free_blocks_def unlink_block_def assertK_eq_ret bindK_eq_ret Let_def split: if_splits)

lemma vmm_map_pages_root: "vmm_map_pages mi ctx va pa pc fl s = ret (addr, ctx', s') \<Longrightarrow> allocations ctx' = allocations ctx"
  by (auto simp: vmm_map_pages_def assertK_eq_ret bindK_eq_ret Let_def dest!: remove_free_blocks_root)

lemma vmm_more:
  assumes "vmm_state.more s' = vmm_state.more (s :: 'a kernel_state_scheme)"
  shows "tcbs s' = tcbs s" "CURRENT_TASK s' = CURRENT_TASK s" "frames s' = frames s"
  using assms by (cases s; cases s'; simp)+

section \<open>Properties\<close>

text \<open>C29. A copy into a page of the running task that is not present: the write of the first byte maps
  the page, and then exactly the bytes of the source are in the frame of the page, at the offsets of the
  destination; other frames are not written.\<close>

theorem memcpy_on_demand:
  fixes P :: "u32 \<Rightarrow> u32"
  assumes "vmm_find_allocation (tcb_vmm_context (current s)) (paging_align_addr dst) s = ret a" and "al_page_count a \<noteq> 0"
    and "al_physical_addr a = f" and "f \<noteq> 0" and "paging_is_aligned f" and "is_flags (al_flags a)" and "al_flags a AND PAGE_FLAG_PRESENT \<noteq> 0"
    and "ctx_ok (KERNEL_MEMINFO env) (tcb_paging_ctx (current s))" and "translate env s dst = None"
    and "num \<noteq> 0" and "unat dst mod 4096 + unat num \<le> 4096"
    and "\<forall>i < unat num. mapped_at env s (src + of_nat i) (P (of_nat i)) \<and> drop_bit 12 (P (of_nat i)) \<noteq> drop_bit 12 f \<and>
      PAGE_DIRECTORY_INDEX (src + of_nat i) \<noteq> PAGE_DIRECTORY_INDEX dst"
  shows "\<exists>pg msgs fr. memcpyK env dst src num s = ret (s\<lparr>paging := pg, io := msgs, frames := fr\<rparr>) \<and>
    (\<forall>i < unat num. fr (frame_byte f (dst + of_nat i)) = frames s (P (of_nat i))) \<and>
    (\<forall>x. drop_bit 12 x \<noteq> drop_bit 12 f \<longrightarrow> fr x = frames s x) \<and>
    (\<forall>x. unat x div 4096 = unat dst div 4096 \<longrightarrow> translate env (s\<lparr>paging := pg, io := msgs, frames := fr\<rparr>) x = Some (frame_byte f x, al_flags a))"
proof -
  have n: "0 < unat num" using assms(10) by (simp add: unat_gt_0)
  show ?thesis
    by (rule copy_on_demand [OF assms(1-9) n assms(11,12)]) (unfold memcpyK_fold, blast)
qed

text \<open>The file at 0x800000 is in the frame at 0x500000; the frame at address 0 is in use.\<close>

definition example_file :: paging_state where
  "example_file = paging_map_virtual_to_physical example_meminfo example_ctx 0x800000 0x500000 7 empty_paging"

definition example_loading :: kernel_state where
  "example_loading = example_state\<lparr>paging := example_file, pmm := \<lparr>MEM_BITMAP = (\<lambda>_. 0)(0 := 1)\<rparr>,
     frames := (\<lambda>a. if a = 0x500000 then 0x7F else 0)\<rparr>"

lemma example_loading_simps [simp]:
  "tcb_paging_ctx (current example_loading) = example_ctx" "tcb_vmm_context (current example_loading) = example_space"
  "KERNEL_MEMINFO example_env = example_meminfo" "paging example_loading = example_file"
  by (simp_all add: example_loading_def example_state_def example_node_def example_tcb_def example_env_def)

lemma example_file_mapped:
  assumes "unat va div 4096 = 0x800" shows "mapped_at example_env example_loading va (0x500000 OR (va AND 0xfff))"
proof -
  have "maps_to example_meminfo example_ctx example_file va 0x500000 7"
    using pg.map_same [OF example_ctx_ok, of va "0x800000" "0x500000" 7 empty_paging] assms
    by (simp add: example_file_def push_bit_eq_mult drop_bit_eq_div)
  then show ?thesis unfolding mapped_at_def
    by (intro exI [of _ "0x500000"] exI [of _ 7]) (simp add: paging_is_aligned_def is_flags_def c_const)
qed

lemma example_file_absent:
  "translate example_env example_loading 0x400010 = None" "translate example_env example_loading 0xD8002FFF = None"
  by (simp_all add: translate_def page_walk_def example_file_def paging_map_virtual_to_physical_def set_entry_def Let_def
      empty_paging_def example_ctx_def PAGE_DIRECTORY_INDEX_def PAGE_TABLE_INDEX_def drop_bit_eq_div c_const)

lemma example_loading_space: "space_inv (example_space, example_loading) {allocation 0x400000 0x900000 2 7}"
  using example_fault_space space_inv_cong [of example_loading example_state]
  by (simp add: example_loading_def example_state_def example_node_def example_tcb_def)

lemma example_source:
  assumes "i < 2"
  shows "mapped_at example_env example_loading (0x800000 + of_nat i) (0x500000 OR (0x800000 + of_nat i AND 0xfff))"
    and "(0x500000 OR (0x800000 + of_nat i AND 0xfff :: u32)) div 4096 = 0x500" and "(0x800000 + of_nat i :: u32) div 4194304 = 2"
  using assms example_file_mapped [of "0x800000"] example_file_mapped [of "0x800001"] by (auto simp: less_2_cases_iff)

theorem memcpy_on_demand_witness:
  "\<exists>pg msgs fr. memcpyK example_env 0x400010 0x800000 2 example_loading = ret (example_loading\<lparr>paging := pg, io := msgs, frames := fr\<rparr>) \<and>
     fr 0x900010 = 0x7F \<and> fr 0x900011 = 0 \<and> translate example_env (example_loading\<lparr>paging := pg, io := msgs, frames := fr\<rparr>) 0x400FFF = Some (0x900FFF, 7)"
proof -
  let ?a = "allocation 0x400000 0x900000 2 7" and ?P = "\<lambda>i :: u32. 0x500000 OR (0x800000 + i AND 0xfff)"
  have find: "vmm_find_allocation (tcb_vmm_context (current example_loading)) (paging_align_addr 0x400010) example_loading = ret ?a"
    using sp.find_in [OF example_loading_space, of ?a "0x400000"] by (simp add: interval_def paging_align_addr_def c_const)
  have src: "\<forall>i < unat (2 :: u32). mapped_at example_env example_loading (0x800000 + of_nat i) (?P (of_nat i)) \<and>
      drop_bit 12 (?P (of_nat i)) \<noteq> drop_bit 12 (0x900000 :: u32) \<and> PAGE_DIRECTORY_INDEX (0x800000 + of_nat i) \<noteq> PAGE_DIRECTORY_INDEX 0x400010"
    using example_source by (simp add: PAGE_DIRECTORY_INDEX_def drop_bit_eq_div c_const)
  have "al_page_count ?a \<noteq> 0" "al_physical_addr ?a = 0x900000" "0x900000 \<noteq> (0 :: u32)" "paging_is_aligned 0x900000" "is_flags (al_flags ?a)"
    "al_flags ?a AND PAGE_FLAG_PRESENT \<noteq> 0" by (simp_all add: paging_is_aligned_def is_flags_def c_const)
  note copy = memcpy_on_demand [OF find this, where P = ?P, OF _ example_file_absent(1) _ _ src]
  obtain pg msgs fr where "memcpyK example_env 0x400010 0x800000 2 example_loading = ret (example_loading\<lparr>paging := pg, io := msgs, frames := fr\<rparr>)"
    and bytes: "\<forall>i < unat (2 :: u32). fr (frame_byte 0x900000 (0x400010 + of_nat i)) = frames example_loading (?P (of_nat i))"
    and "\<forall>x. unat x div 4096 = unat (0x400010 :: u32) div 4096 \<longrightarrow>
      translate example_env (example_loading\<lparr>paging := pg, io := msgs, frames := fr\<rparr>) x = Some (frame_byte 0x900000 x, al_flags ?a)"
    using copy example_ctx_ok by auto
  moreover have "fr 0x900010 = 0x7F" "fr 0x900011 = 0"
    using bytes [rule_format, of 0] bytes [rule_format, of 1] by (simp_all add: example_loading_def)
  ultimately show ?thesis by fastforce
qed

text \<open>C30. A segment of more than a page cannot be loaded: the loader maps one page at a time but copies all
  that is left of the file, so that the copy runs into the page behind it, which is not allocated yet, and the
  kernel panics. The file is supposed to be mapped well enough to be read.\<close>

theorem large_segment_panics:
  fixes P :: "u32 \<Rightarrow> u32"
  assumes "space_inv (kern_vmm_ctx, s) A" and "allocations (tcb_vmm_context (current s)) = allocations kern_vmm_ctx"
    and "pmm_alloc_page (pmm s) = ret (f, pm)" and "f \<noteq> 0" and "paging_is_aligned f"
    and "fl = PAGE_FLAG_PRESENT OR PAGE_FLAG_USER OR elf_flags_to_paging_flags (ph_flags prog_hdr)"
    and "page = paging_align_addr (ph_vaddr prog_hdr)" and "nxt = page + 4096" and "unat page + 8192 < 4294967296" and "page \<noteq> 0"
    and "admissible_request (KERNEL_MEMINFO env) \<lparr>rq_virtual_addr = page, rq_physical_addr = f, rq_page_count = 1, rq_flags = fl\<rparr> (kern_vmm_ctx, s\<lparr>pmm := pm\<rparr>)"
    and "vmm_map_pages (KERNEL_MEMINFO env) kern_vmm_ctx page f 1 fl (s\<lparr>pmm := pm\<rparr>) = ret (page, kern_vmm_ctx1, s2)"
    and "\<forall>a \<in> A. unat nxt \<notin> interval a" and "PAGE_DIRECTORY_INDEX nxt = PAGE_DIRECTORY_INDEX (ph_vaddr prog_hdr)"
    and "entries (tables (paging s) (table_of (tcb_paging_ctx (current s)) nxt)) (PAGE_TABLE_INDEX nxt) AND PAGE_FLAG_PRESENT = 0"
    and "ctx_ok (KERNEL_MEMINFO env) (tcb_paging_ctx (current s))" and "translate env s (ph_vaddr prog_hdr) = None"
    and "4096 < unat (ph_vaddr prog_hdr) mod 4096 + unat (ph_filesz prog_hdr)"
    and "paging_page_count (if ph_filesz prog_hdr > ph_memsz prog_hdr then ph_filesz prog_hdr else ph_memsz prog_hdr) \<noteq> 0"
    and "\<forall>i \<le> 4096 - unat (ph_vaddr prog_hdr) mod 4096. mapped_at env s (raw_elf + ph_offset prog_hdr + of_nat i) (P (of_nat i)) \<and>
      drop_bit 12 (P (of_nat i)) \<noteq> drop_bit 12 f \<and> PAGE_DIRECTORY_INDEX (raw_elf + ph_offset prog_hdr + of_nat i) \<noteq> PAGE_DIRECTORY_INDEX (ph_vaddr prog_hdr)"
  shows "handle_loadable_segment env kern_paging_ctx kern_vmm_ctx vmm_ctx prog_hdr raw_elf s = fail (Panic ''invalid VMM state'')"
proof -
  let ?mi = "KERNEL_MEMINFO env" and ?va = "ph_vaddr prog_hdr" and ?s1 = "s\<lparr>pmm := pm\<rparr>" and ?a = "allocation page f 1 fl"
  let ?r = "\<lparr>rq_virtual_addr = page, rq_physical_addr = f, rq_page_count = 1, rq_flags = fl\<rparr>"
  have inv: "space_inv (kern_vmm_ctx, ?s1) A" using assms(1) space_inv_cong [of ?s1 s] by simp
  have map: "map_in_space ?mi ?r (kern_vmm_ctx, ?s1) = ret (page, kern_vmm_ctx1, s2)" using assms(12) by (simp add: map_in_space_def)
  have "ends_in_range (granted ?r page)" using assms(9) by (simp add: ends_in_range_def)
  note find = sp.map_then_find [OF inv assms(11) map this]
  note more = vmm_map_pages_more [OF assms(12)]
  have s2: "tcbs s2 = tcbs s" "CURRENT_TASK s2 = CURRENT_TASK s" "frames s2 = frames s" "paging s2 = paging s"
    using vmm_more [OF more] kernel_more [OF more] by simp_all
  have look: "vmm_find_allocation (tcb_vmm_context (current s2)) v s2 = find_in_space v (kern_vmm_ctx1, s2)" for v
    using vmm_map_pages_root [OF assms(12)] assms(2) by (simp add: vmm_find_allocation_def s2)
  have "unat page \<in> interval ?a" by (simp add: interval_def)
  then have "vmm_find_allocation (tcb_vmm_context (current s2)) (paging_align_addr ?va) s2 = ret ?a"
    using find [of page] unfolding look by (simp add: assms(7))
  moreover have "unat nxt \<notin> interval ?a" using assms(8,9) by (simp add: interval_def unat_simps)
  then have "vmm_find_allocation (tcb_vmm_context (current s2)) nxt s2 = ret no_allocation"
    using find [of nxt] sp.find_out [OF inv, of nxt] assms(13) unfolding look by simp
  moreover have "is_flags fl" "fl AND PAGE_FLAG_PRESENT \<noteq> 0"
    by (simp_all add: assms(6) elf_flags_to_paging_flags_def is_flags_def c_const Let_def)
  moreover have "translate env s2 ?va = None" using assms(17) by (simp add: translate_def s2)
  moreover have "mapped_at env s2 v p \<longleftrightarrow> mapped_at env s v p" for v p by (simp add: mapped_at_def s2)
  ultimately have copy: "memcpyK env ?va (raw_elf + ph_offset prog_hdr) (ph_filesz prog_hdr) s2 = fail (Panic ''invalid VMM state'')"
    using assms(4,5,7-9,14-16,18,20)
    by (intro copy_past_page [where a = ?a and f = f and nxt = nxt and P = P]) (simp_all add: s2)
  have alloc: "alloc_page s = ret (f, ?s1)" using assms(3) by (simp add: alloc_page_def)
  have load: "load_page env kern_paging_ctx prog_hdr raw_elf 0 (ph_filesz prog_hdr, kern_vmm_ctx, vmm_ctx, s) = fail (Panic ''invalid VMM state'')"
    using alloc assms(12) copy by (simp add: load_page_def Let_def assms(6,7))
  show ?thesis
    using assms(19) load unfolding handle_loadable_segment_def Let_def
    by (subst for_rangeK_step) (simp add: word_gt_0)
qed

abbreviation example_prog_hdr :: elf32_prog_hdr where
  "example_prog_hdr \<equiv> \<lparr>ph_type = 1, ph_offset = 0, ph_vaddr = 0xD8002FFF, ph_paddr = 0, ph_filesz = 2, ph_memsz = 2, ph_flags = 2, ph_align = 1\<rparr>"

theorem large_segment_panics_witness:
  "handle_loadable_segment example_env example_ctx example_space example_space example_prog_hdr 0x800000 example_loading =
     fail (Panic ''invalid VMM state'')"
proof -
  let ?P = "\<lambda>i :: u32. 0x500000 OR (0x800000 + i AND 0xfff)" and ?pm = "\<lparr>MEM_BITMAP = (\<lambda>_. 0)(0 := 3)\<rparr>"
  have alloc: "pmm_alloc_page (pmm example_loading) = ret (0x1000, ?pm)"
    using pmm_alloc_page_entry [of 0 "pmm example_loading" 1] by (simp add: example_loading_def c_const)
  have flags: "PAGE_FLAG_PRESENT OR PAGE_FLAG_USER OR elf_flags_to_paging_flags (ph_flags example_prog_hdr) = 7"
    by (simp add: elf_flags_to_paging_flags_def c_const Let_def)
  obtain ctx' s' where run: "vmm_map_pages example_meminfo example_space 0xD8002000 0x1000 1 7 (example_loading\<lparr>pmm := ?pm\<rparr>) = ret (0xD8002000, ctx', s')"
    by (simp add: vmm_map_pages_def example_space_def example_vmm_def example_loading_def example_state_def paging_is_aligned_def c_const remove_free_blocks_def
        find_region.simps region_matches_def is_addr_in_range_def Let_def new_block_def kmallocK_def kmalloc_def kmalloc_loop.simps
        kmalloc_split_def kmalloc_init_def blank_vmm_def add_allocation_def find_parent.simps new_tree_def)
  have "free_regions example_space (example_loading\<lparr>pmm := ?pm\<rparr>) [(0xD8000000, 16)]"
    using example_regions by (simp add: free_regions_def example_loading_def example_state_def)
  then have adm: "admissible_request example_meminfo \<lparr>rq_virtual_addr = 0xD8002000, rq_physical_addr = 0x1000, rq_page_count = 1, rq_flags = 7\<rparr>
      (example_space, example_loading\<lparr>pmm := ?pm\<rparr>)"
    by (auto simp: admissible_request_def fits_at_start_def paging_is_aligned_def c_const)
  have src: "mapped_at example_env example_loading (0x800000 + of_nat i) (?P (of_nat i)) \<and>
      drop_bit 12 (?P (of_nat i)) \<noteq> drop_bit 12 (0x1000 :: u32) \<and> PAGE_DIRECTORY_INDEX (0x800000 + of_nat i) \<noteq> PAGE_DIRECTORY_INDEX 0xD8002FFF"
    if "i \<le> 1" for i
    using that example_source [of i] by (simp add: PAGE_DIRECTORY_INDEX_def drop_bit_eq_div c_const)
  have absent: "entries (tables example_file (table_of example_ctx 0xD8003000)) (PAGE_TABLE_INDEX 0xD8003000) AND PAGE_FLAG_PRESENT = 0"
    by (simp add: example_file_def paging_map_virtual_to_physical_def set_entry_def Let_def
      empty_paging_def example_ctx_def PAGE_DIRECTORY_INDEX_def PAGE_TABLE_INDEX_def drop_bit_eq_div c_const)
  show ?thesis
    by (rule large_segment_panics [OF example_loading_space, where f = "0x1000" and pm = ?pm and fl = 7 and page = "0xD8002000" and nxt = "0xD8003000"
        and ?kern_vmm_ctx1.0 = ctx' and ?s2.0 = s' and P = ?P])
      (use alloc flags run adm src absent example_file_absent(2) example_ctx_ok in
        \<open>simp_all add: paging_align_addr_def paging_is_aligned_def paging_page_count_def interval_def PAGE_DIRECTORY_INDEX_def drop_bit_eq_div c_const\<close>)
qed

end
