(* ===== verification/Libc.thy ===== *)
theory Libc
  imports Kernel_Prelude
begin

text \<open>
  The C library for user programs, \<^verbatim>\<open>src/libc\<close>: placeholders that take their arguments and return a constant.
  Pointers are addresses, and the arguments behind an ellipsis are a list of words. The assembly part of the
  library, the start of a program and its exit, is in \<open>User_Mode\<close>.
\<close>

section \<open>\<^verbatim>\<open>stdio.c\<close>\<close>

record FILE =
  fd :: int

definition SEEK_SET :: int where [c_const]: "SEEK_SET = 1"

definition fopen :: "u32 \<Rightarrow> u32 \<Rightarrow> u32" where "fopen path mode = NULL"
definition fdopen :: "int \<Rightarrow> u32 \<Rightarrow> u32" where "fdopen n mode = NULL"
definition freopen :: "u32 \<Rightarrow> u32 \<Rightarrow> u32 \<Rightarrow> u32" where "freopen path mode f = NULL"
definition feof :: "u32 \<Rightarrow> int" where "feof f = 0"
definition ftell :: "u32 \<Rightarrow> int" where "ftell f = 0"
definition fread :: "u32 \<Rightarrow> u32 \<Rightarrow> u32 \<Rightarrow> u32 \<Rightarrow> u32" where "fread ptr sz nmemb f = 0"
definition fwrite :: "u32 \<Rightarrow> u32 \<Rightarrow> u32 \<Rightarrow> u32 \<Rightarrow> u32" where "fwrite ptr sz nitems f = 0"
definition fseek :: "u32 \<Rightarrow> int \<Rightarrow> int \<Rightarrow> int" where "fseek f offset whence = 0"
definition fclose :: "u32 \<Rightarrow> int" where "fclose f = 0"
definition fflush :: "u32 \<Rightarrow> int" where "fflush f = 0"
definition fprintf :: "u32 \<Rightarrow> u32 \<Rightarrow> u32 list \<Rightarrow> int" where "fprintf f fmt args = 0"
definition vdprintf :: "int \<Rightarrow> u32 \<Rightarrow> u32 \<Rightarrow> int" where "vdprintf n fmt ap = 0"
definition vfprintf :: "u32 \<Rightarrow> u32 \<Rightarrow> u32 \<Rightarrow> int" where "vfprintf f fmt ap = 0"
definition vprintf :: "u32 \<Rightarrow> u32 \<Rightarrow> int" where "vprintf fmt ap = 0"
definition vsnprintf :: "u32 \<Rightarrow> u32 \<Rightarrow> u32 \<Rightarrow> u32 \<Rightarrow> int" where "vsnprintf s n fmt ap = 0"
definition vsprintf :: "u32 \<Rightarrow> u32 \<Rightarrow> u32 \<Rightarrow> int" where "vsprintf s fmt ap = 0"
definition sprintf :: "u32 \<Rightarrow> u32 \<Rightarrow> u32 list \<Rightarrow> int" where "sprintf s fmt args = 0"

section \<open>\<^verbatim>\<open>stdlib.c\<close>\<close>

definition libc_abs :: "int \<Rightarrow> int" where "libc_abs n = 0"
definition malloc :: "u32 \<Rightarrow> u32" where "malloc sz = NULL"
definition calloc :: "u32 \<Rightarrow> u32 \<Rightarrow> u32" where "calloc n sz = NULL"
definition realloc :: "u32 \<Rightarrow> u32 \<Rightarrow> u32" where "realloc p sz = NULL"
definition libc_free :: "u32 \<Rightarrow> unit" where "libc_free p = ()"
definition getenv :: "u32 \<Rightarrow> u32" where "getenv name = NULL"

text \<open>Of these only \<^verbatim>\<open>abs\<close> breaks its contract, for every argument but 0.\<close>

lemma libc_abs_correct_iff: "libc_abs n = \<bar>n\<bar> \<longleftrightarrow> n = 0"
  by (auto simp: libc_abs_def)

end
