(* ===== verification/Itoa.thy ===== *)
theory Itoa
  imports Cstring "HOL-Library.Signed_Division"
begin

text \<open>
  Number formatting, \<^verbatim>\<open>src/kernel/itoa.c\<close>. The reference is \<open>parse_num\<close>, which reads digits back:
  the lemmas show that the printed strings denote the number that was passed.
\<close>

section \<open>The functions\<close>

text \<open>The loop of \<^verbatim>\<open>itoa\<close> on a \<^verbatim>\<open>long long\<close>; C division truncates towards zero.\<close>

function itoa_loop :: "int \<Rightarrow> u32 \<Rightarrow> u32 \<Rightarrow> mem \<Rightarrow> u32 \<times> mem" where
  "itoa_loop value str i m =
     (if value \<noteq> 0
      then itoa_loop (value sdiv 10) str (i + 1) (m(str + i := of_int (value smod 10 + 48)))
      else (i, m))"
  by pat_completeness auto
termination
proof (relation "measure (\<lambda>(value, str, i, m). nat \<bar>value\<bar>)")
  fix v :: int and str i :: u32 and m :: mem
  assume "v \<noteq> 0"
  then have "\<bar>v sdiv 10\<bar> = \<bar>v\<bar> div 10" by (simp add: signed_divide_int_def abs_mult)
  moreover have "\<bar>v\<bar> div 10 < \<bar>v\<bar>" using \<open>v \<noteq> 0\<close> by (intro int_div_less_self) auto
  ultimately show "((v sdiv 10, str, i + 1, m(str + i := of_int (v smod 10 + 48))), v, str, i, m)
      \<in> measure (\<lambda>(value, str, i, m). nat \<bar>value\<bar>)" by simp
qed simp

declare itoa_loop.simps [simp del]

text \<open>
  \<^verbatim>\<open>-value\<close> is the two's complement negation, which leaves \<^verbatim>\<open>LLONG_MIN\<close> as it is (in C its
  overflow is undefined).
\<close>

definition itoa :: "u64 \<Rightarrow> u32 \<Rightarrow> mem \<Rightarrow> (u32 \<times> mem) option" where
  "itoa value str m =
     (let negative = sint value < 0;
          (i, m1) = (if value = 0 then (1, m(str := 48))
                     else if negative then itoa_loop (sint (- value)) str 1 (m(str := 45))
                     else itoa_loop (sint value) str 0 m);
          m2 = m1(str + i := 0)
      in case (if negative then strrev (str + 1) m2 else strrev str m2) of
           None \<Rightarrow> None
         | Some (_, m3) \<Rightarrow> Some (str, m3))"

function uitoa_loop :: "u64 \<Rightarrow> u32 \<Rightarrow> u32 \<Rightarrow> mem \<Rightarrow> u32 \<times> mem" where
  "uitoa_loop value str i m =
     (if value \<noteq> 0
      then uitoa_loop (value div 10) str (i + 1) (m(str + i := ucast (value mod 10 + 48)))
      else (i, m))"
  by pat_completeness auto
termination
  by (relation "measure (\<lambda>(value, str, i, m). unat value)")
    (auto simp: unat_div unat_gt_0 [symmetric] simp del: unat_gt_0 intro: div_less_dividend)

declare uitoa_loop.simps [simp del]

definition uitoa :: "u64 \<Rightarrow> u32 \<Rightarrow> mem \<Rightarrow> u32 \<times> mem" where
  "uitoa value str m =
     (let (i, m1) = (if value = 0 then (1, m(str := 48)) else uitoa_loop value str 0 m)
      in (str, m1(str + i := 0)))"

function uitoa_hex_loop :: "u64 \<Rightarrow> u32 \<Rightarrow> u32 \<Rightarrow> mem \<Rightarrow> u32 \<times> mem" where
  "uitoa_hex_loop value str i m =
     (if value \<noteq> 0
      then let digit = value mod 16
           in uitoa_hex_loop (value div 16) str (i + 1)
                (m(str + i := (if digit < 10 then ucast (digit + 48) else ucast (digit - 10 + 97))))
      else (i, m))"
  by pat_completeness auto
termination
  by (relation "measure (\<lambda>(value, str, i, m). unat value)")
    (auto simp: unat_div unat_gt_0 [symmetric] simp del: unat_gt_0 intro: div_less_dividend)

declare uitoa_hex_loop.simps [simp del]

definition uitoa_hex :: "u64 \<Rightarrow> u32 \<Rightarrow> mem \<Rightarrow> (u32 \<times> mem) option" where
  "uitoa_hex value str m =
     (let (i, m1) = (if value = 0 then (1, m(str := 48)) else uitoa_hex_loop value str 0 m);
          m2 = m1(str + i := 0)
      in case strrev str m2 of None \<Rightarrow> None | Some (_, m3) \<Rightarrow> Some (str, m3))"

section \<open>Digits\<close>

text \<open>The digits of a number in base \<open>b\<close>, least significant first, and as characters.\<close>

fun lsd :: "nat \<Rightarrow> nat \<Rightarrow> nat list" where
  "lsd b n = (if b \<le> 1 \<or> n = 0 then [] else n mod b # lsd b (n div b))"

declare lsd.simps [simp del]

definition digit_char :: "nat \<Rightarrow> u8" where
  "digit_char d = (if d < 10 then of_nat (d + 48) else of_nat (d - 10 + 97))"

definition digit_value :: "u8 \<Rightarrow> nat" where
  "digit_value c = (if unat c < 97 then unat c - 48 else unat c - 97 + 10)"

text \<open>The value of a digit string, most significant digit first.\<close>

definition parse_num :: "nat \<Rightarrow> u8 list \<Rightarrow> nat" where
  "parse_num b xs = foldl (\<lambda>a c. a * b + digit_value c) 0 xs"

definition parse_int :: "u8 list \<Rightarrow> int" where
  "parse_int xs = (case xs of c # cs \<Rightarrow> if c = 45 then - int (parse_num 10 cs) else int (parse_num 10 xs) | [] \<Rightarrow> 0)"

lemma digit_value_char: "d < 36 \<Longrightarrow> digit_value (digit_char d) = d"
  by (auto simp: digit_value_def digit_char_def unat_of_nat simp del: of_nat_add of_nat_diff)

lemma digit_char_nonzero: "d < 36 \<Longrightarrow> digit_char d \<noteq> 0 \<and> digit_char d \<noteq> 45"
  by (auto simp: digit_char_def word_unat_eq_iff unat_of_nat simp del: of_nat_add of_nat_diff)

lemma lsd_digits: "d \<in> set (lsd b n) \<Longrightarrow> d < b"
  by (induction b n rule: lsd.induct) (subst (asm) (2) lsd.simps, auto split: if_splits)

lemma lsd_length: "1 < b \<Longrightarrow> n < b ^ k \<Longrightarrow> length (lsd b n) \<le> k"
proof (induction k arbitrary: n)
  case (Suc k)
  then have "n div b < b ^ k" by (simp add: less_mult_imp_div_less mult.commute)
  with Suc show ?case by (subst lsd.simps) simp
qed (simp add: lsd.simps)

lemma lsd_nonempty: "1 < b \<Longrightarrow> 0 < n \<Longrightarrow> lsd b n \<noteq> [] \<and> last (lsd b n) \<noteq> 0"
proof (induction b n rule: lsd.induct)
  case (1 b n)
  show ?case
  proof (cases "n div b = 0")
    case True
    with 1 have "lsd b (n div b) = []" "n mod b = n" by (simp_all add: lsd.simps div_eq_0_iff)
    with 1 show ?thesis by (subst (1 2) lsd.simps) simp
  next
    case False
    with 1 show ?thesis by (subst (1 2) lsd.simps) simp
  qed
qed

lemma parse_lsd:
  assumes "1 < b" and "b \<le> 36" shows "parse_num b (rev (map digit_char (lsd b n))) = n"
  using assms
proof (induction b n rule: lsd.induct)
  case (1 b n)
  have "n mod b < 36" if "0 < n" using mod_less_divisor [of b n] 1(2,3) by linarith
  with 1 show ?case by (subst lsd.simps) (simp add: parse_num_def digit_value_char)
qed

section \<open>What the loops write\<close>

primrec write_bytes :: "u32 \<Rightarrow> u8 list \<Rightarrow> mem \<Rightarrow> mem" where
  "write_bytes a [] m = m"
| "write_bytes a (x # xs) m = write_bytes (a + 1) xs (m(a := x))"

lemma write_bytes_nth:
  assumes "length xs < 4294967296" and "k < 4294967296"
  shows "write_bytes a xs m (a + of_nat k) = (if k < length xs then xs ! k else m (a + of_nat k))"
  using assms
proof (induction xs arbitrary: a m k)
  case (Cons x xs)
  show ?case
  proof (cases k)
    case 0
    have "write_bytes (a + 1) xs (m(a := x)) ((a + 1) + of_nat 4294967295) = (m(a := x)) ((a + 1) + of_nat 4294967295)"
      using Cons.prems(1) by (subst Cons.IH) simp_all
    moreover have "1 + of_nat 4294967295 = (0 :: u32)" by simp
    then have "(a + 1) + of_nat 4294967295 = a" by (simp only: add.assoc add_0_right)
    ultimately show ?thesis using 0 by (simp only: write_bytes.simps) simp
  next
    case (Suc j)
    have "of_nat (Suc j) \<noteq> (of_nat 0 :: u32)" using Cons.prems(2) Suc by (subst of_nat_u32_inject) simp_all
    then have ne: "a + of_nat (Suc j) \<noteq> a" by simp
    have "write_bytes (a + 1) xs (m(a := x)) ((a + 1) + of_nat j) = (if j < length xs then xs ! j else (m(a := x)) ((a + 1) + of_nat j))"
      using Cons.prems Suc by (intro Cons.IH) simp_all
    with Suc ne show ?thesis by (simp add: add.assoc)
  qed
qed simp

lemma digit_char_ucast:
  assumes "unat (d :: u64) < 16"
  shows "(if d < 10 then ucast (d + 48) else ucast (d - 10 + 97)) = digit_char (unat d)"
proof (cases "unat d < 10")
  case True
  then have "unat (d + 48) = unat d + 48" by (simp add: unat_word_ariths)
  with True show ?thesis
    by (simp add: digit_char_def word_less_nat_alt word_unat_eq_iff unsigned_ucast_eq unat_of_nat take_bit_nat_eq_self
        del: of_nat_add)
next
  case False
  then have "unat (d - 10) = unat d - 10" by (simp add: unat_sub word_le_nat_alt)
  with False have "unat (d - 10 + 97) = unat d - 10 + 97" using assms by (simp add: unat_word_ariths)
  with False assms show ?thesis
    by (simp add: digit_char_def word_less_nat_alt word_unat_eq_iff unsigned_ucast_eq unat_of_nat take_bit_nat_eq_self
        del: of_nat_add of_nat_diff)
qed

lemma itoa_loop_bytes:
  "itoa_loop (int n) str i m = (i + of_nat (length (lsd 10 n)), write_bytes (str + i) (map digit_char (lsd 10 n)) m)"
proof (induction "10 :: nat" n arbitrary: i m rule: lsd.induct)
  case (1 n)
  show ?case
  proof (cases "n = 0")
    case True
    then show ?thesis by (simp add: itoa_loop.simps lsd.simps)
  next
    case False
    then have "of_int (int n smod 10 + 48) = digit_char (n mod 10)" "int n sdiv 10 = int (n div 10)"
      by (simp_all add: digit_char_def signed_modulo_int_def signed_divide_int_def zmod_int zdiv_int [symmetric])
        (metis of_int_of_nat_eq of_nat_numeral zmod_int)
    with False 1 show ?thesis by (subst itoa_loop.simps, subst (1 2) lsd.simps) (simp add: add.assoc)
  qed
qed

lemma uitoa_loop_bytes:
  "uitoa_loop v str i m = (i + of_nat (length (lsd 10 (unat v))), write_bytes (str + i) (map digit_char (lsd 10 (unat v))) m)"
proof (induction v str i m rule: uitoa_loop.induct)
  case (1 v str i m)
  have "ucast (v mod 10 + 48) = digit_char (unat v mod 10)"
    using digit_char_ucast [of "v mod 10"] by (simp add: unat_mod word_less_nat_alt)
  with 1 show ?case by (subst uitoa_loop.simps, subst (1 2) lsd.simps) (auto simp: add.assoc unat_div unat_eq_zero simp del: fun_upd_apply)
qed

lemma uitoa_hex_loop_bytes:
  "uitoa_hex_loop v str i m = (i + of_nat (length (lsd 16 (unat v))), write_bytes (str + i) (map digit_char (lsd 16 (unat v))) m)"
proof (induction v str i m rule: uitoa_hex_loop.induct)
  case (1 v str i m)
  have "unat (v mod 16) < 16" by (simp add: unat_mod)
  from digit_char_ucast [OF this] have "(if v mod 16 < 10 then ucast (v mod 16 + 48) else ucast (v mod 16 - 10 + 97)) =
      digit_char (unat v mod 16)" by (simp only: unat_mod) simp
  with 1 show ?case
    by (subst uitoa_hex_loop.simps, subst (1 2) lsd.simps) (auto simp: Let_def add.assoc unat_div unat_eq_zero simp del: fun_upd_apply)
qed

section \<open>The printed strings\<close>

definition num_chars :: "nat \<Rightarrow> nat \<Rightarrow> u8 list" where
  "num_chars b n = (if n = 0 then [48] else map digit_char (lsd b n))"

lemma num_chars_parse: "1 < b \<Longrightarrow> b \<le> 36 \<Longrightarrow> parse_num b (rev (num_chars b n)) = n"
  using parse_lsd [of b n] by (simp add: num_chars_def parse_num_def digit_value_def)

lemma num_chars_no_zero:
  assumes "b \<le> 36" shows "0 \<notin> set (num_chars b n)" and "45 \<notin> set (num_chars b n)"
proof -
  have d: "digit_char d \<noteq> 0 \<and> digit_char d \<noteq> 45" if "d \<in> set (lsd b n)" for d
    using lsd_digits [OF that] assms by (intro digit_char_nonzero) simp
  show "0 \<notin> set (num_chars b n)" using d by (auto simp: num_chars_def)
  show "45 \<notin> set (num_chars b n)" using d by (auto simp: num_chars_def)
qed

lemma num_chars_nonempty: "1 < b \<Longrightarrow> num_chars b n \<noteq> []"
  using lsd_nonempty [of b n] by (simp add: num_chars_def)

lemma num_chars_length:
  assumes "1 < b" and "n < b ^ k" and "0 < k" shows "length (num_chars b n) \<le> k"
  using lsd_length [OF assms(1,2)] assms(3) by (simp add: num_chars_def Suc_le_eq)

lemma terminated_cstr:
  assumes "0 \<notin> set xs" and "length xs < 2147483648"
  shows "cstr ((write_bytes a xs m)(a + of_nat (length xs) := 0)) a xs"
    and "b \<notin> span a (Suc (length xs)) \<Longrightarrow> ((write_bytes a xs m)(a + of_nat (length xs) := 0)) b = m b"
proof -
  show "cstr ((write_bytes a xs m)(a + of_nat (length xs) := 0)) a xs"
    using assms write_bytes_nth [of xs _ a m] by (auto simp: cstr_iff)
  assume "b \<notin> span a (Suc (length xs))"
  then show "((write_bytes a xs m)(a + of_nat (length xs) := 0)) b = m b"
    using assms write_bytes_nth [of xs _ a m] by (cases b rule: offset_cases [of _ a]) auto
qed

text \<open>Printing the digits and reversing them, which the three functions have in common.\<close>

lemma print_reversed:
  assumes "1 < b" and "b \<le> 36" and "n < 2 ^ 64"
  shows "\<exists>m'. strrev a ((write_bytes a (num_chars b n) m)(a + of_nat (length (num_chars b n)) := 0)) = Some (a, m') \<and>
    cstr m' a (rev (num_chars b n)) \<and> (\<forall>x. x \<notin> span a (Suc (length (num_chars b n))) \<longrightarrow> m' x = m x)"
proof -
  let ?xs = "num_chars b n"
  have "n < b ^ 64" using assms power_mono [of 2 b 64] by linarith
  then have len: "length ?xs < 2147483648" using num_chars_length [of b n 64] assms by simp
  note t = terminated_cstr [OF num_chars_no_zero(1) [OF assms(2)] len]
  have "span a (length ?xs) \<subseteq> span a (Suc (length ?xs))" by (auto simp: span_def)
  with strrev_cstr [OF t(1), of a m] t(2) [of _ a m] show ?thesis by (metis subsetD)
qed

lemma sint_uminus:
  assumes "v \<noteq> 0x8000000000000000" shows "sint (- v :: u64) = - sint v"
proof -
  have r: "- (2 ^ 63) \<le> sint v" "sint v < 2 ^ 63"
    using sint_greater_eq [of v] sint_less [of v] by simp_all
  moreover have "sint v \<noteq> - (2 ^ 63)"
  proof
    assume "sint v = - (2 ^ 63)"
    moreover have "v = of_int (sint v)" by simp
    ultimately have "v = of_int (- (2 ^ 63))" by (simp only:)
    with assms show False by simp
  qed
  moreover have "- v = word_of_int (- sint v)" by simp
  ultimately show ?thesis by (simp only: sint_sbintrunc') (simp add: signed_take_bit_int_eq_self)
qed

lemma itoa_spec:
  assumes "value \<noteq> 0x8000000000000000"
  shows "\<exists>m'. itoa value str m = Some (str, m') \<and>
    cstr m' str ((if sint value < 0 then [45] else []) @ rev (num_chars 10 (nat \<bar>sint value\<bar>))) \<and>
    (\<forall>a. a \<notin> span str (Suc (length (num_chars 10 (nat \<bar>sint value\<bar>)) + (if sint value < 0 then 1 else 0))) \<longrightarrow> m' a = m a)"
proof -
  let ?n = "nat \<bar>sint value\<bar>"
  let ?xs = "num_chars 10 ?n"
  have n: "?n < 2 ^ 64" using sint_greater_eq [of "value"] sint_less [of "value"] by (simp add: nat_less_iff)
  note pr = print_reversed [of 10 ?n, OF _ _ n, simplified]
  show ?thesis
  proof (cases "sint value < 0")
    case False
    have "(if value = 0 then (1, m(str := 48)) else itoa_loop (sint value) str 0 m) =
        (of_nat (length ?xs), write_bytes str ?xs m)"
    proof (cases "value = 0")
      case v: False
      have "sint value \<noteq> 0"
      proof
        assume "sint value = 0"
        then have "of_int (sint value) = (0 :: u64)" by simp
        with v show False by simp
      qed
      with v show ?thesis using itoa_loop_bytes [of ?n str 0 m] False by (simp add: num_chars_def)
    qed (simp add: num_chars_def)
    with False pr [of str m] show ?thesis by (auto simp: itoa_def Let_def)
  next
    case True
    then have v: "value \<noteq> 0" by auto
    have loop: "itoa_loop (sint (- value)) str 1 (m(str := 45)) =
        (1 + of_nat (length ?xs), write_bytes (str + 1) ?xs (m(str := 45)))"
      using itoa_loop_bytes [of ?n str 1 "m(str := 45)"] True v
      by (simp add: sint_uminus [OF assms] num_chars_def)
    from pr [of "str + 1" "m(str := 45)"] obtain m' where
      m': "strrev (str + 1) ((write_bytes (str + 1) ?xs (m(str := 45)))(str + 1 + of_nat (length ?xs) := 0)) = Some (str + 1, m')"
      "cstr m' (str + 1) (rev ?xs)" "\<And>x. x \<notin> span (str + 1) (Suc (length ?xs)) \<Longrightarrow> m' x = (m(str := 45)) x"
      by auto
    have len: "length ?xs \<le> 64"
      using num_chars_length [of 10 ?n 64] n less_le_trans [of ?n "2 ^ 64" "10 ^ 64"] by simp
    have it: "itoa value str m = Some (str, m')"
      using True v loop m'(1) by (simp add: itoa_def Let_def add.assoc)
    have "m' str = 45" using m'(3) [of str] pred_notin_span [of "Suc (length ?xs)" str] len by simp
    then have "cstr m' str (45 # rev ?xs)" using m'(2) len by (simp add: cstr_Cons)
    moreover have "m' a = m a" if "a \<notin> span str (Suc (Suc (length ?xs)))" for a
      using that m'(3) [of a] span_Suc [of str "Suc (length ?xs)"] by auto
    ultimately show ?thesis using it True by simp
  qed
qed

lemma uitoa_spec:
  "\<exists>m'. uitoa value str m = (str, m') \<and> cstr m' str (num_chars 10 (unat value)) \<and>
    (\<forall>a. a \<notin> span str (Suc (length (num_chars 10 (unat value)))) \<longrightarrow> m' a = m a)"
proof -
  let ?xs = "num_chars 10 (unat value)"
  have "(if value = 0 then (1, m(str := 48)) else uitoa_loop value str 0 m) = (of_nat (length ?xs), write_bytes str ?xs m)"
    using uitoa_loop_bytes [of "value" str 0 m] by (auto simp: num_chars_def unat_eq_zero)
  moreover have "length ?xs \<le> 64"
    using num_chars_length [of 10 "unat value" 64] unsigned_less [of "value", where 'a = nat]
      less_le_trans [of "unat value" "2 ^ 64" "10 ^ 64"] by simp
  ultimately show ?thesis
    using terminated_cstr [OF num_chars_no_zero(1) [of 10 "unat value"], where a = str and m = m]
    by (auto simp: uitoa_def Let_def)
qed

lemma uitoa_hex_spec:
  "\<exists>m'. uitoa_hex value str m = Some (str, m') \<and> cstr m' str (rev (num_chars 16 (unat value))) \<and>
    (\<forall>a. a \<notin> span str (Suc (length (num_chars 16 (unat value)))) \<longrightarrow> m' a = m a)"
proof -
  let ?xs = "num_chars 16 (unat value)"
  have "(if value = 0 then (1, m(str := 48)) else uitoa_hex_loop value str 0 m) = (of_nat (length ?xs), write_bytes str ?xs m)"
    using uitoa_hex_loop_bytes [of "value" str 0 m] by (auto simp: num_chars_def unat_eq_zero)
  with print_reversed [of 16 "unat value" str m] unsigned_less [of "value", where 'a = nat]
  show ?thesis by (auto simp: uitoa_hex_def Let_def)
qed

section \<open>Properties\<close>

text \<open>C34. \<open>itoa\<close> always returns its buffer with a NUL-terminated string of at most 20 characters that
  denotes the value, negative numbers with a minus sign, and writes nothing behind the terminator,
  for every \<^verbatim>\<open>long long\<close> but the smallest.\<close>

theorem itoa_denotes:
  assumes "value \<noteq> 0x8000000000000000"
  shows "\<exists>m' xs. itoa value str m = Some (str, m') \<and> cstr m' str xs \<and> parse_int xs = sint value \<and>
    length xs \<le> 20 \<and> (\<forall>a. a \<notin> span str (Suc (length xs)) \<longrightarrow> m' a = m a)"
proof -
  let ?n = "nat \<bar>sint value\<bar>"
  let ?xs = "(if sint value < 0 then [45] else []) @ rev (num_chars 10 ?n)"
  have "parse_num 10 (rev (num_chars 10 ?n)) = ?n" by (simp add: num_chars_parse)
  moreover have "hd (rev (num_chars 10 ?n)) \<noteq> 45" "rev (num_chars 10 ?n) \<noteq> []"
    using num_chars_no_zero(2) [of 10 ?n] num_chars_nonempty [of 10 ?n] by (auto simp: hd_rev) (metis last_in_set)
  ultimately have "parse_int ?xs = sint value"
    by (cases "rev (num_chars 10 ?n)") (auto simp: parse_int_def)
  moreover have "?n < 10 ^ 19"
    using sint_greater_eq [of "value"] sint_less [of "value"] by (simp add: nat_less_iff)
  then have "length ?xs \<le> 20" using num_chars_length [of 10 ?n 19] by auto
  moreover have "length (num_chars 10 ?n) + (if sint value < 0 then 1 else 0) = length ?xs" by simp
  ultimately show ?thesis using itoa_spec [OF assms, of str m] by metis
qed

theorem itoa_denotes_witness:
  "\<exists>m' xs. itoa (- 42) 0x1000 (\<lambda>_. 7) = Some (0x1000, m') \<and> cstr m' 0x1000 xs \<and> parse_int xs = - 42"
  using itoa_denotes [of "- 42" "0x1000" "\<lambda>_. 7"] by auto

text \<open>\<open>uitoa_hex\<close> always returns its buffer with a NUL-terminated string of at most 16 lower-case
  hexadecimal digits that denotes the value, and writes nothing behind the terminator.\<close>

theorem uitoa_hex_denotes:
  "\<exists>m' xs. uitoa_hex value str m = Some (str, m') \<and> cstr m' str xs \<and> parse_num 16 xs = unat value \<and>
    length xs \<le> 16 \<and> (\<forall>a. a \<notin> span str (Suc (length xs)) \<longrightarrow> m' a = m a)"
proof -
  have "length (num_chars 16 (unat value)) \<le> 16"
    using num_chars_length [of 16 "unat value" 16] unsigned_less [of "value", where 'a = nat] by simp
  moreover obtain m' where "uitoa_hex value str m = Some (str, m')"
    "cstr m' str (rev (num_chars 16 (unat value)))"
    "\<forall>a. a \<notin> span str (Suc (length (num_chars 16 (unat value)))) \<longrightarrow> m' a = m a"
    using uitoa_hex_spec [of "value" str m] by auto
  moreover have "parse_num 16 (rev (num_chars 16 (unat value))) = unat value" by (simp add: num_chars_parse)
  ultimately show ?thesis
    by (intro exI [of _ m'] exI [of _ "rev (num_chars 16 (unat value))"]) simp
qed

theorem uitoa_hex_denotes_witness:
  "\<exists>m' xs. uitoa_hex 0xBEEF 0x1000 (\<lambda>_. 7) = Some (0x1000, m') \<and> cstr m' 0x1000 xs \<and> parse_num 16 xs = 0xBEEF \<and> m' 0 = 7"
proof -
  obtain m' xs where *: "uitoa_hex 0xBEEF 0x1000 (\<lambda>_. 7) = Some (0x1000, m')" "cstr m' 0x1000 xs"
    "parse_num 16 xs = unat (0xBEEF :: u64)" "length xs \<le> 16"
    "\<forall>a. a \<notin> span 0x1000 (Suc (length xs)) \<longrightarrow> m' a = 7"
    using uitoa_hex_denotes [of "0xBEEF" "0x1000" "\<lambda>_. 7"] by blast
  have "0x1000 + of_nat k \<noteq> (0 :: u32)" if "k < 100" for k
    using that by (simp add: word_unat_eq_iff unat_word_ariths unat_of_nat)
  then have "0 \<notin> span 0x1000 (Suc (length xs))" using *(4) by (auto simp: span_def)
  with * show ?thesis by auto
qed

text \<open>\<open>uitoa\<close> does not reverse its digits: the string it produces denotes the value when it is
  read backwards, so a number such as 12 is printed as 21.\<close>

theorem uitoa_backwards:
  "\<exists>m' xs. uitoa value str m = (str, m') \<and> cstr m' str xs \<and> parse_num 10 (rev xs) = unat value \<and>
    (value = 12 \<longrightarrow> parse_num 10 xs = 21)"
proof -
  have "parse_num 10 (num_chars 10 (unat value)) = 21" if "value = 12"
    using that by (simp add: num_chars_def lsd.simps parse_num_def digit_char_def digit_value_def)
  moreover obtain m' where "uitoa value str m = (str, m')" "cstr m' str (num_chars 10 (unat value))"
    using uitoa_spec [of "value" str m] by auto
  moreover have "parse_num 10 (rev (num_chars 10 (unat value))) = unat value" by (simp add: num_chars_parse)
  ultimately show ?thesis by blast
qed

theorem uitoa_backwards_witness:
  "\<exists>m' xs. uitoa 12 0x1000 (\<lambda>_. 7) = (0x1000, m') \<and> cstr m' 0x1000 xs \<and> parse_num 10 xs = 21"
  using uitoa_backwards [of 12 "0x1000" "\<lambda>_. 7"] by auto

end
