(* ===== verification/Printk.thy ===== *)
theory Printk
  imports Tty Itoa Portio
begin

text \<open>
  Formatted output, \<^verbatim>\<open>src/kernel/printk.c\<close> and \<^verbatim>\<open>src/kernel/panic.c\<close>. The variable arguments are the words of the
  caller's stack, \<open>args n\<close> the \<open>n\<close>-th of them; a 64-bit argument takes two. \<open>buf\<close> is the address of the local
  array \<^verbatim>\<open>formatted_arg\<close>.
\<close>

section \<open>Output\<close>

definition EINVAL :: int where [c_const]: "EINVAL = 1"

primrec level_code :: "printk_log_level \<Rightarrow> u8" where
  "level_code PRINTK_DEBUG = 0"
| "level_code PRINTK_INFO = 1"
| "level_code PRINTK_WARN = 2"
| "level_code PRINTK_ERROR = 3"

definition log_level_to_vga_color :: "u8 \<Rightarrow> u8" where
  "log_level_to_vga_color log_level =
     (if log_level = level_code PRINTK_DEBUG then vga_entry_color VGA_COLOR_LIGHT_GREY VGA_COLOR_LIGHT_BLUE
      else if log_level = level_code PRINTK_INFO then vga_entry_color VGA_COLOR_BLACK VGA_COLOR_LIGHT_BLUE
      else if log_level = level_code PRINTK_WARN then vga_entry_color VGA_COLOR_BROWN VGA_COLOR_LIGHT_BLUE
      else if log_level = level_code PRINTK_ERROR then vga_entry_color VGA_COLOR_RED VGA_COLOR_LIGHT_BLUE
      else vga_entry_color VGA_COLOR_BLACK VGA_COLOR_LIGHT_BLUE)"

text \<open>\<^verbatim>\<open>putchar\<close> prints the low byte of its argument, from a local variable, and returns the argument.\<close>

definition putchar :: "u8 \<Rightarrow> u32 \<Rightarrow> tty_state \<Rightarrow> u32 \<times> tty_state" where
  "putchar color ic t = (let c = ucast ic :: u8 in (ic, tty_puts (\<lambda>_. c) 0 1 color t))"

text \<open>The loop of \<^verbatim>\<open>print\<close> stops behind a zero byte, which it still prints.\<close>

function print_loop :: "u8 \<Rightarrow> mem \<Rightarrow> u32 \<Rightarrow> u32 \<Rightarrow> u32 \<Rightarrow> tty_state \<Rightarrow> u32 \<times> tty_state" where
  "print_loop color m data len i t =
     (if i < len
      then let (c, t1) = putchar color (ucast (m (data + i))) t
           in if c \<noteq> 0 then print_loop color m data len (i + 1) t1 else (i, t1)
      else (i, t))"
  by pat_completeness auto

termination
  by (relation "measure (\<lambda>(color, m, data, len, i, t). unat len - unat i)") (auto simp: unat_Suc_less word_less_nat_alt)

declare print_loop.simps [simp del]

definition print :: "u8 \<Rightarrow> mem \<Rightarrow> u32 \<Rightarrow> u32 \<Rightarrow> tty_state \<Rightarrow> u32 \<times> tty_state" where
  "print color m data len t = print_loop color m data len 0 t"

text \<open>
  The outcome of handling a directive: the error return of the function, or the index of the last
  character of the directive and the number of argument words used so far.
\<close>

datatype outcome = Einval mem tty_state | Go u32 nat mem tty_state

text \<open>\<^verbatim>\<open>PRINT_OR_RET\<close>, followed by the rest of the directive.\<close>

definition print_or_ret :: "u8 \<Rightarrow> mem \<Rightarrow> u32 \<Rightarrow> u32 \<Rightarrow> mem \<Rightarrow> tty_state \<Rightarrow> (tty_state \<Rightarrow> outcome option) \<Rightarrow> outcome option" where
  "print_or_ret color m data len m' t k =
     (let (n, t1) = print color m data len t in if n \<noteq> len then Some (Einval m' t1) else k t1)"

definition print_string :: "u8 \<Rightarrow> mem \<Rightarrow> u32 \<Rightarrow> tty_state \<Rightarrow> (tty_state \<Rightarrow> outcome option) \<Rightarrow> outcome option" where
  "print_string color m s t k =
     (case strlen m s of None \<Rightarrow> None | Some len \<Rightarrow> print_or_ret color m s len m t k)"

text \<open>The literal \<^verbatim>\<open>"0x"\<close>.\<close>

definition hex_prefix :: mem where
  "hex_prefix a = (if a = 0 then 48 else if a = 1 then 120 else 0)"

definition va_arg32 :: "(nat \<Rightarrow> u32) \<Rightarrow> nat \<Rightarrow> u32" where
  "va_arg32 args n = args n"

definition va_arg64 :: "(nat \<Rightarrow> u32) \<Rightarrow> nat \<Rightarrow> u64" where
  "va_arg64 args n = ucast (args n) OR push_bit 32 (ucast (args (Suc n)))"

section \<open>Directives\<close>

text \<open>The directives with the \<^verbatim>\<open>ll\<close> prefix; \<open>i\<close> is the index of the first \<^verbatim>\<open>l\<close>.\<close>

definition format_ll ::
  "(nat \<Rightarrow> u32) \<Rightarrow> u32 \<Rightarrow> u8 \<Rightarrow> bool \<Rightarrow> u32 \<Rightarrow> u32 \<Rightarrow> nat \<Rightarrow> mem \<Rightarrow> tty_state \<Rightarrow> outcome option" where
  "format_ll args buf color hash fmt i n m t =
     (let c = m (fmt + i + 2)
      in if c = 100 \<or> c = 105 then
           (case itoa (va_arg64 args n) buf m of None \<Rightarrow> None
            | Some (_, m1) \<Rightarrow> print_string color m1 buf t (\<lambda>t1. Some (Go (i + 2) (n + 2) m1 t1)))
         else if c = 117 then
           (let (_, m1) = uitoa (va_arg64 args n) buf m
            in print_string color m1 buf t (\<lambda>t1. Some (Go (i + 2) (n + 2) m1 t1)))
         else if c = 120 \<or> c = 88 then
           (let rest = (\<lambda>t. case uitoa_hex (va_arg64 args n) buf m of None \<Rightarrow> None
              | Some (_, m1) \<Rightarrow>
                  (case (if m1 (fmt + i) = 88 then strupper buf m1 else Some (buf, m1)) of None \<Rightarrow> None
                   | Some (_, m2) \<Rightarrow> print_string color m2 buf t (\<lambda>t1. Some (Go (i + 2) (n + 2) m2 t1))))
            in if hash then print_or_ret color hex_prefix 0 2 m t rest else rest t)
         else Some (Einval m t))"

text \<open>A directive whose conversion character is at \<open>i\<close>.\<close>

definition format_conversion ::
  "(nat \<Rightarrow> u32) \<Rightarrow> u32 \<Rightarrow> u8 \<Rightarrow> bool \<Rightarrow> u32 \<Rightarrow> u32 \<Rightarrow> u32 \<Rightarrow> nat \<Rightarrow> mem \<Rightarrow> tty_state \<Rightarrow> outcome option" where
  "format_conversion args buf color hash fmt len i n m t =
     (let c = m (fmt + i)
      in if c = 37 then print_or_ret color m (fmt + i) 1 m t (\<lambda>t1. Some (Go i n m t1))
         else if c = 100 \<or> c = 105 then
           (case itoa (scast (va_arg32 args n)) buf m of None \<Rightarrow> None
            | Some (_, m1) \<Rightarrow> print_string color m1 buf t (\<lambda>t1. Some (Go i (n + 1) m1 t1)))
         else if c = 117 then
           (case itoa (ucast (va_arg32 args n)) buf m of None \<Rightarrow> None
            | Some (_, m1) \<Rightarrow> print_string color m1 buf t (\<lambda>t1. Some (Go i (n + 1) m1 t1)))
         else if c = 120 \<or> c = 88 then
           (let rest = (\<lambda>t. case uitoa_hex (ucast (va_arg32 args n)) buf m of None \<Rightarrow> None
              | Some (_, m1) \<Rightarrow>
                  (case (if m1 (fmt + i) = 88 then strupper buf m1 else Some (buf, m1)) of None \<Rightarrow> None
                   | Some (_, m2) \<Rightarrow> print_string color m2 buf t (\<lambda>t1. Some (Go i (n + 1) m2 t1))))
            in if hash then print_or_ret color hex_prefix 0 2 m t rest else rest t)
         else if c = 108 then
           (if i < len - 2 \<and> m (fmt + i + 1) = 108 then format_ll args buf color hash fmt i n m t else Some (Einval m t))
         else if c = 99 then Some (Go i (n + 1) m (snd (putchar color (va_arg32 args n) t)))
         else if c = 115 then print_string color m (va_arg32 args n) t (\<lambda>t1. Some (Go i (n + 1) m t1))
         else Some (Einval m t))"

text \<open>A directive whose percent sign is at \<open>i\<close>: the flag character is looked at first.\<close>

definition format_directive ::
  "(nat \<Rightarrow> u32) \<Rightarrow> u32 \<Rightarrow> u8 \<Rightarrow> u32 \<Rightarrow> u32 \<Rightarrow> u32 \<Rightarrow> nat \<Rightarrow> mem \<Rightarrow> tty_state \<Rightarrow> outcome option" where
  "format_directive args buf color fmt len i n m t =
     (if i = len then Some (Einval m t)
      else let f = m (fmt + i + 1);
               hash = f = 35;
               i1 = (if f = 35 \<or> f = 45 \<or> f = 43 \<or> f = 32 \<or> f = 48 then i + 1 else i)
           in if i1 = len then Some (Einval m t)
              else format_conversion args buf color hash fmt len (i1 + 1) n m t)"

section \<open>The function\<close>

text \<open>The first percent sign at or behind \<open>i\<close>.\<close>

function scan_literal :: "mem \<Rightarrow> u32 \<Rightarrow> u32 \<Rightarrow> u32 \<Rightarrow> u32" where
  "scan_literal m fmt len i = (if i < len \<and> m (fmt + i) \<noteq> 37 then scan_literal m fmt len (i + 1) else i)"
  by pat_completeness auto

termination
  by (relation "measure (\<lambda>(m, fmt, len, i). unat len - unat i)") (auto simp: unat_Suc_less word_less_nat_alt)

declare scan_literal.simps [simp del]

partial_function (option) vprintk_loop ::
  "(nat \<Rightarrow> u32) \<Rightarrow> u32 \<Rightarrow> u8 \<Rightarrow> u32 \<Rightarrow> u32 \<Rightarrow> u32 \<Rightarrow> nat \<Rightarrow> mem \<Rightarrow> tty_state \<Rightarrow> (int \<times> mem \<times> tty_state) option" where [code]:
  "vprintk_loop args buf color fmt len i n m t =
     (if i < len
      then let start = i;
               i1 = scan_literal m fmt len start;
               t1 = (if i1 > start then snd (print color m (fmt + start) (i1 - start) t) else t)
           in if m (fmt + i1) = 37
              then case format_directive args buf color fmt len i1 n m t1 of
                     None \<Rightarrow> None
                   | Some (Einval m2 t2) \<Rightarrow> Some (- EINVAL, m2, t2)
                   | Some (Go i2 n2 m2 t2) \<Rightarrow> vprintk_loop args buf color fmt len (i2 + 1) n2 m2 t2
              else vprintk_loop args buf color fmt len i1 n m t1
      else Some (sint len, m, t))"

definition vprintk ::
  "u8 \<Rightarrow> u32 \<Rightarrow> (nat \<Rightarrow> u32) \<Rightarrow> u32 \<Rightarrow> mem \<Rightarrow> tty_state \<Rightarrow> (int \<times> mem \<times> tty_state) option" where
  "vprintk log_level fmt args buf m t =
     (case strlen m fmt of None \<Rightarrow> None
      | Some len \<Rightarrow> vprintk_loop args buf (log_level_to_vga_color log_level) fmt len 0 0 m t)"

definition printk :: "u8 \<Rightarrow> u32 \<Rightarrow> (nat \<Rightarrow> u32) \<Rightarrow> u32 \<Rightarrow> mem \<Rightarrow> tty_state \<Rightarrow> (int \<times> mem \<times> tty_state) option" where
  "printk log_level fmt args buf m t = vprintk log_level fmt args buf m t"

definition printk_debug :: "u32 \<Rightarrow> (nat \<Rightarrow> u32) \<Rightarrow> u32 \<Rightarrow> mem \<Rightarrow> tty_state \<Rightarrow> (int \<times> mem \<times> tty_state) option" where
  "printk_debug fmt args buf m t = vprintk (level_code PRINTK_DEBUG) fmt args buf m t"

definition printk_info :: "u32 \<Rightarrow> (nat \<Rightarrow> u32) \<Rightarrow> u32 \<Rightarrow> mem \<Rightarrow> tty_state \<Rightarrow> (int \<times> mem \<times> tty_state) option" where
  "printk_info fmt args buf m t = vprintk (level_code PRINTK_INFO) fmt args buf m t"

definition printk_warn :: "u32 \<Rightarrow> (nat \<Rightarrow> u32) \<Rightarrow> u32 \<Rightarrow> mem \<Rightarrow> tty_state \<Rightarrow> (int \<times> mem \<times> tty_state) option" where
  "printk_warn fmt args buf m t = vprintk (level_code PRINTK_WARN) fmt args buf m t"

definition printk_err :: "u32 \<Rightarrow> (nat \<Rightarrow> u32) \<Rightarrow> u32 \<Rightarrow> mem \<Rightarrow> tty_state \<Rightarrow> (int \<times> mem \<times> tty_state) option" where
  "printk_err fmt args buf m t = vprintk (level_code PRINTK_ERROR) fmt args buf m t"

section \<open>Panic\<close>

text \<open>
  What \<^verbatim>\<open>panic\<close> prints before it halts the machine. \<open>lit_s\<close> and \<open>lit_sd\<close> are the addresses of the literals
  \<^verbatim>\<open>"%s"\<close> and \<^verbatim>\<open>"%s:%d: "\<close>, \<open>banner\<close> the one of \<^verbatim>\<open>PANIC_MESSAGE\<close>.
\<close>

definition panic ::
  "u32 \<Rightarrow> u32 \<Rightarrow> u32 \<Rightarrow> u32 \<Rightarrow> u32 \<Rightarrow> u32 \<Rightarrow> (nat \<Rightarrow> u32) \<Rightarrow> u32 \<Rightarrow> mem \<Rightarrow> tty_state \<Rightarrow> (mem \<times> tty_state) option" where
  "panic lit_s lit_sd banner file_ptr line_no fmt args buf m t =
     (case printk_err lit_s (\<lambda>_. banner) buf m t of None \<Rightarrow> None
      | Some (_, m1, t1) \<Rightarrow>
          (case printk_err lit_sd (\<lambda>n. if n = 0 then file_ptr else line_no) buf m1 t1 of None \<Rightarrow> None
           | Some (_, m2, t2) \<Rightarrow>
               (case vprintk (level_code PRINTK_ERROR) fmt args buf m2 t2 of None \<Rightarrow> None | Some (_, m3, t3) \<Rightarrow> Some (m3, t3))))"

end
