(* ===== verification/Printk_Spec.thy ===== *)
theory Printk_Spec
  imports Printk
begin

text \<open>
  What \<^verbatim>\<open>vprintk\<close> of \<^verbatim>\<open>src/kernel/printk.c\<close> prints, as a function on lists: the format string is first parsed into
  items, then every item is printed by itself. The last lemma shows that the single pass of the code over the
  string in memory does the same.
\<close>

section \<open>The reference\<close>

datatype directive = Percent | Dec32 | Unsigned32 | Hex32 bool | Dec64 | Unsigned64 | Hex64 | Character | String_at

datatype item = Lit u8 | Conv bool directive nat

definition flagged :: "u8 list \<Rightarrow> bool \<times> u8 list" where
  "flagged f = (case f of [] \<Rightarrow> (False, [])
     | c # g \<Rightarrow> (c = 35, if c = 35 \<or> c = 45 \<or> c = 43 \<or> c = 32 \<or> c = 48 then g else f))"

definition conversion_ll :: "u8 list \<Rightarrow> (directive \<times> u8 list) option" where
  "conversion_ll f = (case f of d # e # g \<Rightarrow>
       if d \<noteq> 108 then None
       else if e = 100 \<or> e = 105 then Some (Dec64, g)
       else if e = 117 then Some (Unsigned64, g)
       else if e = 120 \<or> e = 88 then Some (Hex64, g)
       else None
     | _ \<Rightarrow> None)"

definition conversion :: "u8 list \<Rightarrow> (directive \<times> u8 list) option" where
  "conversion f = (case f of [] \<Rightarrow> None | c # g \<Rightarrow>
       if c = 37 then Some (Percent, g)
       else if c = 100 \<or> c = 105 then Some (Dec32, g)
       else if c = 117 then Some (Unsigned32, g)
       else if c = 120 \<or> c = 88 then Some (Hex32 (c = 88), g)
       else if c = 108 then conversion_ll g
       else if c = 99 then Some (Character, g)
       else if c = 115 then Some (String_at, g)
       else None)"

primrec width :: "directive \<Rightarrow> nat" where
  "width Percent = 0" | "width Dec32 = 1" | "width Unsigned32 = 1" | "width (Hex32 _) = 1"
| "width Dec64 = 2" | "width Unsigned64 = 2" | "width Hex64 = 2" | "width Character = 1" | "width String_at = 1"

lemma conversion_length: "conversion f = Some (d, g) \<Longrightarrow> length g < length f"
  by (auto simp: conversion_def conversion_ll_def split: list.splits if_splits)

lemma flagged_length: "length (snd (flagged f)) \<le> length f"
  by (auto simp: flagged_def split: list.splits)

lemma conversion_flagged_length: "conversion (snd (flagged f)) = Some (d, g) \<Longrightarrow> length g < Suc (length f)"
  using conversion_length [of "snd (flagged f)" d g] flagged_length [of f] by linarith

function parse_format :: "u8 list \<Rightarrow> nat \<Rightarrow> item list \<times> bool" where
  "parse_format [] n = ([], True)"
| "parse_format (c # f) n =
     (if c \<noteq> 37 then (Lit c # fst (parse_format f n), snd (parse_format f n))
      else case conversion (snd (flagged f)) of
             None \<Rightarrow> ([], False)
           | Some (d, g) \<Rightarrow> (Conv (fst (flagged f)) d n # fst (parse_format g (n + width d)), snd (parse_format g (n + width d))))"
  by pat_completeness auto

termination
  by (relation "measure (\<lambda>(f, n). length f)") (auto simp: conversion_flagged_length)

definition decimal :: "int \<Rightarrow> u8 list" where
  "decimal v = (if v < 0 then [45] else []) @ rev (num_chars 10 (nat \<bar>v\<bar>))"

definition hexadecimal :: "nat \<Rightarrow> u8 list" where
  "hexadecimal v = rev (num_chars 16 v)"

primrec conv_output :: "(u32 \<Rightarrow> u8 list) \<Rightarrow> (nat \<Rightarrow> u32) \<Rightarrow> bool \<Rightarrow> nat \<Rightarrow> directive \<Rightarrow> u8 list" where
  "conv_output str args hash n Percent = [37]"
| "conv_output str args hash n Dec32 = decimal (sint (args n))"
| "conv_output str args hash n Unsigned32 = decimal (uint (args n))"
| "conv_output str args hash n (Hex32 upper) = (if hash then [48, 120] else []) @
     (if upper then map toupper (hexadecimal (unat (args n))) else hexadecimal (unat (args n)))"
| "conv_output str args hash n Dec64 = decimal (sint (va_arg64 args n))"
| "conv_output str args hash n Unsigned64 = rev (decimal (uint (va_arg64 args n)))"
| "conv_output str args hash n Hex64 = (if hash then [48, 120] else []) @ hexadecimal (unat (va_arg64 args n))"
| "conv_output str args hash n Character = [ucast (args n)]"
| "conv_output str args hash n String_at = str (args n)"

primrec render_item :: "(u32 \<Rightarrow> u8 list) \<Rightarrow> (nat \<Rightarrow> u32) \<Rightarrow> item \<Rightarrow> u8 list" where
  "render_item str args (Lit c) = [c]"
| "render_item str args (Conv hash d n) = conv_output str args hash n d"

definition render :: "(u32 \<Rightarrow> u8 list) \<Rightarrow> (nat \<Rightarrow> u32) \<Rightarrow> item list \<Rightarrow> u8 list" where
  "render str args is = concat (map (render_item str args) is)"

text \<open>
  What the arguments must be: a string argument is terminated and apart from the local buffer, and
  the one number whose negation overflows is not passed.
\<close>

definition ARG_MAX_LEN :: nat where "ARG_MAX_LEN = 256"

definition apart :: "u32 \<Rightarrow> mem \<Rightarrow> u32 \<Rightarrow> u8 list \<Rightarrow> bool" where
  "apart buf m s xs \<longleftrightarrow> cstr m s xs \<and> span s (Suc (length xs)) \<inter> span buf ARG_MAX_LEN = {}"

primrec item_ok :: "u32 \<Rightarrow> mem \<Rightarrow> (u32 \<Rightarrow> u8 list) \<Rightarrow> (nat \<Rightarrow> u32) \<Rightarrow> item \<Rightarrow> bool" where
  "item_ok buf m str args (Lit c) \<longleftrightarrow> True"
| "item_ok buf m str args (Conv hash d n) \<longleftrightarrow>
     (d = Dec64 \<longrightarrow> va_arg64 args n \<noteq> 0x8000000000000000) \<and> (d = String_at \<longrightarrow> apart buf m (args n) (str (args n)))"

section \<open>Printing strings\<close>

definition same_outside :: "u32 \<Rightarrow> mem \<Rightarrow> mem \<Rightarrow> bool" where
  "same_outside buf m m' \<longleftrightarrow> (\<forall>a. a \<notin> span buf ARG_MAX_LEN \<longrightarrow> m' a = m a)"

lemma same_outside_refl [simp]: "same_outside buf m m"
  by (simp add: same_outside_def)

lemma same_outside_trans: "same_outside buf m m' \<Longrightarrow> same_outside buf m' m'' \<Longrightarrow> same_outside buf m m''"
  by (simp add: same_outside_def)

lemma apart_same_outside:
  assumes "apart buf m s xs" and "same_outside buf m m'" shows "apart buf m' s xs"
proof -
  have "s + of_nat k \<in> span s (Suc (length xs))" if "k \<le> length xs" for k using that unfolding span_def by auto
  then have "m' (s + of_nat k) = m (s + of_nat k)" if "k \<le> length xs" for k
    using assms that unfolding apart_def same_outside_def by blast
  then show ?thesis using assms(1) by (auto simp: apart_def cstr_iff)
qed

lemma putchar_byte: "putchar color ic t = (ic, tty_byte color (ucast ic) t)"
  by (simp add: putchar_def tty_puts_fold bytes_at_def)

lemma print_loop_bytes:
  assumes "bytes_at m (data + i) (length xs) = xs" and "0 \<notin> set xs" and "unat i + length xs < 4294967296" and "len = i + of_nat (length xs)"
  shows "print_loop color m data len i t = (len, fold (tty_byte color) xs t)"
  using assms
proof (induction xs arbitrary: i t)
  case Nil
  then show ?case by (subst print_loop.simps) simp
next
  case (Cons x xs)
  have b: "m (data + i) = x" "bytes_at m (data + (i + 1)) (length xs) = xs" "x \<noteq> 0"
    using Cons.prems(1,2) by (auto simp: bytes_at_def map_upt_Suc add.assoc simp del: upt_Suc)
  have i: "unat (i + 1) = unat i + 1" "i < len" using Cons.prems(3,4)
    by (simp_all add: unat_simps word_less_nat_alt unat_of_nat)
  have "unat (ucast x :: u32) = unat x" using unat_byte_less [of x] by (simp add: unsigned_ucast_eq take_bit_nat_eq_self)
  then have "(ucast x :: u32) \<noteq> 0" using b(3) by (auto simp: word_unat_eq_iff)
  moreover have "(ucast (ucast x :: u32) :: u8) = x" by (rule bit_word_eqI) (auto simp: bit_simps)
  ultimately show ?case using b i Cons by (subst print_loop.simps) (simp add: putchar_byte Let_def add.assoc)
qed

lemma print_bytes:
  assumes "bytes_at m data (length xs) = xs" and "0 \<notin> set xs" and "length xs < 4294967296"
  shows "print color m data (of_nat (length xs)) t = (of_nat (length xs), fold (tty_byte color) xs t)"
  using print_loop_bytes [of m data 0 xs "of_nat (length xs)" color t] assms by (simp add: print_def)

lemma print_string_cstr:
  assumes "cstr m s xs" shows "print_string color m s t k = k (fold (tty_byte color) xs t)"
  using assms print_bytes [of m s xs color t] strlen_cstr [OF assms]
  by (auto simp: print_string_def print_or_ret_def cstr_def)

section \<open>Printing numbers\<close>

lemma sint_scast_u64: "sint (scast (x :: u32) :: u64) = sint x"
  using sint_greater_eq [of x] sint_less [of x] by (simp add: signed_scast_eq signed_take_bit_int_eq_self)

lemma sint_ucast_u64: "sint (ucast (x :: u32) :: u64) = uint x"
proof -
  have "- (2 ^ 63) \<le> uint x" by (rule order_trans [OF _ uint_ge_0]) simp
  moreover have "uint x < 2 ^ 63" using uint_lt2p [of x] by simp
  ultimately have "signed_take_bit 63 (uint x) = uint x" by (rule signed_take_bit_int_eq_self)
  then show ?thesis by (simp add: signed_ucast_eq)
qed

lemma writes_in_buffer:
  assumes "\<forall>a. a \<notin> span buf (Suc n) \<longrightarrow> m' a = m a" and "n < ARG_MAX_LEN" shows "same_outside buf m m'"
proof -
  have "span buf (Suc n) \<subseteq> span buf ARG_MAX_LEN" using assms(2) unfolding span_def by auto
  with assms(1) show ?thesis unfolding same_outside_def by blast
qed

lemma itoa_prints:
  assumes "value \<noteq> 0x8000000000000000"
  obtains m' where "itoa value buf m = Some (buf, m')" "cstr m' buf (decimal (sint value))" "same_outside buf m m'"
proof -
  let ?n = "nat \<bar>sint value\<bar>"
  have "?n < 10 ^ 19"
    using sint_greater_eq [of "value"] sint_less [of "value"] by (simp add: nat_less_iff)
  then have "length (num_chars 10 ?n) \<le> 19" by (intro num_chars_length) simp_all
  moreover have "(if sint value < 0 then 1 else 0) \<le> (1 :: nat)" by simp
  ultimately have "length (num_chars 10 ?n) + (if sint value < 0 then 1 else 0) < ARG_MAX_LEN" unfolding ARG_MAX_LEN_def by linarith
  then show thesis using itoa_spec [OF assms, of buf m] that writes_in_buffer unfolding decimal_def by blast
qed

lemma uitoa_prints:
  obtains m' where "uitoa value buf m = (buf, m')" "cstr m' buf (rev (decimal (uint value)))" "same_outside buf m m'"
proof -
  have "unat value < 10 ^ 64" using unsigned_less [of "value", where 'a = nat] less_le_trans [of "unat value" "2 ^ 64" "10 ^ 64"] by simp
  then have "length (num_chars 10 (unat value)) < ARG_MAX_LEN"
    using num_chars_length [of 10 "unat value" 64] by (simp add: ARG_MAX_LEN_def)
  moreover have "rev (decimal (uint value)) = num_chars 10 (unat value)" by (simp add: decimal_def)
  ultimately show thesis using uitoa_spec [of "value" buf m] that writes_in_buffer by metis
qed

lemma uitoa_hex_prints:
  obtains m' where "uitoa_hex value buf m = Some (buf, m')" "cstr m' buf (hexadecimal (unat value))" "same_outside buf m m'"
proof -
  have "length (num_chars 16 (unat value)) < ARG_MAX_LEN"
    using num_chars_length [of 16 "unat value" 16] unsigned_less [of "value", where 'a = nat] by (simp add: ARG_MAX_LEN_def)
  then show thesis using uitoa_hex_spec [of "value" buf m] that writes_in_buffer unfolding hexadecimal_def by blast
qed

lemma strupper_prints:
  assumes "cstr m buf xs" and "length xs < ARG_MAX_LEN"
  obtains m' where "strupper buf m = Some (buf, m')" "cstr m' buf (map toupper xs)" "same_outside buf m m'"
proof -
  obtain m' where "strupper buf m = Some (buf, m')" "cstr m' buf (map toupper xs)" "\<forall>a. a \<notin> span buf (length xs) \<longrightarrow> m' a = m a"
    using strupper_cstr [OF assms(1)] by blast
  moreover have "span buf (length xs) \<subseteq> span buf (Suc (length xs))" unfolding span_def by auto
  ultimately show thesis using that writes_in_buffer [OF _ assms(2), of buf m' m] by blast
qed

section \<open>The format string\<close>

lemma format_byte:
  assumes "cstr m fmt f" and "j \<le> length f" shows "m (fmt + of_nat j) = (if j < length f then f ! j else 0)"
  using assms by (auto simp: cstr_iff)

lemma scan_literal_takeWhile:
  assumes "cstr m fmt f" and "j \<le> length f"
  shows "scan_literal m fmt (of_nat (length f)) (of_nat j) = of_nat (j + length (takeWhile (\<lambda>c. c \<noteq> 37) (drop j f)))"
  using assms(2)
proof (induction "length f - j" arbitrary: j)
  case 0
  then show ?case by (subst scan_literal.simps) simp
next
  case (Suc d)
  then have j: "j < length f" by linarith
  have lim: "length f < 2 ^ 31" using assms(1) by (simp add: cstr_def)
  have "of_nat j < (of_nat (length f) :: u32)" using j lim by (simp add: word_less_nat_alt unat_of_nat)
  moreover have "m (fmt + of_nat j) = f ! j" using format_byte [OF assms(1), of j] j by simp
  moreover have "drop j f = f ! j # drop (Suc j) f" using j by (rule Cons_nth_drop_Suc [symmetric])
  ultimately show ?case using Suc.hyps(1) [of "Suc j"] Suc.hyps(2) j
    by (subst scan_literal.simps) (simp add: add.commute)
qed

text \<open>One conversion, at index \<open>j\<close> of the format string.\<close>

definition at_directive :: "u32 \<Rightarrow> u8 \<Rightarrow> (u32 \<Rightarrow> u8 list) \<Rightarrow> (nat \<Rightarrow> u32) \<Rightarrow> u8 list \<Rightarrow> nat \<Rightarrow> bool \<Rightarrow> directive \<Rightarrow> u8 list \<Rightarrow> mem \<Rightarrow> tty_state \<Rightarrow> outcome option \<Rightarrow> bool" where
  "at_directive buf color str args f n hash d g m t r \<longleftrightarrow>
     (\<exists>i m'. r = Some (Go (of_nat i) (n + width d) m' (fold (tty_byte color) (conv_output str args hash n d) t)) \<and>
        i < length f \<and> drop (Suc i) f = g \<and> same_outside buf m m')"

lemma at_directiveI:
  assumes "r = Some (Go (of_nat i) (n + width d) m' (fold (tty_byte color) (conv_output str args hash n d) t))"
    and "i < length f" and "drop (Suc i) f = g" and "same_outside buf m m'"
  shows "at_directive buf color str args f n hash d g m t r"
  using assms by (auto simp: at_directive_def)

lemma print_hex_prefix: "print_or_ret color hex_prefix 0 2 m t k = k (fold (tty_byte color) [48, 120] t)"
  using print_bytes [of hex_prefix 0 "[48, 120]" color t]
  by (simp add: print_or_ret_def bytes_at_def hex_prefix_def upt_rec)

lemma format_hex:
  assumes "cstr m fmt f" and "apart buf m fmt f" and "j \<le> length f"
  obtains m1 where "uitoa_hex v buf m = Some (buf, m1)" "cstr m1 buf (hexadecimal (unat v))" "same_outside buf m m1"
    "m1 (fmt + of_nat j) = m (fmt + of_nat j)"
proof -
  obtain m1 where m1: "uitoa_hex v buf m = Some (buf, m1)" "cstr m1 buf (hexadecimal (unat v))" "same_outside buf m m1"
    by (rule uitoa_hex_prints)
  from apart_same_outside [OF assms(2) m1(3)] have "cstr m1 fmt f" by (simp add: apart_def)
  then have "m1 (fmt + of_nat j) = m (fmt + of_nat j)" using assms(1,3) by (simp add: format_byte)
  with m1 that show thesis by blast
qed

lemma format_ll_spec:
  assumes f: "apart buf m fmt f" and j: "j + 2 < length f" and lead: "f ! j = 108" "f ! (j + 1) = 108"
  shows "case conversion_ll (drop (j + 1) f) of
      None \<Rightarrow> format_ll args buf color hash fmt (of_nat j) n m t = Some (Einval m t)
    | Some (d, g) \<Rightarrow> item_ok buf m str args (Conv hash d n) \<longrightarrow>
        at_directive buf color str args f n hash d g m t (format_ll args buf color hash fmt (of_nat j) n m t)"
proof -
  have cs: "cstr m fmt f" using f by (simp add: apart_def)
  define c where "c = f ! (j + 2)"
  have "m (fmt + of_nat (j + 2)) = c" using format_byte [OF cs, of "j + 2"] j by (simp add: c_def)
  then have c: "m (fmt + of_nat j + 2) = c" by (simp add: ac_simps)
  have dj: "drop (j + 1) f = 108 # c # drop (j + 3) f"
    using j lead Cons_nth_drop_Suc [of "j + 1" f] Cons_nth_drop_Suc [of "j + 2" f] by (simp add: c_def numeral_3_eq_3)
  have jj: "(of_nat j + 2 :: u32) = of_nat (j + 2)" by simp
  note I = at_directiveI [where i = "j + 2" and f = f and g = "drop (j + 3) f"]
  have d3: "j + 2 < length f" "drop (Suc (j + 2)) f = drop (j + 3) f" using j by (simp_all add: numeral_3_eq_3)
  consider "c = 100 \<or> c = 105" | "c = 117" | "c = 120 \<or> c = 88" | "c \<notin> {100, 105, 117, 120, 88}" by auto
  then show ?thesis
  proof cases
    case 1
    then have cv: "conversion_ll (drop (j + 1) f) = Some (Dec64, drop (j + 3) f)" unfolding dj by (auto simp: conversion_ll_def)
    have "at_directive buf color str args f n hash Dec64 (drop (j + 3) f) m t (format_ll args buf color hash fmt (of_nat j) n m t)"
      if ok: "va_arg64 args n \<noteq> 0x8000000000000000"
    proof -
      obtain m' where m': "itoa (va_arg64 args n) buf m = Some (buf, m')" "cstr m' buf (decimal (sint (va_arg64 args n)))"
        "same_outside buf m m'" using itoa_prints [OF ok] by blast
      show ?thesis using 1 m'(1) by (intro I [OF _ d3 m'(3)]) (auto simp: format_ll_def c print_string_cstr [OF m'(2)] Let_def)
    qed
    then show ?thesis unfolding cv by simp
  next
    case 2
    then have cv: "conversion_ll (drop (j + 1) f) = Some (Unsigned64, drop (j + 3) f)" unfolding dj by (auto simp: conversion_ll_def)
    obtain m' where m': "uitoa (va_arg64 args n) buf m = (buf, m')" "cstr m' buf (rev (decimal (uint (va_arg64 args n))))"
      "same_outside buf m m'" by (rule uitoa_prints)
    have "at_directive buf color str args f n hash Unsigned64 (drop (j + 3) f) m t (format_ll args buf color hash fmt (of_nat j) n m t)"
      using 2 m'(1) by (intro I [OF _ d3 m'(3)]) (auto simp: format_ll_def c print_string_cstr [OF m'(2)] Let_def)
    then show ?thesis unfolding cv by simp
  next
    case 3
    then have cv: "conversion_ll (drop (j + 1) f) = Some (Hex64, drop (j + 3) f)" unfolding dj by (auto simp: conversion_ll_def)
    obtain m' where m': "uitoa_hex (va_arg64 args n) buf m = Some (buf, m')" "cstr m' buf (hexadecimal (unat (va_arg64 args n)))"
      "same_outside buf m m'" "m' (fmt + of_nat j) = m (fmt + of_nat j)"
      using j by (rule_tac j = j in format_hex [OF cs f]) auto
    have "m (fmt + of_nat j) = 108" using format_byte [OF cs, of j] j lead by simp
    then have "at_directive buf color str args f n hash Hex64 (drop (j + 3) f) m t (format_ll args buf color hash fmt (of_nat j) n m t)"
      using 3 m'(1,4) by (intro I [OF _ d3 m'(3)])
        (auto simp: format_ll_def c print_string_cstr [OF m'(2)] print_hex_prefix Let_def)
    then show ?thesis unfolding cv by simp
  next
    case 4
    then have "conversion_ll (drop (j + 1) f) = None" unfolding dj by (simp add: conversion_ll_def)
    then show ?thesis using 4 by (simp add: format_ll_def c Let_def)
  qed
qed

lemma conversion_ll_short: "length g \<le> 1 \<Longrightarrow> conversion_ll g = None"
  by (auto simp: conversion_ll_def split: list.splits)

text \<open>The integer conversions pass a 64-bit value whose negation does not overflow.\<close>

lemma itoa_extends:
  shows "\<exists>m'. itoa (scast (v :: u32)) buf m = Some (buf, m') \<and> cstr m' buf (decimal (sint v)) \<and> same_outside buf m m'"
    and "\<exists>m'. itoa (ucast (v :: u32)) buf m = Some (buf, m') \<and> cstr m' buf (decimal (uint v)) \<and> same_outside buf m m'"
proof -
  have "sint (scast v :: u64) \<noteq> sint (0x8000000000000000 :: u64)"
    using sint_greater_eq [of v] by (simp add: sint_scast_u64)
  then have "scast v \<noteq> (0x8000000000000000 :: u64)" by metis
  then show "\<exists>m'. itoa (scast v) buf m = Some (buf, m') \<and> cstr m' buf (decimal (sint v)) \<and> same_outside buf m m'"
    using itoa_prints sint_scast_u64 by metis
  have "0 \<le> sint (ucast v :: u64)" unfolding sint_ucast_u64 by (rule uint_ge_0)
  moreover have "sint (0x8000000000000000 :: u64) < 0" by simp
  ultimately have "sint (ucast v :: u64) \<noteq> sint (0x8000000000000000 :: u64)" by linarith
  then have "ucast v \<noteq> (0x8000000000000000 :: u64)" by metis
  then show "\<exists>m'. itoa (ucast v) buf m = Some (buf, m') \<and> cstr m' buf (decimal (uint v)) \<and> same_outside buf m m'"
    using itoa_prints sint_ucast_u64 by metis
qed

lemma format_conversion_hex:
  assumes f: "apart buf m fmt f" and j: "j < length f" and c: "m (fmt + of_nat j) = c" "c = 120 \<or> c = 88"
  shows "at_directive buf color str args f n hash (Hex32 (c = 88)) (drop (j + 1) f) m t
    (format_conversion args buf color hash fmt len (of_nat j) n m t)"
proof -
  let ?h = "hexadecimal (unat (args n))"
  note I = at_directiveI [where i = j and f = f and g = "drop (j + 1) f"]
  have cs: "cstr m fmt f" using f by (simp add: apart_def)
  obtain m1 where m1: "uitoa_hex (ucast (args n)) buf m = Some (buf, m1)" "cstr m1 buf ?h"
    "same_outside buf m m1" "m1 (fmt + of_nat j) = c"
    using c(1) by (rule_tac j = j and v = "ucast (args n)" in format_hex [OF cs f]) (use j in auto)
  have len: "length ?h < ARG_MAX_LEN"
    using num_chars_length [of 16 "unat (args n)" 16] unat_u32_less [of "args n"]
    by (simp add: ARG_MAX_LEN_def hexadecimal_def)
  obtain m2 where m2: "strupper buf m1 = Some (buf, m2)" "cstr m2 buf (map toupper ?h)" "same_outside buf m1 m2"
    by (rule strupper_prints [OF m1(2) len])
  show ?thesis
  proof (cases "c = 88")
    case True
    then show ?thesis using j m1(1,4) m2(1) same_outside_trans [OF m1(3) m2(3)]
      by (intro I [where m' = m2]) (auto simp: format_conversion_def c(1) print_string_cstr [OF m2(2)] print_hex_prefix va_arg32_def)
  next
    case False
    then show ?thesis using j c m1
      by (intro I [where m' = m1]) (auto simp: format_conversion_def print_string_cstr [OF m1(2)] print_hex_prefix va_arg32_def)
  qed
qed

lemma conversion_ll_needs:
  assumes "\<not> (j + 2 < length f \<and> f ! (j + 1) = 108)" shows "conversion_ll (drop (j + 1) f) = None"
proof (cases "j + 2 < length f")
  case True
  then have "drop (j + 1) f = f ! (j + 1) # f ! (j + 2) # drop (j + 3) f"
    using Cons_nth_drop_Suc [of "j + 1" f] Cons_nth_drop_Suc [of "j + 2" f] by (simp add: numeral_3_eq_3)
  then show ?thesis using assms True by (simp add: conversion_ll_def)
next
  case False
  then have "length (drop (j + 1) f) \<le> 1" by simp
  then show ?thesis by (rule conversion_ll_short)
qed

lemma format_conversion_ll:
  assumes f: "apart buf m fmt f" and j: "j < length f" "0 < j" and c: "f ! j = 108"
  shows "case conversion_ll (drop (j + 1) f) of
      None \<Rightarrow> format_conversion args buf color hash fmt (of_nat (length f)) (of_nat j) n m t = Some (Einval m t)
    | Some (d, g) \<Rightarrow> item_ok buf m str args (Conv hash d n) \<longrightarrow>
        at_directive buf color str args f n hash d g m t
          (format_conversion args buf color hash fmt (of_nat (length f)) (of_nat j) n m t)"
proof -
  let ?run = "format_conversion args buf color hash fmt (of_nat (length f)) (of_nat j) n m t"
  have cs: "cstr m fmt f" and lim: "length f < 2147483648" using f by (simp_all add: apart_def cstr_def)
  have here: "m (fmt + of_nat j) = 108" using format_byte [OF cs, of j] j c by simp
  have "unat (of_nat (length f) - 2 :: u32) = length f - 2" using j lim by (simp add: unat_sub word_le_nat_alt unat_of_nat)
  then have room: "of_nat j < (of_nat (length f) - 2 :: u32) \<longleftrightarrow> j + 2 < length f"
    using j lim by (auto simp: word_less_nat_alt unat_of_nat)
  have second: "m (fmt + of_nat j + 1) = f ! (j + 1)" if "j + 2 < length f"
    using that format_byte [OF cs, of "j + 1"] by (simp add: ac_simps)
  show ?thesis
  proof (cases "j + 2 < length f \<and> f ! (j + 1) = 108")
    case True
    then have run: "?run = format_ll args buf color hash fmt (of_nat j) n m t"
      using room second by (simp add: format_conversion_def here)
    show ?thesis unfolding run using True c by (intro format_ll_spec [OF f]) simp_all
  next
    case False
    then have "?run = Some (Einval m t)" using room second by (auto simp: format_conversion_def here)
    then show ?thesis using conversion_ll_needs [OF False] by simp
  qed
qed

lemma format_conversion_spec:
  assumes f: "apart buf m fmt f" and j: "j \<le> length f" and pos: "0 < j"
  shows "case conversion (drop j f) of
      None \<Rightarrow> format_conversion args buf color hash fmt (of_nat (length f)) (of_nat j) n m t = Some (Einval m t)
    | Some (d, g) \<Rightarrow> item_ok buf m str args (Conv hash d n) \<longrightarrow>
        at_directive buf color str args f n hash d g m t
          (format_conversion args buf color hash fmt (of_nat (length f)) (of_nat j) n m t)"
proof (cases "j < length f")
  case False
  have "m (fmt + of_nat j) = 0" using f format_byte [of m fmt f j] j False by (simp add: apart_def)
  then show ?thesis using False by (simp add: conversion_def format_conversion_def)
next
  case True
  have cs: "cstr m fmt f" using f by (simp add: apart_def)
  define c where "c = f ! j"
  have c: "m (fmt + of_nat j) = c" using format_byte [OF cs, of j] True by (simp add: c_def)
  have dj: "drop j f = c # drop (j + 1) f" using Cons_nth_drop_Suc [OF True] by (simp add: c_def)
  note I = at_directiveI [where i = j and f = f and g = "drop (j + 1) f"]
  let ?run = "format_conversion args buf color hash fmt (of_nat (length f)) (of_nat j) n m t"
  let ?at = "\<lambda>d. at_directive buf color str args f n hash d (drop (j + 1) f) m t ?run"
  consider (percent) "c = 37" | (dec) "c = 100 \<or> c = 105" | (uns) "c = 117" | (hex) "c = 120 \<or> c = 88" | (ll) "c = 108"
    | (chr) "c = 99" | (str) "c = 115" | (bad) "c \<notin> {37, 100, 105, 117, 120, 88, 108, 99, 115}" by auto
  then show ?thesis
  proof cases
    case percent
    have "print color m (fmt + of_nat j) 1 t = (1, fold (tty_byte color) [37] t)"
      using print_bytes [of m "fmt + of_nat j" "[37]" color t] percent by (simp add: bytes_at_def c)
    then have "?at Percent" using percent True by (intro I [where m' = m]) (simp_all add: format_conversion_def c print_or_ret_def)
    then show ?thesis using percent by (simp add: conversion_def dj)
  next
    case dec
    obtain m' where m': "itoa (scast (args n)) buf m = Some (buf, m')" "cstr m' buf (decimal (sint (args n)))" "same_outside buf m m'"
      using itoa_extends(1) by blast
    have "?at Dec32" using dec True m'(1)
      by (intro I [where m' = m']) (auto simp: format_conversion_def c print_string_cstr [OF m'(2)] m'(3) va_arg32_def)
    then show ?thesis using dec by (auto simp: conversion_def dj)
  next
    case uns
    obtain m' where m': "itoa (ucast (args n)) buf m = Some (buf, m')" "cstr m' buf (decimal (uint (args n)))" "same_outside buf m m'"
      using itoa_extends(2) by blast
    have "?at Unsigned32" using uns True m'(1)
      by (intro I [where m' = m']) (auto simp: format_conversion_def c print_string_cstr [OF m'(2)] m'(3) va_arg32_def)
    then show ?thesis using uns by (simp add: conversion_def dj)
  next
    case hex
    then show ?thesis using format_conversion_hex [OF f True c hex] by (auto simp: conversion_def dj)
  next
    case ll
    then have "conversion (drop j f) = conversion_ll (drop (j + 1) f)" by (simp add: conversion_def dj)
    then show ?thesis using format_conversion_ll [OF f True pos] ll c_def by simp
  next
    case chr
    then have "?at Character" using True by (intro I [where m' = m]) (simp_all add: format_conversion_def c putchar_byte va_arg32_def)
    then show ?thesis using chr by (simp add: conversion_def dj)
  next
    case str
    have "?at String_at" if "apart buf m (args n) (str (args n))"
    proof -
      have "cstr m (args n) (str (args n))" using that by (simp add: apart_def)
      from print_string_cstr [OF this] show ?thesis using str True
        by (intro I [where m' = m]) (simp_all add: format_conversion_def c va_arg32_def)
    qed
    then show ?thesis using str by (simp add: conversion_def dj)
  next
    case bad
    then show ?thesis by (simp add: conversion_def dj format_conversion_def c)
  qed
qed

lemma format_directive_spec:
  assumes f: "apart buf m fmt f" and j: "j < length f"
  shows "case conversion (snd (flagged (drop (j + 1) f))) of
      None \<Rightarrow> format_directive args buf color fmt (of_nat (length f)) (of_nat j) n m t = Some (Einval m t)
    | Some (d, g) \<Rightarrow> item_ok buf m str args (Conv (fst (flagged (drop (j + 1) f))) d n) \<longrightarrow>
        at_directive buf color str args f n (fst (flagged (drop (j + 1) f))) d g m t
          (format_directive args buf color fmt (of_nat (length f)) (of_nat j) n m t)"
proof -
  have cs: "cstr m fmt f" and lim: "length f < 2147483648" using f by (simp_all add: apart_def cstr_def)
  define c where "c = (if j + 1 < length f then f ! (j + 1) else 0)"
  have "m (fmt + of_nat (j + 1)) = c" using format_byte [OF cs, of "j + 1"] j by (simp add: c_def)
  then have c: "m (fmt + of_nat j + 1) = c" by (simp add: ac_simps)
  let ?flag = "c = 35 \<or> c = 45 \<or> c = 43 \<or> c = 32 \<or> c = 48"
  define k where "k = (if ?flag then j + 2 else j + 1)"
  have k: "k \<le> length f" "0 < k" using j by (auto simp: k_def c_def split: if_splits)
  have "drop (j + 1) f = (if j + 1 < length f then c # drop (j + 2) f else [])"
    using Cons_nth_drop_Suc [of "j + 1" f] by (simp add: c_def)
  then have fl: "flagged (drop (j + 1) f) = (c = 35, drop k f)"
    using j by (auto simp: flagged_def k_def c_def)
  have ne: "(of_nat i :: u32) = of_nat (length f) \<longleftrightarrow> i = length f" if "i < 4294967296" for i using that lim by simp
  have run: "format_directive args buf color fmt (of_nat (length f)) (of_nat j) n m t =
      format_conversion args buf color (c = 35) fmt (of_nat (length f)) (of_nat k) n m t"
  proof (cases ?flag)
    case True
    then have "j + 1 < length f" "k = j + 2" by (auto simp: c_def k_def split: if_splits)
    moreover from this have "(of_nat j + 1 :: u32) \<noteq> of_nat (length f)" using ne [of "j + 1"] lim by (simp add: add.commute)
    moreover have "of_nat (j + 2) = (of_nat j + 1 + 1 :: u32)" by simp
    ultimately show ?thesis using True j ne [of j] lim by (simp only: format_directive_def c Let_def) simp
  next
    case False
    moreover from this have "of_nat k = (of_nat j + 1 :: u32)" by (simp add: k_def add.commute)
    ultimately show ?thesis using j ne [of j] lim by (simp only: format_directive_def c Let_def) simp
  qed
  show ?thesis unfolding fl fst_conv snd_conv run by (rule format_conversion_spec [OF f k])
qed

lemma parse_format_literals:
  "37 \<notin> set xs \<Longrightarrow> parse_format (xs @ f) n = (map Lit xs @ fst (parse_format f n), snd (parse_format f n))"
  by (induction xs) auto

lemma render_simps [simp]:
  "render str args [] = []" "render str args (x # is) = render_item str args x @ render str args is"
  "render str args (is @ js) = render str args is @ render str args js" "render str args (map Lit xs) = xs"
  by (simp_all add: render_def comp_def)

lemma item_ok_same_outside: "item_ok buf m str args x \<Longrightarrow> same_outside buf m m' \<Longrightarrow> item_ok buf m' str args x"
  by (cases x) (auto intro: apart_same_outside)

lemma vprintk_loop_done:
  assumes "length f < 2147483648"
  shows "vprintk_loop args buf color fmt (of_nat (length f)) (of_nat (length f)) n m t = Some (int (length f), m, t)"
proof -
  have "(of_nat (length f) :: u32) = word_of_int (int (length f))" by simp
  then have "sint (of_nat (length f) :: u32) = int (length f)"
    using assms by (simp only: sint_sbintrunc') (simp add: signed_take_bit_int_eq_self)
  then show ?thesis by (subst vprintk_loop.simps) simp
qed

text \<open>The text in front of the next percent sign, and the round of the loop that prints it.\<close>

lemma literal_split:
  fixes f :: "u8 list"
  obtains k lits where "drop j f = lits @ drop k f" "37 \<notin> set lits" "k = j + length lits" "j \<le> length f \<Longrightarrow> k \<le> length f"
    "k < length f \<Longrightarrow> f ! k = 37" "length (takeWhile (\<lambda>c. c \<noteq> 37) (drop j f)) = length lits"
proof -
  define lits where "lits = takeWhile (\<lambda>c. c \<noteq> 37) (drop j f)"
  define k where "k = j + length lits"
  have "drop j f = lits @ drop k f" unfolding k_def lits_def
    using takeWhile_dropWhile_id [of "\<lambda>c. c \<noteq> 37" "drop j f"] by (simp add: dropWhile_eq_drop add.commute)
  moreover have "37 \<notin> set lits" unfolding lits_def by (auto dest: set_takeWhileD)
  moreover have "j \<le> length f \<Longrightarrow> k \<le> length f" using length_takeWhile_le [of "\<lambda>c. c \<noteq> 37" "drop j f"] by (simp add: k_def lits_def)
  moreover have "f ! k = 37" if "k < length f"
    using hd_dropWhile [of "\<lambda>c. c \<noteq> 37" "drop j f"] that
    by (simp add: dropWhile_eq_drop lits_def [symmetric] k_def add.commute hd_drop_conv_nth)
  ultimately show thesis using that k_def lits_def by blast
qed

lemma print_literals:
  assumes f: "cstr m fmt f" and parts: "drop j f = lits @ drop k f" and k: "k = j + length lits" "k \<le> length f"
  shows "print color m (fmt + of_nat j) (of_nat (length lits)) t = (of_nat (length lits), fold (tty_byte color) lits t)"
proof -
  have nth: "lits ! i = f ! (j + i)" if "i < length lits" for i
  proof -
    have "drop j f ! i = lits ! i" using that by (simp add: parts nth_append)
    then show ?thesis using that k by simp
  qed
  have "set lits \<subseteq> set f" using parts by (metis set_append set_drop_subset Un_subset_iff)
  then have "0 \<notin> set lits" using f by (auto simp: cstr_def)
  moreover have "bytes_at m (fmt + of_nat j) (length lits) = lits"
  proof (rule nth_equalityI)
    fix i assume "i < length (bytes_at m (fmt + of_nat j) (length lits))"
    then show "bytes_at m (fmt + of_nat j) (length lits) ! i = lits ! i"
      using k nth [of i] format_byte [OF f, of "j + i"] by (simp add: add.assoc)
  qed simp
  moreover have "length lits < 4294967296" using f k by (simp add: cstr_def)
  ultimately show ?thesis using print_bytes by blast
qed

lemma vprintk_loop_step:
  assumes f: "cstr m fmt f" and j: "j < length f" and parts: "drop j f = lits @ drop k f" and k: "k = j + length lits" "k \<le> length f"
    and lits: "length (takeWhile (\<lambda>c. c \<noteq> 37) (drop j f)) = length lits"
  shows "vprintk_loop args buf color fmt (of_nat (length f)) (of_nat j) n m t =
    (let t1 = fold (tty_byte color) lits t
     in if k < length f \<and> f ! k = 37
        then case format_directive args buf color fmt (of_nat (length f)) (of_nat k) n m t1 of
               None \<Rightarrow> None
             | Some (Einval m2 t2) \<Rightarrow> Some (- EINVAL, m2, t2)
             | Some (Go i2 n2 m2 t2) \<Rightarrow> vprintk_loop args buf color fmt (of_nat (length f)) (i2 + 1) n2 m2 t2
        else vprintk_loop args buf color fmt (of_nat (length f)) (of_nat k) n m t1)"
proof -
  have lim: "length f < 2147483648" using f by (simp add: cstr_def)
  have kj: "(of_nat k - of_nat j :: u32) = of_nat (length lits)" by (simp add: k(1))
  have "of_nat j < (of_nat k :: u32) \<longleftrightarrow> j < k" using k(2) lim j by (simp add: word_less_nat_alt unat_of_nat)
  then have "of_nat j < (of_nat k :: u32) \<longleftrightarrow> lits \<noteq> []" by (simp add: k(1))
  then have t1: "(if of_nat j < (of_nat k :: u32) then snd (print color m (fmt + of_nat j) (of_nat k - of_nat j) t) else t) =
      fold (tty_byte color) lits t"
    using print_literals [OF f parts k] by (simp add: kj)
  have scan: "scan_literal m fmt (of_nat (length f)) (of_nat j) = of_nat k"
    using scan_literal_takeWhile [OF f] j lits by (simp add: k(1))
  have lt: "of_nat j < (of_nat (length f) :: u32)" using j lim by (simp add: word_less_nat_alt unat_of_nat)
  have pct: "m (fmt + of_nat k) = 37 \<longleftrightarrow> k < length f \<and> f ! k = 37" using format_byte [OF f k(2)] by simp
  show ?thesis using lt by (subst vprintk_loop.simps) (simp only: scan t1 pct Let_def if_True)
qed

lemma vprintk_loop_spec:
  assumes "apart buf m fmt f" and "j \<le> length f" and "parse_format (drop j f) n = (is, ok)" and "\<forall>x \<in> set is. item_ok buf m str args x"
  shows "\<exists>m'. vprintk_loop args buf color fmt (of_nat (length f)) (of_nat j) n m t =
      Some (if ok then int (length f) else - EINVAL, m', fold (tty_byte color) (render str args is) t) \<and> same_outside buf m m'"
  using assms
proof (induction "length f - j" arbitrary: j n "is" m t rule: less_induct)
  case less
  have cs: "cstr m fmt f" and lim: "length f < 2147483648" using less.prems(1) by (simp_all add: apart_def cstr_def)
  note loop_end = vprintk_loop_done [OF lim]
  obtain k lits where parts: "drop j f = lits @ drop k f" and l37: "37 \<notin> set lits" and k: "k = j + length lits" "k \<le> length f"
    and pct: "k < length f \<Longrightarrow> f ! k = 37" and lits: "length (takeWhile (\<lambda>c. c \<noteq> 37) (drop j f)) = length lits"
    using literal_split [of j f] less.prems(2) by metis
  define t1 where "t1 = fold (tty_byte color) lits t"
  note step = vprintk_loop_step [OF cs _ parts k lits, of args buf color n t, folded t1_def, unfolded Let_def]
  have parsed: "is = map Lit lits @ fst (parse_format (drop k f) n)" "ok = snd (parse_format (drop k f) n)"
    using less.prems(3) parse_format_literals [OF l37, of "drop k f" n] by (simp_all add: parts)
  consider (finished) "j = length f" | (literal) "j < length f" "k = length f" | (conv) "j < length f" "k < length f"
    using less.prems(2) k by linarith
  then show ?case
  proof cases
    case finished
    then show ?thesis using loop_end less.prems(3) by (auto intro!: exI [of _ m])
  next
    case literal
    then show ?thesis using loop_end parsed by (auto simp: step t1_def intro!: exI [of _ m])
  next
    case conv
    have dk: "drop k f = 37 # drop (k + 1) f" using pct conv(2) Cons_nth_drop_Suc [OF conv(2)] by simp
    let ?fl = "flagged (drop (k + 1) f)"
    note dir = format_directive_spec [OF less.prems(1) conv(2), where args = args and color = color and n = n and t = t1 and str = str]
    show ?thesis
    proof (cases "conversion (snd ?fl)")
      case None
      then have "is = map Lit lits" "\<not> ok" using parsed by (simp_all add: dk)
      then show ?thesis using None dir conv pct by (auto simp: step t1_def intro!: exI [of _ m])
    next
      case (Some dg)
      obtain d g where dg: "dg = (d, g)" by (cases dg)
      let ?rest = "parse_format g (n + width d)" and ?t2 = "fold (tty_byte color) (conv_output str args (fst ?fl) n d) t1"
      have p: "is = map Lit lits @ Conv (fst ?fl) d n # fst ?rest" "ok = snd ?rest"
        using parsed Some by (simp_all add: dk dg)
      then have "item_ok buf m str args (Conv (fst ?fl) d n)" using less.prems(4) by simp
      then obtain i m2 where go: "format_directive args buf color fmt (of_nat (length f)) (of_nat k) n m t1 =
          Some (Go (of_nat i) (n + width d) m2 ?t2)" and i: "i < length f" "drop (Suc i) f = g" and m2: "same_outside buf m m2"
        using dir Some by (auto simp: dg at_directive_def)
      have "length g < Suc (length (drop (k + 1) f))" using conversion_flagged_length Some dg by blast
      then have smaller: "length f - Suc i < length f - j" using i conv k(1) by auto
      have ok2: "\<forall>x \<in> set (fst ?rest). item_ok buf m2 str args x" using less.prems(4) p(1) item_ok_same_outside [OF _ m2] by simp
      obtain m3 where m3: "vprintk_loop args buf color fmt (of_nat (length f)) (of_nat (Suc i)) (n + width d) m2 ?t2 =
          Some (if ok then int (length f) else - EINVAL, m3, fold (tty_byte color) (render str args (fst ?rest)) ?t2)" "same_outside buf m2 m3"
        using less.hyps [OF smaller apart_same_outside [OF less.prems(1) m2], of "n + width d" "fst ?rest"] i ok2 p(2) by auto
      have "(of_nat i + 1 :: u32) = of_nat (Suc i)" by (simp add: add.commute)
      then have "vprintk_loop args buf color fmt (of_nat (length f)) (of_nat j) n m t =
          Some (if ok then int (length f) else - EINVAL, m3, fold (tty_byte color) (render str args (fst ?rest)) ?t2)"
        using m3(1) pct conv unfolding step [OF conv(1)] go by (simp del: of_nat_Suc)
      then show ?thesis using same_outside_trans [OF m2 m3(2)] by (auto simp: p(1) t1_def)
    qed
  qed
qed

section \<open>Properties\<close>

text \<open>C12. \<open>vprintk\<close> does what the reference says: on a format string that is apart from its local buffer
  and on arguments that fit it, it returns, the bytes it sends to the console are the rendering of the parsed
  format, up to the first directive that is unknown or incomplete, and it returns the length of the format or
  \<^verbatim>\<open>-EINVAL\<close> accordingly. Only its local buffer is written. (The reference follows the code: \<^verbatim>\<open>%llu\<close> prints
  the digits in reverse order and \<^verbatim>\<open>%llX\<close> prints lower case.)\<close>

theorem vprintk_renders:
  assumes "apart buf m fmt f" and "parse_format f 0 = (is, ok)" and "\<forall>x \<in> set is. item_ok buf m str args x"
  shows "\<exists>m'. vprintk level fmt args buf m t =
      Some (if ok then int (length f) else - EINVAL, m', fold (tty_byte (log_level_to_vga_color level)) (render str args is) t) \<and>
    (\<forall>a. a \<notin> span buf ARG_MAX_LEN \<longrightarrow> m' a = m a)"
proof -
  have "strlen m fmt = Some (of_nat (length f))" using assms(1) strlen_cstr by (auto simp: apart_def)
  then show ?thesis
    using vprintk_loop_spec [OF assms(1), of 0 0 "is" ok str args "log_level_to_vga_color level" t] assms(2,3)
    by (simp add: vprintk_def same_outside_def)
qed

text \<open>The format \<^verbatim>\<open>n=%d!\<close> at 0x1000, with the buffer at 0x2000.\<close>

definition example_format :: mem where
  "example_format = (\<lambda>_. 0)(0x1000 := 110, 0x1001 := 61, 0x1002 := 37, 0x1003 := 100, 0x1004 := 33)"

theorem vprintk_renders_witness:
  "\<exists>m'. vprintk 0 0x1000 (\<lambda>_. - 7) 0x2000 example_format example_tty =
     Some (5, m', fold (tty_byte (log_level_to_vga_color 0)) [110, 61, 45, 55, 33] example_tty)"
proof -
  have a: "apart 0x2000 example_format 0x1000 [110, 61, 37, 100, 33]"
    unfolding apart_def
    by (rule conjI, simp add: cstr_iff example_format_def All_less_Suc2, rule span_disjoint) (simp_all add: ARG_MAX_LEN_def)
  have p: "parse_format [110, 61, 37, 100, 33] 0 = ([Lit 110, Lit 61, Conv False Dec32 0, Lit 33], True)"
    by (simp add: flagged_def conversion_def)
  from vprintk_renders [OF a p, where args = "\<lambda>_. - 7" and level = 0 and t = example_tty] show ?thesis
    by (auto simp: decimal_def num_chars_def lsd.simps digit_char_def)
qed

end
