(* ===== verification/Vmm_Clone.thy ===== *)
theory Vmm_Clone
  imports Vmm_Map
begin

text \<open>
  Copies of address spaces: \<^verbatim>\<open>clone_free_blocks\<close> and \<^verbatim>\<open>clone_allocations\<close> of \<^verbatim>\<open>src/kernel/arch/i386/mm/vmm.c\<close>.
\<close>

section \<open>The list of free regions\<close>

lemma kmalloc_block_cases:
  assumes "kmalloc_inv s L"
  obtains p s' where "kmallocK sizeof_free_blocks s = ret (p, s')" "p \<notin> L" "kmalloc_inv s' (if p = NULL then L else insert p L)"
    "blocks s' = blocks s" "trees s' = trees s"
proof -
  obtain p s1 where k: "kmalloc sizeof_free_blocks s = Some (p, s1)" using km.alloc_returns [OF assms] by blast
  have ok: "kmalloc_size_ok sizeof_free_blocks" by (simp add: kmalloc_size_ok_def c_const)
  have "p \<notin> L" using km.alloc_fresh [OF assms ok k] km.live_nonnull [OF assms] by auto
  then show thesis using that [of p s1] km.alloc_keeps_inv [OF assms ok k] kmalloc_stores [OF k] k by (simp add: kmallocK_def)
qed

text \<open>
  The loop, entered with a block \<open>cur\<close> that is allocated but not filled yet and, from the second round on,
  the node \<open>prev\<close> that is to point to it: the nodes \<open>ns\<close> have been copied to a list that starts at \<open>cur\<close> and is made
  of \<open>cur\<close> and of blocks that were not live before.
\<close>

definition copied :: "'a vmm_state_scheme \<Rightarrow> u32 set \<Rightarrow> u32 list \<Rightarrow> u32 \<Rightarrow> u32 \<Rightarrow> 'a vmm_state_scheme \<Rightarrow> u32 set \<Rightarrow> u32 list \<Rightarrow> bool" where
  "copied s L ns prev cur s' L' ms \<longleftrightarrow> kmalloc_inv s' L' \<and> L \<subseteq> L' \<and> set ms \<subseteq> insert cur (L' - L) \<and>
     list_at (fb_next \<circ> blocks s') (if ns = [] then NULL else cur) ms \<and> map (region_of (blocks s')) ms = map (region_of (blocks s)) ns \<and>
     (prev \<noteq> NULL \<and> ns \<noteq> [] \<longrightarrow> blocks s' prev = (blocks s prev)\<lparr>fb_next := cur\<rparr>) \<and>
     (\<forall>x. x \<notin> set ms \<and> (x \<noteq> prev \<or> ns = []) \<longrightarrow> blocks s' x = blocks s x) \<and> trees s' = trees s"

lemma copied_Cons:
  fixes s :: "'a vmm_state_scheme"
  defines "v n \<equiv> \<lparr>fb_virtual_addr = fb_virtual_addr (blocks s n), fb_page_count = fb_page_count (blocks s n), fb_next = NULL\<rparr>"
    and "bs1 prev cur \<equiv> if prev \<noteq> NULL then (blocks s)(prev := (blocks s prev)\<lparr>fb_next := cur\<rparr>) else blocks s"
  assumes cur: "cur \<noteq> NULL" "cur \<in> L" "cur \<notin> set ns" and prev: "prev \<notin> set ns" "prev \<noteq> NULL \<longrightarrow> prev \<in> L \<and> prev \<noteq> cur"
    and s3: "blocks s3 = (bs1 prev cur)(cur := v n)" "trees s3 = trees s" and nxt: "nxt \<notin> L"
    and rest: "copied s3 (if nxt = NULL then L else insert nxt L) ns cur nxt s' L' ms"
  shows "copied s L (n # ns) prev cur s' L' (cur # ms)"
proof -
  have r: "kmalloc_inv s' L'" "(if nxt = NULL then L else insert nxt L) \<subseteq> L'" "set ms \<subseteq> insert nxt (L' - (if nxt = NULL then L else insert nxt L))"
    "list_at (fb_next \<circ> blocks s') (if ns = [] then NULL else nxt) ms" "map (region_of (blocks s')) ms = map (region_of (blocks s3)) ns"
    "ns \<noteq> [] \<longrightarrow> blocks s' cur = (blocks s3 cur)\<lparr>fb_next := nxt\<rparr>"
    "\<forall>x. x \<notin> set ms \<and> (x \<noteq> cur \<or> ns = []) \<longrightarrow> blocks s' x = blocks s3 x" "trees s' = trees s3"
    using rest cur(1) by (simp_all add: copied_def)
  have L: "L \<subseteq> L'" using r(2) by (auto split: if_splits)
  have "NULL \<notin> set ms" by (rule list_at_nonnull_mem [OF r(4)])
  then have ms_new: "set ms \<subseteq> L' - L" using r(2,3) nxt by (auto split: if_splits)
  then have "cur \<notin> set ms" using cur(2) by auto
  moreover have "ms = [] \<longleftrightarrow> ns = []" using r(5) by (metis map_is_Nil_conv)
  ultimately have curb: "blocks s' cur = (v n)\<lparr>fb_next := if ns = [] then NULL else nxt\<rparr>"
    using r(6,7) s3(1) by (cases "ns = []") (auto simp: v_def)
  have "map (region_of (blocks s3)) ns = map (region_of (blocks s)) ns" using cur(3) prev(1) s3(1) by (auto simp: region_of_def bs1_def)
  then have "map (region_of (blocks s')) (cur # ms) = map (region_of (blocks s)) (n # ns)"
    using r(5) curb by (simp add: region_of_def v_def)
  moreover have "list_at (fb_next \<circ> blocks s') cur (cur # ms)" using r(4) curb cur(1) by simp
  moreover have "prev \<noteq> NULL \<Longrightarrow> blocks s' prev = (blocks s prev)\<lparr>fb_next := cur\<rparr>"
    using r(7) prev(2) ms_new s3(1) by (auto simp: bs1_def)
  moreover have "blocks s' x = blocks s x" if "x \<notin> set (cur # ms)" "x \<noteq> prev" for x using r(7) that s3(1) by (auto simp: bs1_def)
  moreover have "set (cur # ms) \<subseteq> insert cur (L' - L)" using ms_new by auto
  ultimately show ?thesis using r(1,8) L s3(2) by (simp add: copied_def comp_def)
qed

lemma clone_free_loop_copies:
  assumes "kmalloc_inv s L" and "list_at (fb_next \<circ> blocks s) orig ns" and "set ns \<subseteq> L" and "cur \<noteq> NULL \<longrightarrow> cur \<in> L"
    and "cur \<notin> set ns" and "prev \<notin> set ns" and "prev \<noteq> NULL \<longrightarrow> prev \<in> L \<and> prev \<noteq> cur"
  shows "clone_free_loop orig prev cur s = fail Null_deref \<or>
    (\<exists>s' L' ms. clone_free_loop orig prev cur s = ret s' \<and> copied s L ns prev cur s' L' ms)"
  using assms
proof (induction ns arbitrary: orig prev cur s L)
  case Nil
  then have "clone_free_loop orig prev cur s = ret s" by (subst clone_free_loop.simps) simp
  then show ?case using Nil.prems(1) by (auto simp: copied_def intro!: exI [of _ "[]"])
next
  case (Cons n ns)
  have n: "orig = n" "n \<noteq> NULL" and rest: "list_at (fb_next \<circ> blocks s) (fb_next (blocks s n)) ns"
    using Cons.prems(2) by (auto simp: comp_def)
  let ?v = "\<lparr>fb_virtual_addr = fb_virtual_addr (blocks s n), fb_page_count = fb_page_count (blocks s n), fb_next = NULL\<rparr>"
  let ?bs1 = "if prev \<noteq> NULL then (blocks s)(prev := (blocks s prev)\<lparr>fb_next := cur\<rparr>) else blocks s"
  let ?s2 = "s\<lparr>blocks := ?bs1(cur := ?v)\<rparr>"
  show ?case
  proof (cases "cur = NULL")
    case True
    then have "clone_free_loop orig prev cur s = fail Null_deref" using n by (subst clone_free_loop.simps) simp
    then show ?thesis by simp
  next
    case False
    have "kmalloc_inv ?s2 L" using Cons.prems(1) by simp
    then obtain nxt s3 where k: "kmallocK sizeof_free_blocks ?s2 = ret (nxt, s3)" "nxt \<notin> L"
      "kmalloc_inv s3 (if nxt = NULL then L else insert nxt L)" "blocks s3 = ?bs1(cur := ?v)" "trees s3 = trees s"
      by (rule kmalloc_block_cases) auto
    have ne: "n \<noteq> cur" "n \<noteq> prev" using Cons.prems(5,6) by auto
    have run: "clone_free_loop orig prev cur s = clone_free_loop (fb_next (blocks s n)) cur nxt s3"
      using n False ne k(1,4) by (subst clone_free_loop.simps) (auto simp: Let_def)
    have "blocks s3 x = blocks s x" if "x \<in> set ns" for x using that Cons.prems(5,6) k(4) by auto
    then have path: "list_at (fb_next \<circ> blocks s3) (fb_next (blocks s n)) ns"
      using rest list_at_cong [of ns "fb_next \<circ> blocks s3" "fb_next \<circ> blocks s"] by simp
    have "nxt \<notin> set ns" "cur \<notin> set ns" using k(2) Cons.prems(3,5) by auto
    then have IH: "clone_free_loop (fb_next (blocks s n)) cur nxt s3 = fail Null_deref \<or>
      (\<exists>s' L' ms. clone_free_loop (fb_next (blocks s n)) cur nxt s3 = ret s' \<and>
         copied s3 (if nxt = NULL then L else insert nxt L) ns cur nxt s' L' ms)"
      using Cons.prems(3,4) False k(2,3) path by (intro Cons.IH) (auto simp: comp_def)
    have "copied s L (n # ns) prev cur s' L' (cur # ms)"
      if "copied s3 (if nxt = NULL then L else insert nxt L) ns cur nxt s' L' ms" for s' L' ms
      using copied_Cons [OF False _ _ _ _ k(4,5,2) that] Cons.prems(4-7) False by simp
    with IH show ?thesis unfolding run by blast
  qed
qed

section \<open>Properties\<close>

text \<open>C33. \<open>clone_free_blocks\<close> makes a copy: unless the kernel heap is exhausted, the new list has the same
  regions in the same order, consists of blocks that were not allocated before, and the original list and the
  allocation trees are untouched, so that later changes of one list do not show in the other.\<close>

theorem clone_free_blocks_copies:
  assumes "kmalloc_inv s L" and "list_at (fb_next \<circ> blocks s) orig ns" and "set ns \<subseteq> L"
  shows "clone_free_blocks orig s = fail Null_deref \<or>
    (\<exists>q s' L' ms. clone_free_blocks orig s = ret (q, s') \<and> kmalloc_inv s' L' \<and> L \<subseteq> L' \<and> set ms \<subseteq> L' - L \<and>
       list_at (fb_next \<circ> blocks s') q ms \<and> map (region_of (blocks s')) ms = map (region_of (blocks s)) ns \<and>
       (\<forall>x \<in> L. blocks s' x = blocks s x) \<and> trees s' = trees s)"
proof (cases "orig = NULL")
  case True
  then show ?thesis using assms(1,2) by (auto simp: clone_free_blocks_def intro!: exI [of _ "[]"])
next
  case False
  then have ns: "ns \<noteq> []" using assms(2) by (cases ns) auto
  obtain q s1 where q: "kmallocK sizeof_free_blocks s = ret (q, s1)" "q \<notin> L" "kmalloc_inv s1 (if q = NULL then L else insert q L)"
    "blocks s1 = blocks s" "trees s1 = trees s" by (rule kmalloc_block_cases [OF assms(1)])
  have run: "clone_free_blocks orig s = bindK (clone_free_loop orig NULL q s1) (\<lambda>s2. ret (q, s2))"
    using False q(1) by (simp add: clone_free_blocks_def)
  show ?thesis
  proof (cases "q = NULL")
    case True
    have "clone_free_loop orig NULL q s1 = fail Null_deref" using True False by (subst clone_free_loop.simps) simp
    then show ?thesis by (simp add: run)
  next
    case qn: False
    let ?L = "insert q L"
    have "clone_free_loop orig NULL q s1 = fail Null_deref \<or>
      (\<exists>s' L' ms. clone_free_loop orig NULL q s1 = ret s' \<and> copied s1 ?L ns NULL q s' L' ms)"
      using q assms(2,3) qn list_at_nonnull_mem [OF assms(2)] by (intro clone_free_loop_copies) auto
    then show ?thesis unfolding copied_def
    proof (elim disjE exE conjE)
      fix s' L' ms
      assume r: "clone_free_loop orig NULL q s1 = ret s'" "kmalloc_inv s' L'" "?L \<subseteq> L'" "set ms \<subseteq> insert q (L' - ?L)"
        "list_at (fb_next \<circ> blocks s') (if ns = [] then NULL else q) ms" "map (region_of (blocks s')) ms = map (region_of (blocks s1)) ns"
        "\<forall>x. x \<notin> set ms \<and> (x \<noteq> NULL \<or> ns = []) \<longrightarrow> blocks s' x = blocks s1 x" "trees s' = trees s1"
      have "set ms \<subseteq> L' - L" using r(3,4) q(2) by auto
      moreover have "\<forall>x \<in> L. blocks s' x = blocks s x" using r(7) calculation km.live_nonnull [OF assms(1)] q(4) by auto
      ultimately show ?thesis using r ns q(4,5) run
        by (intro disjI2 exI [of _ q] exI [of _ s'] exI [of _ L'] exI [of _ ms]) auto
    qed (simp add: run)
  qed
qed

theorem clone_free_blocks_copies_witness:
  "\<exists>q s'. clone_free_blocks 0xE000002C example_vmm = ret (q, s') \<and> q \<noteq> 0xE000002C \<and> region_of (blocks s') q = (0xD8000000, 16)"
proof -
  have "\<exists>r. clone_free_blocks 0xE000002C example_vmm = ret r"
    by (simp add: clone_free_blocks_def clone_free_loop.simps kmallocK_def kmalloc_def kmalloc_loop.simps kmalloc_split_def
        example_vmm_def blank_vmm_def kmalloc_init_def c_const Let_def)
  moreover have "list_at (fb_next \<circ> blocks example_vmm) 0xE000002C [0xE000002C]" "region_of (blocks example_vmm) 0xE000002C = (0xD8000000, 16)"
    by (simp_all add: example_vmm_def region_of_def)
  ultimately show ?thesis using clone_free_blocks_copies [OF example_vmm_heap, of "0xE000002C" "[0xE000002C]"] by auto
qed

text \<open>The copy of an allocation tree is not closed: the nodes that \<open>clone_allocations\<close> allocates get
  the allocation, but where the original has no child the links of the copy keep whatever the new block
  contained. For a tree of one node the copy has the stale links of its block.\<close>

theorem clone_allocations_stale_links:
  assumes "orig \<noteq> NULL" and "t_left (trees s orig) = NULL" and "t_right (trees s orig) = NULL" and "kmalloc_inv s L" and "orig \<in> L"
  shows "clone_allocations orig s = fail Null_deref \<or>
    (\<exists>p s'. clone_allocations orig s = ret (p, s') \<and> trees s' p = (trees s p)\<lparr>t_alloc := t_alloc (trees s orig)\<rparr>)"
proof -
  obtain p s1 where k: "kmalloc sizeof_allocation_tree s = Some (p, s1)" using km.alloc_returns [OF assms(4)] by blast
  have ok: "kmalloc_size_ok sizeof_allocation_tree" by (simp add: kmalloc_size_ok_def c_const)
  show ?thesis
  proof (cases "p = NULL")
    case True
    then show ?thesis using k assms(1) by (simp add: clone_allocations_def kmallocK_def clone_allocation_tree.simps)
  next
    case False
    have "p \<noteq> orig" using km.alloc_fresh [OF assms(4) ok k False] assms(5) by auto
    then have "clone_allocations orig s = ret (p, update_tree p (\<lambda>t. t\<lparr>t_alloc := t_alloc (trees s orig)\<rparr>) s1)"
      using k False assms(1-3) kmalloc_stores(2) [OF k]
      by (simp add: clone_allocations_def kmallocK_def clone_allocation_tree.simps Let_def)
    then show ?thesis using kmalloc_stores(2) [OF k] by simp
  qed
qed

theorem clone_allocations_stale_links_witness:
  "\<exists>p s'. clone_allocations 0xE0000008 (update_tree 0xE0000040 (\<lambda>t. t\<lparr>t_left := 0xBAD0000\<rparr>) example_vmm) = ret (p, s') \<and>
     t_alloc (trees s' p) = allocation 0x400000 0x900000 2 7 \<and> t_left (trees s' p) = 0xBAD0000"
proof -
  let ?s = "update_tree 0xE0000040 (\<lambda>t. t\<lparr>t_left := 0xBAD0000\<rparr>) example_vmm"
  have run: "\<exists>s'. clone_allocations 0xE0000008 ?s = ret (0xE0000040, s')"
    by (simp add: clone_allocations_def clone_allocation_tree.simps kmallocK_def kmalloc_def kmalloc_loop.simps kmalloc_split_def
        example_vmm_def blank_vmm_def kmalloc_init_def c_const Let_def)
  have "trees ?s 0xE0000008 = \<lparr>t_alloc = allocation 0x400000 0x900000 2 7, t_left = NULL, t_right = NULL, t_parent = NULL\<rparr>"
    by (simp add: example_vmm_def)
  moreover have "kmalloc_inv ?s {0xE0000008, 0xE000002C}" using example_vmm_heap by simp
  ultimately show ?thesis using clone_allocations_stale_links [of "0xE0000008" ?s "{0xE0000008, 0xE000002C}"] run by auto
qed

end
