(* ===== verification/Vmm_Unmap.thy ===== *)
theory Vmm_Unmap
  imports Vmm_Map
begin

text \<open>
  Unmapping: \<^verbatim>\<open>vmm_unmap_pages\<close> of \<^verbatim>\<open>src/kernel/arch/i386/mm/vmm.c\<close>. The code compares the number of pages with the
  address of the allocation and not with its size, so in practice it always moves the start of the
  allocation and never removes its node; what the lookup makes of this is shown below.
\<close>

section \<open>The node of an allocation\<close>

lemma find_node_tree:
  assumes "tree_at ts p t" and "search_tree t" and "(q, a) \<in> set (inorder t)"
  shows "find_node (al_virtual_addr a) p ts = Some q"
  using assms
proof (induction t arbitrary: p)
  case (Node l x r)
  obtain b where x: "x = (p, b)" and p: "p \<noteq> NULL" "t_alloc (ts p) = b"
    and sub: "tree_at ts (t_left (ts p)) l" "tree_at ts (t_right (ts p)) r"
    using Node.prems(1) by (cases x) auto
  have st: "search_tree l" "search_tree r" using Node.prems(2) by (auto simp: x)
  have in_allocs: "a \<in> set (allocs u)" if "(q, a) \<in> set (inorder u)" for u using that by (force simp: allocs_def)
  consider "q = p" "a = b" | "(q, a) \<in> set (inorder l)" "al_virtual_addr a < al_virtual_addr b"
    | "(q, a) \<in> set (inorder r)" "al_virtual_addr b < al_virtual_addr a"
    using Node.prems(2,3) in_allocs [of l] in_allocs [of r] by (auto simp: x)
  then show ?case
  proof cases
    case 1
    then show ?thesis using p by (subst find_node.simps) simp
  next
    case 2
    then show ?thesis using p Node.IH(1) [OF sub(1) st(1)] by (subst find_node.simps) auto
  next
    case 3
    then show ?thesis using p Node.IH(2) [OF sub(2) st(2)] by (subst find_node.simps) auto
  qed
qed simp

lemma tree_at_node: "tree_at ts p t \<Longrightarrow> (q, a) \<in> set (inorder t) \<Longrightarrow> t_alloc (ts q) = a \<and> q \<noteq> NULL"
  by (induction ts p t rule: tree_at.induct) auto

definition shifted :: "u32 \<Rightarrow> vmm_allocation \<Rightarrow> vmm_allocation" where
  "shifted pc a = a\<lparr>al_virtual_addr := al_virtual_addr a + PAGE_SIZE * pc, al_page_count := al_page_count a - pc\<rparr>"

lemma shifted_interval:
  assumes "pc \<le> al_page_count a" and "unat (al_virtual_addr a) + unat (al_page_count a) * 4096 < 2 ^ 32"
  shows "unat (al_virtual_addr (shifted pc a)) = unat (al_virtual_addr a) + unat pc * 4096"
    and "unat (al_virtual_addr (shifted pc a)) + unat (al_page_count (shifted pc a)) * 4096 =
      unat (al_virtual_addr a) + unat (al_page_count a) * 4096"
    and "interval (shifted pc a) = interval a - {unat (al_virtual_addr a) ..< unat (al_virtual_addr a) + unat pc * 4096}"
proof -
  have le: "unat pc \<le> unat (al_page_count a)" using assms(1) by (simp add: word_le_nat_alt)
  then have "unat (PAGE_SIZE * pc) = unat pc * 4096" using assms(2) by (simp add: c_const unat_simps)
  then show v: "unat (al_virtual_addr (shifted pc a)) = unat (al_virtual_addr a) + unat pc * 4096"
    using assms(2) le by (simp add: shifted_def unat_simps)
  have c: "unat (al_page_count (shifted pc a)) = unat (al_page_count a) - unat pc"
    using assms(1) by (simp add: shifted_def unat_sub)
  show e: "unat (al_virtual_addr (shifted pc a)) + unat (al_page_count (shifted pc a)) * 4096 =
      unat (al_virtual_addr a) + unat (al_page_count a) * 4096"
    using le by (simp add: v c diff_mult_distrib)
  show "interval (shifted pc a) = interval a - {unat (al_virtual_addr a) ..< unat (al_virtual_addr a) + unat pc * 4096}"
    unfolding interval_def e unfolding v by auto
qed

section \<open>The lookup at a node\<close>

lemma find_allocation_step:
  assumes "p \<noteq> NULL" and "unat (al_virtual_addr (t_alloc (ts p))) + unat (al_page_count (t_alloc (ts p))) * 4096 < 2 ^ 32"
  shows "find_allocation_loop x p ts = (if unat x \<in> interval (t_alloc (ts p)) then Some (t_alloc (ts p))
    else find_allocation_loop x (if x < al_virtual_addr (t_alloc (ts p)) then t_left (ts p) else t_right (ts p)) ts)"
  using assms(1) covers_interval [OF assms(2), of x] by (subst find_allocation_loop.simps) (simp add: Let_def)

lemma find_allocation_cong:
  assumes "tree_at ts p t" and "\<forall>n \<in> set (nodes t). ts' n = ts n"
  shows "find_allocation_loop x p ts' = find_allocation_loop x p ts"
  using assms
proof (induction t arbitrary: p)
  case Leaf
  then show ?case by (simp add: find_allocation_loop.simps)
next
  case (Node l y r)
  then have "y = (p, t_alloc (ts p))" "ts' p = ts p" by (cases y; auto)+
  with Node show ?case
    by (subst (1 2) find_allocation_loop.simps) (auto simp: Let_def)
qed

text \<open>Allocations in the left subtree end where the node begins, those in the right one begin where it ends.\<close>

lemma search_tree_separates:
  assumes "search_tree \<langle>l, (p, b), r\<rangle>" and "allocs_ok (set (allocs \<langle>l, (p, b), r\<rangle>))" and "x \<in> interval c"
  shows "c \<in> set (allocs l) \<Longrightarrow> x < unat (al_virtual_addr b)"
    and "c \<in> set (allocs r) \<Longrightarrow> unat (al_virtual_addr b) + unat (al_page_count b) * 4096 \<le> x"
proof -
  have ne: "unat (al_virtual_addr d) \<in> interval d" if "d \<in> set (allocs \<langle>l, (p, b), r\<rangle>)" for d
    using that assms(2) by (auto simp: allocs_ok_def interval_def)
  have apart: "interval c \<inter> interval b = {}" if "c \<in> set (allocs l) \<union> set (allocs r)"
    using that assms(1,2) by (auto simp: allocs_ok_def)
  show "x < unat (al_virtual_addr b)" if c: "c \<in> set (allocs l)"
  proof (rule ccontr)
    assume "\<not> ?thesis"
    moreover have "unat (al_virtual_addr c) < unat (al_virtual_addr b)" using c assms(1) by (auto simp: word_less_nat_alt)
    ultimately have "unat (al_virtual_addr b) \<in> interval c" using assms(3) by (auto simp: interval_def)
    then show False using apart ne [of b] c by auto
  qed
  show "unat (al_virtual_addr b) + unat (al_page_count b) * 4096 \<le> x" if c: "c \<in> set (allocs r)"
  proof (rule ccontr)
    assume "\<not> ?thesis"
    moreover have "unat (al_virtual_addr b) < unat (al_virtual_addr c)" using c assms(1) by (auto simp: word_less_nat_alt)
    ultimately have "unat (al_virtual_addr c) \<in> interval b" using assms(3) by (auto simp: interval_def)
    then show False using apart ne [of c] c by auto
  qed
qed

text \<open>Looking an address up after the start of one allocation has moved, at its node and above it.\<close>

lemma find_at_shifted:
  assumes tree: "tree_at ts p \<langle>l, (p, a), r\<rangle>" and st: "search_tree \<langle>l, (p, a), r\<rangle>" and ok: "allocs_ok (set (allocs \<langle>l, (p, a), r\<rangle>))"
    and dn: "distinct (nodes \<langle>l, (p, a), r\<rangle>)" and pc: "pc \<le> al_page_count a" and ts': "ts' = ts(p := (ts p)\<lparr>t_alloc := shifted pc a\<rparr>)"
  shows "find_allocation_loop x p ts' =
    (if unat x \<in> {unat (al_virtual_addr a) ..< unat (al_virtual_addr a) + unat pc * 4096} then Some no_allocation
     else if unat x \<in> interval a then Some (shifted pc a) else find_allocation_loop x p ts)"
proof -
  have lim: "unat (al_virtual_addr a) + unat (al_page_count a) * 4096 < 2 ^ 32" using ok by (simp add: allocs_ok_def)
  note sh = shifted_interval [OF pc lim]
  have p: "p \<noteq> NULL" "t_alloc (ts p) = a" and sub: "tree_at ts (t_left (ts p)) l" "tree_at ts (t_right (ts p)) r" using tree by auto
  have same: "find_allocation_loop x (t_left (ts p)) ts' = find_allocation_loop x (t_left (ts p)) ts"
    "find_allocation_loop x (t_right (ts p)) ts' = find_allocation_loop x (t_right (ts p)) ts"
    using dn by (auto simp: ts' intro!: find_allocation_cong [OF sub(1)] find_allocation_cong [OF sub(2)])
  have new: "find_allocation_loop x p ts' = (if unat x \<in> interval (shifted pc a) then Some (shifted pc a)
      else find_allocation_loop x (if x < al_virtual_addr (shifted pc a) then t_left (ts p) else t_right (ts p)) ts)"
    using find_allocation_step [OF p(1), of ts' x] sh(2) lim same by (simp add: ts')
  have old: "find_allocation_loop x p ts = (if unat x \<in> interval a then Some a
      else find_allocation_loop x (if x < al_virtual_addr a then t_left (ts p) else t_right (ts p)) ts)"
    using find_allocation_step [OF p(1), of ts x] lim by (simp add: p(2))
  have okl: "allocs_ok (set (allocs l))" and stl: "search_tree l" using ok st by (auto simp: allocs_ok_def)
  have left: "find_allocation_loop x (t_left (ts p)) ts = Some no_allocation" if "unat (al_virtual_addr a) \<le> unat x"
    using find_allocation_tree [OF sub(1) stl okl, of x] search_tree_separates(1) [OF st ok, of "unat x"] that by fastforce
  have sz: "unat pc \<le> unat (al_page_count a)" using pc by (simp add: word_le_nat_alt)
  show ?thesis
    using sz left unfolding new old unfolding sh(3) by (auto simp: sh(1) word_less_nat_alt interval_def)
qed

lemma find_after_shift:
  assumes "tree_at ts p t" and "search_tree t" and "allocs_ok (set (allocs t))" and "distinct (nodes t)"
    and "(q, a) \<in> set (inorder t)" and "pc \<le> al_page_count a" and "ts' = ts(q := (ts q)\<lparr>t_alloc := shifted pc a\<rparr>)"
  shows "find_allocation_loop x p ts' =
    (if unat x \<in> {unat (al_virtual_addr a) ..< unat (al_virtual_addr a) + unat pc * 4096} then Some no_allocation
     else if unat x \<in> interval a then Some (shifted pc a) else find_allocation_loop x p ts)"
  using assms(1-5)
proof (induction t arbitrary: p)
  case (Node l y r)
  obtain b where y: "y = (p, b)" and p: "p \<noteq> NULL" "t_alloc (ts p) = b"
    and sub: "tree_at ts (t_left (ts p)) l" "tree_at ts (t_right (ts p)) r"
    using Node.prems(1) by (cases y) auto
  have st: "search_tree l" "search_tree r" and ok: "allocs_ok (set (allocs l))" "allocs_ok (set (allocs r))"
    and dn: "distinct (nodes l)" "distinct (nodes r)"
    using Node.prems(2-4) by (auto simp: y allocs_ok_def)
  have member: "a \<in> set (allocs u)" "q \<in> set (nodes u)" if "(q, a) \<in> set (inorder u)" for u
    using that by (force simp: allocs_def nodes_def)+
  have lim: "unat (al_virtual_addr b) + unat (al_page_count b) * 4096 < 2 ^ 32" using Node.prems(3) by (simp add: y allocs_ok_def)
  note sep = search_tree_separates [OF Node.prems(2,3) [unfolded y]]
  have part: "n \<in> interval a" if "n \<in> {unat (al_virtual_addr a) ..< unat (al_virtual_addr a) + unat pc * 4096}" for n
    using that assms(6) by (auto simp: interval_def word_le_nat_alt)
  have step: "find_allocation_loop x p ts = (if unat x \<in> interval b then Some b
      else find_allocation_loop x (if x < al_virtual_addr b then t_left (ts p) else t_right (ts p)) ts)"
    using find_allocation_step [OF p(1), of ts x] lim by (simp add: p(2))
  have step': "find_allocation_loop x p ts' = (if unat x \<in> interval b then Some b
      else find_allocation_loop x (if x < al_virtual_addr b then t_left (ts p) else t_right (ts p)) ts')" if "q \<noteq> p"
    using find_allocation_step [OF p(1), of ts' x] that lim by (simp add: assms(7) p(2))
  consider (here) "q = p" "a = b" | (left) "(q, a) \<in> set (inorder l)" "q \<noteq> p" "q \<notin> set (nodes r)"
    | (right) "(q, a) \<in> set (inorder r)" "q \<noteq> p" "q \<notin> set (nodes l)"
    using Node.prems(4,5) member [of l] member [of r] by (auto simp: y)
  then show ?case
  proof cases
    case here
    then show ?thesis using find_at_shifted Node.prems(1-4) assms(6,7) unfolding y by blast
  next
    case left
    have "find_allocation_loop x (t_right (ts p)) ts' = find_allocation_loop x (t_right (ts p)) ts"
      using left(3) by (intro find_allocation_cong [OF sub(2)]) (auto simp: assms(7))
    moreover have "unat x < unat (al_virtual_addr b)" if "unat x \<in> interval a" using sep(1) [OF that] member(1) [OF left(1)] .
    ultimately show ?thesis using Node.IH(1) [OF sub(1) st(1) ok(1) dn(1) left(1)] part
      unfolding step step' [OF left(2)] by (auto simp: word_less_nat_alt interval_def)
  next
    case right
    have "find_allocation_loop x (t_left (ts p)) ts' = find_allocation_loop x (t_left (ts p)) ts"
      using right(3) by (intro find_allocation_cong [OF sub(1)]) (auto simp: assms(7))
    moreover have "unat (al_virtual_addr b) + unat (al_page_count b) * 4096 \<le> unat x" if "unat x \<in> interval a"
      using sep(2) [OF that] member(1) [OF right(1)] .
    ultimately show ?thesis using Node.IH(2) [OF sub(2) st(2) ok(2) dn(2) right(1)] part
      unfolding step step' [OF right(2)] by (auto simp: word_less_nat_alt interval_def)
  qed
qed simp

section \<open>Giving the pages back\<close>

lemma kmallocK_trees: "kmallocK n s = ret (p, s') \<Longrightarrow> trees s' = trees s"
  by (auto simp: kmallocK_def liftK_def ret_def split: option.splits dest: kmalloc_stores)

lemma new_block_trees: "new_block v s = ret (p, s') \<Longrightarrow> trees s' = trees s"
  by (auto simp: new_block_def bindK_eq_ret assertK_eq_ret dest: kmallocK_trees)

lemma merge_or_insert_trees:
  assumes "merge_or_insert_free_blocks mi fb va pc s = ret s'" shows "trees s' = trees s"
proof -
  have "trees (snd (merge_free_blocks mi fb va pc s)) = trees s"
    by (simp add: merge_free_blocks_def Let_def split: prod.splits)
  with assms show ?thesis
    by (auto simp: merge_or_insert_free_blocks_def bindK_eq_ret Let_def split: if_splits prod.splits dest: new_block_trees)
qed

lemma add_free_blocks_trees:
  "add_free_blocks mi ctx va pc s = ret (ctx', s') \<Longrightarrow> trees s' = trees s \<and> allocations ctx' = allocations ctx"
  by (auto simp: add_free_blocks_def bindK_eq_ret split: if_splits prod.splits dest: new_block_trees merge_or_insert_trees)

text \<open>C4. Unmapping and looking up: when the first \<open>pc\<close> pages of an allocation are unmapped, their
  addresses are not allocated any more, the other addresses of the allocation are found in what is
  left of it, with its physical address unchanged, and every other address is looked up as before. The number of
  pages must be smaller than the address, which the code tests instead of the size of the allocation; even when
  all pages are unmapped the node of the allocation stays in the tree.\<close>

theorem vmm_unmap_pages_find:
  assumes "space_inv (ctx, s) A" and "a \<in> A" and "pc \<le> al_page_count a" and "pc < al_virtual_addr a"
    and "vmm_unmap_pages mi ctx (al_virtual_addr a) pc s = ret (ctx', s')"
  shows "vmm_find_allocation ctx' x s' =
      (if unat x \<in> {unat (al_virtual_addr a) ..< unat (al_virtual_addr a) + unat pc * 4096} then ret no_allocation
       else if unat x \<in> interval a then ret (a\<lparr>al_virtual_addr := al_virtual_addr a + PAGE_SIZE * pc, al_page_count := al_page_count a - pc\<rparr>)
       else vmm_find_allocation ctx x s) \<and>
    (\<exists>q. t_alloc (trees s' q) = a\<lparr>al_virtual_addr := al_virtual_addr a + PAGE_SIZE * pc, al_page_count := al_page_count a - pc\<rparr>)"
proof -
  obtain L ns t where t: "vmm_inv ctx s L ns t" and A: "A = set (allocs t)" using assms(1) by (auto simp: space_inv_def)
  then have tree: "tree_at (trees s) (allocations ctx) t" "search_tree t" "allocs_ok (set (allocs t))" "distinct (nodes t)"
    by (auto simp: vmm_inv_def tree_inv_def)
  obtain q where q: "(q, a) \<in> set (inorder t)" using assms(2) A by (auto simp: allocs_def)
  obtain ctx1 s1 where add: "add_free_blocks mi ctx (al_virtual_addr a) pc s = ret (ctx1, s1)"
    using assms(5) by (auto simp: vmm_unmap_pages_def bindK_eq_ret assertK_eq_ret)
  note same = add_free_blocks_trees [OF add]
  note node = find_node_tree [OF tree(1,2) q]
  have ta: "t_alloc (trees s q) = a" "q \<noteq> NULL" using tree_at_node [OF tree(1) q] by simp_all
  have s': "ctx' = ctx1" "s' = s1\<lparr>trees := (trees s)(q := (trees s q)\<lparr>t_alloc := shifted pc a\<rparr>)\<rparr>"
    using assms(4,5) add same node ta by (auto simp: vmm_unmap_pages_def bindK_eq_ret assertK_eq_ret liftK_def shifted_def split: if_splits)
  from find_after_shift [OF tree q assms(3) refl, of x] same s'
  show ?thesis by (auto simp: vmm_find_allocation_def shifted_def)
qed

lemma example_unmap_returns:
  "\<exists>ctx' s'. vmm_unmap_pages example_meminfo example_space 0x400000 1 example_vmm = ret (ctx', s')"
  by (simp add: vmm_unmap_pages_def paging_is_aligned_def c_const add_free_blocks_def find_insert_pos.simps example_space_def example_vmm_def
      blank_vmm_def new_block_def kmallocK_def kmalloc_def kmalloc_loop.simps kmalloc_split_def find_node.simps Let_def)

theorem vmm_unmap_pages_find_witness:
  "\<exists>ctx' s'. vmm_unmap_pages example_meminfo example_space 0x400000 1 example_vmm = ret (ctx', s') \<and>
     vmm_find_allocation ctx' 0x400123 s' = ret no_allocation \<and>
     vmm_find_allocation ctx' 0x401000 s' = ret (allocation 0x401000 0x900000 1 7)"
proof -
  obtain ctx' s' where run: "vmm_unmap_pages example_meminfo example_space (al_virtual_addr (allocation 0x400000 0x900000 2 7)) 1 example_vmm = ret (ctx', s')"
    using example_unmap_returns by auto
  have "vmm_find_allocation ctx' 0x400123 s' = ret no_allocation"
    "vmm_find_allocation ctx' 0x401000 s' = ret (allocation 0x401000 0x900000 1 7)"
    using vmm_unmap_pages_find [OF example_space_inv _ _ _ run, of "0x400123"]
      vmm_unmap_pages_find [OF example_space_inv _ _ _ run, of "0x401000"]
    by (simp_all add: interval_def c_const)
  with run show ?thesis by auto
qed

end
