(* ===== verification/Heap_Test.thy ===== *)
theory Heap_Test
  imports Kernel_State
begin

text \<open>
  The functions of \<^verbatim>\<open>src/kernel/kernel.c\<close> beside \<^verbatim>\<open>kernel_main\<close>: the self test of the heap \<^verbatim>\<open>kmalloc_some_ints\<close>, the
  destructor and the body of the test tasks.
\<close>

section \<open>The self test of the heap\<close>

definition store_u64 :: "u32 \<Rightarrow> u64 \<Rightarrow> mem \<Rightarrow> mem" where
  "store_u64 a v m = store_u32 (a + 4) (ucast (drop_bit 32 v)) (store_u32 a (ucast v) m)"

text \<open>One round; \<open>m\<close> is the memory of the two objects.\<close>

definition some_ints_round :: "u32 \<Rightarrow> mem \<times> 'a kernel_state_scheme \<Rightarrow> (mem \<times> 'a kernel_state_scheme) comp" where
  "some_ints_round i st =
     (case st of (m, s) \<Rightarrow>
      bindK (kmallocK 4 s) (\<lambda>(x, s1).
      assertK (x \<noteq> NULL) Null_deref
     (let m1 = store_u32 x 4 m;
          s2 = printk_debugK (''i=%d kmalloc'' @ [CHR 0x27] @ line ''d x @ %#x. x is %d'') [n32 i, n32 x, n32 (load_u32 m1 x)] s1
      in bindK (kmallocK 8 s2) (\<lambda>(y, s3).
         assertK (y \<noteq> NULL) Null_deref
        (let m2 = store_u64 y 4 m1;
             s4 = printk_debugK (''kmalloc'' @ [CHR 0x27] @ line ''d x @ %#x. y is %lld'') [n32 y, Num (load_u64 m2 y)] s3
         in ret (m2, kfree y (kfree x s4)))))))"

definition kmalloc_some_ints :: "mem \<times> 'a kernel_state_scheme \<Rightarrow> (mem \<times> 'a kernel_state_scheme) comp" where
  "kmalloc_some_ints st = for_rangeK (0 :: u32) 1000 some_ints_round st"

section \<open>Tasks and the end of the kernel\<close>

definition uninit_kernel :: "'a kernel_state_scheme \<Rightarrow> 'a kernel_state_scheme" where
  "uninit_kernel s = printk_debugK (line ''Fatal error: kernel returned.'') [] s"

text \<open>The endless loop of the test tasks, and of \<^verbatim>\<open>kernel_main\<close> at its end. \<open>interrupts\<close> is what happens to the
  kernel between the \<^verbatim>\<open>hlt\<close> instruction and the moment at which the task goes on.\<close>

partial_function (option) test_task :: "('a kernel_state_scheme \<Rightarrow> 'a kernel_state_scheme) \<Rightarrow> 'a kernel_state_scheme \<Rightarrow> 'b comp" where [code]:
  "test_task interrupts s =
     test_task interrupts (interrupts (printk_debugK (line ''task %u'') [n32 (pid (current s))] s))"

section \<open>What the self test does\<close>

text \<open>The heap behind every round: the two blocks, and the rest of the heap.\<close>

definition ints_heap :: "'a kmalloc_state_scheme \<Rightarrow> bool" where
  "ints_heap s \<longleftrightarrow> KMALLOC_HEAD s = 0xE000000C \<and> headers s 0xE000000C = \<lparr>hdr_size = 8, hdr_next = 0xE0000000\<rparr> \<and>
     headers s 0xE0000000 = \<lparr>hdr_size = 4, hdr_next = 0xE000001C\<rparr> \<and>
     headers s 0xE000001C = \<lparr>hdr_size = 0x02FFFFDC, hdr_next = 0\<rparr>"

definition fresh_heap :: "'a kmalloc_state_scheme \<Rightarrow> bool" where
  "fresh_heap s \<longleftrightarrow> KMALLOC_HEAD s = 0xE0000000 \<and> headers s 0xE0000000 = \<lparr>hdr_size = 0x02FFFFF8, hdr_next = 0\<rparr>"

lemma ints_heap_printk [simp]: "ints_heap (printk_debugK f a s) = ints_heap s"
  by (simp add: ints_heap_def printk_debugK_def)

lemma some_ints_round_result:
  assumes "fresh_heap s \<or> ints_heap s"
  shows "\<exists>m' s'. some_ints_round i (m, s) = ret (m', s') \<and> ints_heap s'"
  using assms
  by (elim disjE) (simp_all add: some_ints_round_def kmallocK_def kmalloc_def kmalloc_loop.simps kmalloc_split_def kmalloc_whole_def kfree_def
      fresh_heap_def ints_heap_def printk_debugK_def c_const Let_def)

lemma some_ints_rounds:
  assumes "fresh_heap (snd st) \<or> ints_heap (snd st)" and "is \<noteq> []"
  shows "\<exists>st'. foldK some_ints_round is st = ret st' \<and> ints_heap (snd st')"
proof -
  obtain i js where js: "is = i # js" using assms(2) by (cases "is") auto
  have step: "\<exists>st'. some_ints_round i st = ret st' \<and> ints_heap (snd st')" if "fresh_heap (snd st) \<or> ints_heap (snd st)" for i
    and st :: "mem \<times> 'a kernel_state_scheme"
    using some_ints_round_result [of "snd st" i "fst st"] that by force
  obtain st1 where st1: "some_ints_round i st = ret st1" "ints_heap (snd st1)" using step [OF assms(1)] by blast
  have "\<exists>st'. foldK some_ints_round js st1 = ret st' \<and> ints_heap (snd st')"
    by (rule foldK_invariant [of "\<lambda>st. ints_heap (snd st)"]) (use st1(2) step in auto)
  then show ?thesis by (simp add: js st1(1))
qed

text \<open>The loop of a test task never ends.\<close>

lemma test_task_never_returns: "(test_task interrupts s :: 'b comp) = None"
proof (rule ccontr)
  assume "(test_task interrupts s :: 'b comp) \<noteq> None"
  then obtain r :: "kerror + 'b" where "test_task interrupts s = Some r" by auto
  then show False
    by (rule test_task.raw_induct [where P = "\<lambda>_ _ _. False", rotated]) blast
qed

section \<open>Properties\<close>


end
