(* ===== verification/Spec2Isabelle.thy ===== *)
theory Spec2Isabelle
  imports Kernel_Run Start Loader Libc Printk_Spec Vmm_Clone Vmm_Unmap Heap_Test
begin

text \<open>
  A verification of the GubOS kernel (\<^verbatim>\<open>src/\<close>), a small multitasking kernel for the i386 in C.

  \<^bold>\<open>The program.\<close> A multiboot2 loader starts \<^verbatim>\<open>kernel_main\<close>, which sets up the console and the keyboard
  controller, marks the physical frames that are taken, builds the page directory, the heap and the kernel's
  address space, and starts the tasks. The boot assembly before it enables paging and installs
  descriptor tables and interrupt vectors. From then on the timer interrupt switches between the tasks of a ring, page faults map the pages of
  a task's allocations on demand, and tasks enter the kernel with the system calls exit and fork.

  \<^bold>\<open>Memory management.\<close>
    \<^item> \<open>Kmalloc\<close>: the heap, \<^verbatim>\<open>kernel/kmalloc.c\<close>. A store of block headers and the head of the free list.
      \<open>heap_reach\<close> is the set of heaps that calls can reach; in all of them the blocks tile the heap.
    \<^item> \<open>Pmm\<close>, \<open>Pmm_Init\<close>: the bitmap of frames, \<^verbatim>\<open>mm/pmm.c\<close>, abstracted to the set \<open>frames_used\<close>.
    \<^item> \<open>Paging\<close>: directories and tables, \<^verbatim>\<open>mm/paging.c\<close> and \<^verbatim>\<open>paging_bootstrap.c\<close>. \<open>page_walk\<close> is the processor's
      translation; what the code writes is judged by what the processor then translates.
    \<^item> \<open>Vmm\<close>: the operations of \<^verbatim>\<open>mm/vmm.c\<close>: a list of free regions and a search tree of allocations in heap
      nodes. \<open>Vmm_Tree\<close> and \<open>Vmm_Free\<close> relate the nodes to HOL trees and lists of regions, \<open>Vmm_Map\<close> draws the
      consequences for mapping, lookup and new contexts, \<open>Vmm_Unmap\<close> those for unmapping, \<open>Vmm_Clone\<close> those for copies
      of an address space.
    \<^item> \<open>Page_Fault\<close>: \<^verbatim>\<open>interrupts/page_fault.c\<close>, and the access of a processor that repeats an instruction
      after a fault (\<open>touch\<close>).

  \<^bold>\<open>Tasks.\<close> \<open>Kernel_State\<close> is the state of the whole kernel. \<open>Task\<close> models \<^verbatim>\<open>task.c\<close> and the switch in
  \<^verbatim>\<open>task_switch.S\<close>, \<open>Sched\<close> the scheduler \<^verbatim>\<open>sched.c\<close>, \<open>Elf\<close> the parser and the loader of programs (\<^verbatim>\<open>kernel/elf\<close>),
  \<open>Init_Task\<close> the user tasks (\<^verbatim>\<open>init.c\<close>), the system calls (\<^verbatim>\<open>kernel/syscall\<close>) and the interrupt handlers above
  them, \<open>Kernel_Main\<close> the main function, \<open>Heap_Test\<close> the other functions of \<^verbatim>\<open>kernel.c\<close>, and \<open>Boot\<close> what the
  components add up to when the tasks are started. \<open>Loader\<close> shows how the bytes of a program get into its
  frames, and when they do not.

  \<^bold>\<open>Assembly.\<close> \<open>Start\<close> models the boot code from the loader to \<^verbatim>\<open>kernel_main\<close> (\<^verbatim>\<open>boot.S\<close> and its includes, \<^verbatim>\<open>crti.S\<close>, \<^verbatim>\<open>crtn.S\<close>,
  \<^verbatim>\<open>multiboot2_header.S\<close>, \<^verbatim>\<open>mm/meminfo.c\<close>) on a state of its own with physical memory and the control registers; it composes
  \<open>paging_bootstrap\<close>, \<open>idt_init\<close> and \<open>gdt_init\<close>. \<open>User_Mode\<close> models the border to user mode: the entry in
  \<^verbatim>\<open>init_user_mode.S\<close>, the stub in \<^verbatim>\<open>syscall_int_handler.S\<close>, the instructions \<^verbatim>\<open>int\<close> and \<^verbatim>\<open>iret\<close>, and above it \<^verbatim>\<open>crt0.S\<close>,
  \<^verbatim>\<open>exit.S\<close> and the programs of \<^verbatim>\<open>src/programs\<close>. \<open>Libc\<close> holds the C functions of \<^verbatim>\<open>src/libc\<close>.

  \<^bold>\<open>The running kernel.\<close> \<open>Kernel_Run\<close> is a transition system whose events are timer ticks, keyboard interrupts,
  memory accesses, program code and system calls other than exit; by rule induction every run keeps the heap, the address spaces and the ring, and the number of
  ticks decides which task runs.

  \<^bold>\<open>Processor and devices.\<close> \<open>Gdt\<close>, \<open>Idt\<close> and \<open>Handlers\<close> model the descriptor tables and exception handlers;
  \<open>Portio\<close>, \<open>Pic\<close> and \<open>Ps2\<close> the ports, the interrupt controllers and the keyboard; \<open>Tty\<close> the console.

  \<^bold>\<open>Libraries.\<close> \<open>Cstring\<close> (\<^verbatim>\<open>kernel/string\<close>), \<open>Itoa\<close>, \<open>Multiboot\<close> (\<^verbatim>\<open>multiboot2.h\<close> and its readers), \<open>Printk\<close> with
  \<open>Printk_Spec\<close>, which shows that \<^verbatim>\<open>vprintk\<close> prints what a reference formatter on the parsed format prints.

  \<^bold>\<open>Interfaces.\<close> Each is a locale with the laws that its clients use and is interpreted on the model:
  \<open>region_allocator\<close> (\<open>Allocator_Spec\<close>) by the heap as \<open>km\<close>, \<open>frame_allocator\<close> (\<open>Frame_Spec\<close>) by the frame bitmap as
  \<open>pmm\<close>, \<open>page_mapper\<close> (\<open>Mapping_Spec\<close>) by paging as \<open>pg\<close>, and \<open>address_map\<close> with its extension \<open>address_space\<close>
  (\<open>Address_Spec\<close>) by the virtual memory manager as \<open>sp\<close>. The address space is built on \<open>km\<close>, the fault handler on
  \<open>sp\<close> and \<open>pg\<close>, the loader on \<open>sp\<close> and \<open>pg\<close>, the scheduler on \<open>km\<close>.

  \<^bold>\<open>How C is modelled.\<close> Integers are words of their width and wrap. A computation that can fail or run
  forever has the type \<open>comp\<close>: no value if it never returns, a panic or a null pointer access, or a result.
  Objects of a C type are in a store of their own, indexed by address; a block from the heap holds what was there
  before until it is written. Kernel stacks are bytes at virtual addresses, pages mapped on demand are bytes of
  physical frames reached through the page tables. Loops that always end are total functions; those that may
  not are partial functions, so that returning is a theorem (and for \<open>sched_remove\<close> and \<open>pmm_mark_range_used\<close> not
  returning is one). There is no fuel. Calls of \<^verbatim>\<open>printk\<close> outside \<open>Printk\<close> append to a list of messages. A device
  is a parameter: the answer to a read as a function of everything sent and read before. Addresses fixed by the
  linker, and the contents of uninitialised locals, are parameters.

  \<^bold>\<open>Not modelled.\<close> The linker script, of which \<open>linked\<close> in \<open>Start\<close> states what the boot code needs; the code that the
  compiler puts between \<^verbatim>\<open>crti.S\<close> and \<^verbatim>\<open>crtn.S\<close>, a parameter; the empty constructor of \<^verbatim>\<open>kernel.c\<close> and the halting loops; the
  entry sequences that the compiler generates for the interrupt handlers in C; \<^verbatim>\<open>invlpg\<close>, since the model
  has no translation cache; flags other than the interrupt flag; interrupts that arrive between two instructions of the kernel.
  Header files with declarations only, and constants that no code uses, have no counterpart.

  \<^bold>\<open>Limits of the results.\<close> Properties of the address space hold for requests that do not take a region of
  exactly their size from its middle and, as an invariant, for spaces from which nothing is unmapped, since the
  code is wrong there; those cases, and the other defects found, are stated as theorems of their own: a
  kernel request that is answered with address 0, stale links in a cloned tree, one frame shared by all pages of an allocation, a removal from the
  ring that never returns, frames that are not freed, numbers printed backwards, a segment of more than a page that
  cannot be loaded, interrupts that are enabled while the descriptor table is unmapped, a user program that panics
  the kernel. A run of \<open>Kernel_Run\<close> has no exit, since an exit can destroy the ring.
\<close>

end
